theory Spec2Isabelle
  imports Main "HOL-Library.Multiset"
begin

section \<open>Shared types (src/shared.ts)\<close>

text \<open>
  Identifiers are JavaScript strings and timestamps are the integers of \<open>Date.now()\<close>
  (milliseconds). Strings are byte lists; the two non-ASCII literals of the source
  (the bot's display name and avatar) are written as their UTF-8 bytes.
\<close>

datatype Role = admin_role | user_role

record User =
  u_id :: string
  username :: string
  nickname :: "string option"
  role :: Role
  avatar :: "string option"
  u_created_at :: int

record UserWithPassword = User +
  password :: string

record RoomMember =
  rm_room_id :: string
  rm_user_id :: string
  joined_at :: int

text \<open>
  A message, both as a row of the \<open>messages\<close> table and as the object carried by a
  \<open>new_message\<close> event. \<open>source\<close>, \<open>external_id\<close> and \<open>acknowledged\<close> are optional in
  the TypeScript type; the table gives \<open>source\<close> the default \<open>'user'\<close> and
  \<open>acknowledged\<close> the default \<open>0\<close>.
\<close>

record Message =
  m_id :: string
  m_room_id :: string
  m_user_id :: string
  content :: string
  content_type :: string
  m_created_at :: int
  source :: "string option"
  external_id :: "string option"
  acknowledged :: "int option"

record Session =
  s_id :: string
  s_user_id :: string
  s_created_at :: int
  expires_at :: int

datatype AckStatus = delivered | read

text \<open>The reduced envelope \<open>{room_id, user_id, content, timestamp}\<close> of the bot plugin.\<close>

record PluginMessage =
  p_room_id :: string
  p_user_id :: string
  p_content :: string
  p_timestamp :: "int option"

text \<open>
  One JSON object per frame, discriminated by its \<open>type\<close> field: the union of
  \<open>WSMessage\<close>, \<open>BotWSMessage\<close> and the two plugin shapes (\<open>heartbeat\<close>, \<open>message\<close>)
  that \<open>onMessage\<close> also accepts. A field that \<open>JSON.stringify\<close> drops when it is
  \<open>undefined\<close> is an option; the fields that the TypeScript types make mandatory are
  taken to be present, with a value of their type.
\<close>

datatype Frame =
    AuthSession string
  | AuthApiKey string
  | AuthSuccess "string option"
  | AuthError string
  | Ping int
  | Pong int
  | Heartbeat
  | JoinRoom string
  | LeaveRoom string
  | RoomJoined string
  | RoomLeft string
  | NewMessage Message "User option"
  | MessageAck string AckStatus
  | RoomMessages string "Message list" "User list"
  | SyncRequest "string option"
  | SyncResponse "Message list" "User list"
  | UserOnline string
  | UserOffline string
  | RoomDeleted string
  | Error string
  | Subscribe string
  | Unsubscribe string
  | SendMessage string string "string option"
  | MessageSent string "string option"
  | PluginEnvelope "PluginMessage option"
  | OtherType

text \<open>
  What \<open>JSON.parse\<close> makes of an inbound text frame: a frame, or nothing that the
  \<open>switch\<close> can read (\<open>JSON.parse\<close> throws, or it yields \<open>null\<close> and \<open>parsed.type\<close>
  throws).
\<close>

datatype Inbound = Unparsable | Parsed Frame

datatype ConnectionAttachment =
    UserAttachment (userId: string) (joinedRooms: "string list") (lastPing: int)
  | BotAttachment (botId: string) (subscribedRooms: "string list") (lastPing: int)

section \<open>The server (src/server/index.ts)\<close>



subsection \<open>The SQL store\<close>

text \<open>
  The tables that the handlers below read and write, each the list of its rows in
  the order of insertion; of the \<open>rooms\<close> table only the ids, which the foreign key of
  \<open>messages\<close> refers to. \<open>foreign_keys\<close> is the engine's setting of that name: whether
  the \<open>FOREIGN KEY\<close> clauses of \<open>initializeDatabase\<close> are enforced is decided by the
  platform, not by the source.
\<close>

record Store =
  users :: "UserWithPassword list"
  rooms :: "string list"
  messages :: "Message list"
  room_members :: "RoomMember list"
  sessions :: "Session list"
  foreign_keys :: bool

text \<open>
  The state of the one \<open>ChatV2\<close> object: the store, the configured bot key, the live
  sockets in the order of \<open>ctx.getWebSockets()\<close> each with its attachment (\<open>None\<close> until
  it authenticates), the time at which the callback given to \<open>setInterval\<close> is due next
  (\<open>None\<close> before \<open>onStart\<close>), and what the handlers have done to the outside: the
  frames sent, in order, and the sockets on which \<open>close()\<close> was called.
\<close>

record Server = Store +
  BOT_API_KEY :: "string option"
  sockets :: "(nat \<times> ConnectionAttachment option) list"
  interval_due :: "int option"
  sent :: "(nat \<times> Frame) list"
  closed :: "nat list"

definition with_store :: "Store \<Rightarrow> Server \<Rightarrow> Server" where
  "with_store db st =
     st\<lparr>users := users db, rooms := rooms db, messages := messages db,
        room_members := room_members db, sessions := sessions db,
        foreign_keys := foreign_keys db\<rparr>"

text \<open>
  Each statement is SQL text into which the handler splices strings between single
  quotes, \<open>WHERE id = '${sessionId}'\<close>. When the spliced string is \<open>plain\<close>, the text
  between the quotes is one string literal and its value is the string: the statement
  is the relational operation on the tables written out below. When the string holds a
  quote the literal ends there and the rest of the string is read as SQL (a NUL ends the
  text where the engine takes it as a C string); what the statement does then is up to
  the engine.
\<close>

definition plain :: "string \<Rightarrow> bool" where
  "plain s \<longleftrightarrow> CHR 0x27 \<notin> set s \<and> CHR 0x00 \<notin> set s"

text \<open>
  \<open>content.replace(/'/g, "''")\<close> doubles every quote, so that the literal denotes the
  content again: such a string is spliced safely when it has no NUL.
\<close>

definition escaped_safely :: "string \<Rightarrow> bool" where
  "escaped_safely s \<longleftrightarrow> CHR 0x00 \<notin> set s"

text \<open>
  The engine on a statement whose spliced strings are not plain: a parameter of the
  model, with one function for each statement of the source. From the spliced values and
  the store it gives the store afterwards and the rows returned, or \<open>None\<close> when
  \<open>sql.exec\<close> throws (a syntax error, a failed constraint).
\<close>

type_synonym 'r Query = "Store \<Rightarrow> Store \<times> 'r option"

record Sqlite =
  sessions_by_id :: "string \<Rightarrow> int \<Rightarrow> Session list Query"
  membership_of :: "string \<Rightarrow> string \<Rightarrow> RoomMember list Query"
  messages_of_room :: "string \<Rightarrow> Message list Query"
  user_by_id :: "string \<Rightarrow> User list Query"
  created_at_of :: "string \<Rightarrow> int list Query"
  messages_since :: "string \<Rightarrow> int option \<Rightarrow> Message list Query"
  acknowledge :: "string \<Rightarrow> unit Query"
  insert_bot_message :: "string \<Rightarrow> string \<Rightarrow> string \<Rightarrow> int \<Rightarrow> string option \<Rightarrow> unit Query"
  insert_user_message :: "string \<Rightarrow> string \<Rightarrow> string \<Rightarrow> string \<Rightarrow> string \<Rightarrow> int \<Rightarrow> unit Query"
  members_of_room :: "string \<Rightarrow> string list Query"

text \<open>
  How a call ends: it returns a value, or it throws; either way in the state reached
  until then.
\<close>

datatype 'a Outcome = Returns 'a Server | Throws Server

definition exec :: "'r Query \<Rightarrow> Server \<Rightarrow> 'r Outcome" where
  "exec q st =
     (case q (Store.truncate st) of
        (db, None) \<Rightarrow> Throws (with_store db st)
      | (db, Some rows) \<Rightarrow> Returns rows (with_store db st))"

subsection \<open>Sockets\<close>

definition send :: "nat \<Rightarrow> Frame \<Rightarrow> Server \<Rightarrow> Server" where
  "send c f st = st\<lparr>sent := sent st @ [(c, f)]\<rparr>"

definition close :: "nat \<Rightarrow> Server \<Rightarrow> Server" where
  "close c st = st\<lparr>closed := closed st @ [c]\<rparr>"

definition deserializeAttachment :: "Server \<Rightarrow> nat \<Rightarrow> ConnectionAttachment option" where
  "deserializeAttachment st c = (case map_of (sockets st) c of None \<Rightarrow> None | Some a \<Rightarrow> a)"

definition serializeAttachment :: "nat \<Rightarrow> ConnectionAttachment \<Rightarrow> Server \<Rightarrow> Server" where
  "serializeAttachment c a st =
     st\<lparr>sockets := map (\<lambda>(c', a'). if c' = c then (c', Some a) else (c', a')) (sockets st)\<rparr>"

text \<open>\<open>[...new Set(xs)]\<close>: the distinct elements in the order of their first occurrence.\<close>

fun new_Set :: "'a list \<Rightarrow> 'a list" where
  "new_Set [] = []"
| "new_Set (x # xs) = x # new_Set (filter (\<lambda>y. y \<noteq> x) xs)"

text \<open>The static record pushed for the reserved author id \<open>bot\<close>.\<close>

definition bot_username :: string where
  "bot_username = [CHR ''A'', CHR ''I'', CHR 0xE5, CHR 0x8A, CHR 0xA9, CHR 0xE6, CHR 0x89, CHR 0x8B]"

definition bot_avatar :: string where
  "bot_avatar = [CHR 0xF0, CHR 0x9F, CHR 0xA4, CHR 0x96]"

definition bot_user :: "int \<Rightarrow> User" where
  "bot_user now = \<lparr>u_id = ''bot'', username = bot_username, nickname = None, role = user_role,
     avatar = Some bot_avatar, u_created_at = now\<rparr>"

subsection \<open>The statements\<close>

text \<open>\<open>SELECT * FROM sessions WHERE id = '${sessionId}' AND expires_at > ${Date.now()}\<close>.\<close>

definition select_sessions :: "Sqlite \<Rightarrow> string \<Rightarrow> int \<Rightarrow> Server \<Rightarrow> Session list Outcome" where
  "select_sessions E sessionId now st =
     (if plain sessionId
      then Returns (filter (\<lambda>s. s_id s = sessionId \<and> expires_at s > now) (sessions st)) st
      else exec (sessions_by_id E sessionId now) st)"

text \<open>
  \<open>SELECT * FROM room_members WHERE room_id = '${roomId}' AND user_id =
  '${attachment.userId}'\<close>.
\<close>

definition select_membership ::
  "Sqlite \<Rightarrow> string \<Rightarrow> string \<Rightarrow> Server \<Rightarrow> RoomMember list Outcome" where
  "select_membership E roomId uid st =
     (if plain roomId \<and> plain uid
      then Returns (filter (\<lambda>m. rm_room_id m = roomId \<and> rm_user_id m = uid) (room_members st)) st
      else exec (membership_of E roomId uid) st)"

text \<open>\<open>ORDER BY created_at ASC\<close> and \<open>ORDER BY created_at DESC\<close>; rows of equal key, whose
  order SQL leaves open, stay in the order of the table.\<close>

definition order_by_created_at_asc :: "Message list \<Rightarrow> Message list" where
  "order_by_created_at_asc ms = sort_key m_created_at ms"

definition order_by_created_at_desc :: "Message list \<Rightarrow> Message list" where
  "order_by_created_at_desc ms = sort_key (\<lambda>m. - m_created_at m) ms"

text \<open>
  \<open>SELECT * FROM messages WHERE room_id = '${roomId}' ORDER BY created_at DESC LIMIT 50\<close>.
\<close>

definition select_room_messages :: "Sqlite \<Rightarrow> string \<Rightarrow> Server \<Rightarrow> Message list Outcome" where
  "select_room_messages E roomId st =
     (if plain roomId
      then Returns (take 50 (order_by_created_at_desc
                               (filter (\<lambda>m. m_room_id m = roomId) (messages st)))) st
      else exec (messages_of_room E roomId) st)"

text \<open>
  \<open>SELECT id, username, nickname, role, avatar, created_at FROM users WHERE id =
  '${uid}'\<close>: the matching rows without their passwords.
\<close>

definition select_user :: "Sqlite \<Rightarrow> string \<Rightarrow> Server \<Rightarrow> User list Outcome" where
  "select_user E uid st =
     (if plain uid
      then Returns (map User.truncate (filter (\<lambda>u. u_id u = uid) (users st))) st
      else exec (user_by_id E uid) st)"

text \<open>\<open>SELECT created_at FROM messages WHERE id = '${lastMessageId}'\<close>.\<close>

definition select_created_at :: "Sqlite \<Rightarrow> string \<Rightarrow> Server \<Rightarrow> int list Outcome" where
  "select_created_at E lastMessageId st =
     (if plain lastMessageId
      then Returns (map m_created_at (filter (\<lambda>m. m_id m = lastMessageId) (messages st))) st
      else exec (created_at_of E lastMessageId) st)"

text \<open>
  The \<open>query\<close> that \<open>handleSyncRequest\<close> assembles: \<open>SELECT * FROM messages WHERE room_id
  IN (SELECT room_id FROM room_members WHERE user_id = '${attachment.userId}')\<close>, then
  \<open>AND created_at > ${lastMessage.created_at}\<close> when there is a bound, then \<open>ORDER BY
  created_at ASC LIMIT 100\<close>.
\<close>

definition select_since ::
  "Sqlite \<Rightarrow> string \<Rightarrow> int option \<Rightarrow> Server \<Rightarrow> Message list Outcome" where
  "select_since E uid bound st =
     (if plain uid
      then Returns
             (take 100 (order_by_created_at_asc
                (filter (\<lambda>m. m_room_id m \<in> set (map rm_room_id
                                                     (filter (\<lambda>r. rm_user_id r = uid) (room_members st)))
                             \<and> (case bound of None \<Rightarrow> True | Some t \<Rightarrow> m_created_at m > t))
                        (messages st)))) st
      else exec (messages_since E uid bound) st)"

text \<open>\<open>UPDATE messages SET acknowledged = 1 WHERE id = '${messageId}'\<close>.\<close>

definition update_acknowledged :: "Sqlite \<Rightarrow> string \<Rightarrow> Server \<Rightarrow> unit Outcome" where
  "update_acknowledged E messageId st =
     (if plain messageId
      then Returns ()
             (st\<lparr>messages := map (\<lambda>m. if m_id m = messageId then m\<lparr>acknowledged := Some 1\<rparr> else m)
                                 (messages st)\<rparr>)
      else exec (acknowledge E messageId) st)"

text \<open>\<open>SELECT user_id FROM room_members WHERE room_id = '${roomId}'\<close>.\<close>

definition select_members :: "Sqlite \<Rightarrow> string \<Rightarrow> Server \<Rightarrow> string list Outcome" where
  "select_members E roomId st =
     (if plain roomId
      then Returns (map rm_user_id (filter (\<lambda>r. rm_room_id r = roomId) (room_members st))) st
      else exec (members_of_room E roomId) st)"

text \<open>
  \<open>INSERT INTO messages\<close> of a row whose values reach the engine as they are: the row is
  appended unless its id is taken already (the primary key) or, where foreign keys are
  enforced, its room or its author is not in the store; then \<open>sql.exec\<close> throws.
\<close>

definition insert_message :: "Message \<Rightarrow> Server \<Rightarrow> unit Outcome" where
  "insert_message row st =
     (if m_id row \<in> set (map m_id (messages st)) then Throws st
      else if foreign_keys st \<and> m_room_id row \<notin> set (rooms st) then Throws st
      else if foreign_keys st \<and> m_user_id row \<notin> set (map u_id (users st)) then Throws st
      else Returns () (st\<lparr>messages := messages st @ [row]\<rparr>))"

subsection \<open>Authentication\<close>

definition broadcastUserStatus :: "string \<Rightarrow> bool \<Rightarrow> Server \<Rightarrow> Server" where
  "broadcastUserStatus uid online st =
     fold (\<lambda>(c, a) s.
             (case a of
                Some (UserAttachment u _ _) \<Rightarrow>
                  if u \<noteq> uid then send c (if online then UserOnline uid else UserOffline uid) s else s
              | _ \<Rightarrow> s))
          (sockets st) st"

definition handleUserAuth :: "Sqlite \<Rightarrow> int \<Rightarrow> nat \<Rightarrow> string \<Rightarrow> Server \<Rightarrow> unit Outcome" where
  "handleUserAuth E now c sessionId st =
     (case select_sessions E sessionId now st of
        Throws st1 \<Rightarrow> Throws st1
      | Returns found st1 \<Rightarrow>
          (case found of
             [] \<Rightarrow> Returns () (send c (AuthError ''Invalid session'') st1)
           | session # _ \<Rightarrow>
               Returns ()
                 (broadcastUserStatus (s_user_id session) True
                    (send c (AuthSuccess (Some (s_user_id session)))
                       (serializeAttachment c (UserAttachment (s_user_id session) [] now) st1)))))"

text \<open>\<open>this.env.BOT_API_KEY || "default-bot-api-key"\<close>: an unset or empty key is falsy.\<close>

definition validApiKey :: "Server \<Rightarrow> string" where
  "validApiKey st =
     (case BOT_API_KEY st of
        None \<Rightarrow> ''default-bot-api-key''
      | Some k \<Rightarrow> if k = [] then ''default-bot-api-key'' else k)"

definition handleBotAuth :: "int \<Rightarrow> nat \<Rightarrow> string \<Rightarrow> Server \<Rightarrow> Server" where
  "handleBotAuth now c apiKey st =
     (if apiKey \<noteq> validApiKey st then close c (send c (AuthError ''Invalid API key'') st)
      else send c (AuthSuccess None) (serializeAttachment c (BotAttachment ''bot'' [] now) st))"

subsection \<open>Liveness\<close>

definition set_lastPing :: "int \<Rightarrow> ConnectionAttachment \<Rightarrow> ConnectionAttachment" where
  "set_lastPing now a =
     (case a of
        UserAttachment u rs _ \<Rightarrow> UserAttachment u rs now
      | BotAttachment b rs _ \<Rightarrow> BotAttachment b rs now)"

definition handlePing :: "int \<Rightarrow> nat \<Rightarrow> int \<Rightarrow> Server \<Rightarrow> Server" where
  "handlePing now c timestamp st =
     send c (Pong now)
       (case deserializeAttachment st c of
          None \<Rightarrow> st
        | Some a \<Rightarrow> serializeAttachment c (set_lastPing now a) st)"

definition handleHeartbeat :: "int \<Rightarrow> nat \<Rightarrow> Server \<Rightarrow> Server" where
  "handleHeartbeat now c st =
     (case deserializeAttachment st c of
        None \<Rightarrow> st
      | Some a \<Rightarrow> serializeAttachment c (set_lastPing now a) st)"





subsection \<open>Rooms, resynchronisation, acknowledgment\<close>

text \<open>
  The loop over \<open>userIds\<close> shared by \<open>handleJoinRoom\<close> and \<open>handleSyncRequest\<close>;
  \<open>.toArray()[0]\<close> is the first row, or \<open>undefined\<close>, which is not pushed.
\<close>

fun resolve_users :: "Sqlite \<Rightarrow> int \<Rightarrow> string list \<Rightarrow> Server \<Rightarrow> User list Outcome" where
  "resolve_users E now [] st = Returns [] st"
| "resolve_users E now (uid # uids) st =
     (if uid = ''bot''
      then (case resolve_users E now uids st of
              Throws s \<Rightarrow> Throws s
            | Returns us s \<Rightarrow> Returns (bot_user now # us) s)
      else (case select_user E uid st of
              Throws s \<Rightarrow> Throws s
            | Returns found st1 \<Rightarrow>
                (case resolve_users E now uids st1 of
                   Throws s \<Rightarrow> Throws s
                 | Returns us s \<Rightarrow> Returns (take 1 found @ us) s)))"

definition handleJoinRoom :: "Sqlite \<Rightarrow> int \<Rightarrow> nat \<Rightarrow> string \<Rightarrow> Server \<Rightarrow> unit Outcome" where
  "handleJoinRoom E now c roomId st =
     (case deserializeAttachment st c of
        Some (UserAttachment uid joined lp) \<Rightarrow>
          (case select_membership E roomId uid st of
             Throws s \<Rightarrow> Throws s
           | Returns membership st0 \<Rightarrow>
               if membership = []
               then Returns () (send c (Error ''Not a member of this room'') st0)
               else
                 let st1 = (if roomId \<in> set joined then st0
                            else serializeAttachment c (UserAttachment uid (joined @ [roomId]) lp) st0);
                     st2 = send c (RoomJoined roomId) st1
                 in (case select_room_messages E roomId st2 of
                       Throws s \<Rightarrow> Throws s
                     | Returns msgs st3 \<Rightarrow>
                         (case resolve_users E now (new_Set (map m_user_id msgs)) st3 of
                            Throws s \<Rightarrow> Throws s
                          | Returns us st4 \<Rightarrow>
                              Returns () (send c (RoomMessages roomId (rev msgs) us) st4))))
      | _ \<Rightarrow> Returns () (send c (Error ''Not authenticated'') st))"

definition handleLeaveRoom :: "nat \<Rightarrow> string \<Rightarrow> Server \<Rightarrow> Server" where
  "handleLeaveRoom c roomId st =
     send c (RoomLeft roomId)
       (case deserializeAttachment st c of
          Some (UserAttachment uid joined lp) \<Rightarrow>
            serializeAttachment c (UserAttachment uid (filter (\<lambda>r. r \<noteq> roomId) joined) lp) st
        | _ \<Rightarrow> st)"

text \<open>
  The \<open>created_at\<close> bound of \<open>handleSyncRequest\<close>: \<open>if (lastMessageId)\<close> is false for an
  absent and for an empty id, and then no statement is run; \<open>.toArray()[0]\<close> is the
  first row with that id, if any.
\<close>

definition sync_bound :: "Sqlite \<Rightarrow> string option \<Rightarrow> Server \<Rightarrow> int option Outcome" where
  "sync_bound E lastMessageId st =
     (case lastMessageId of
        None \<Rightarrow> Returns None st
      | Some lid \<Rightarrow>
          if lid = [] then Returns None st
          else (case select_created_at E lid st of
                  Throws s \<Rightarrow> Throws s
                | Returns found s \<Rightarrow>
                    Returns (case found of [] \<Rightarrow> None | t # _ \<Rightarrow> Some t) s))"

definition handleSyncRequest ::
  "Sqlite \<Rightarrow> int \<Rightarrow> nat \<Rightarrow> string option \<Rightarrow> Server \<Rightarrow> unit Outcome" where
  "handleSyncRequest E now c lastMessageId st =
     (case deserializeAttachment st c of
        Some (UserAttachment uid joined lp) \<Rightarrow>
          (case sync_bound E lastMessageId st of
             Throws s \<Rightarrow> Throws s
           | Returns bound st1 \<Rightarrow>
               (case select_since E uid bound st1 of
                  Throws s \<Rightarrow> Throws s
                | Returns msgs st2 \<Rightarrow>
                    (case resolve_users E now (new_Set (map m_user_id msgs)) st2 of
                       Throws s \<Rightarrow> Throws s
                     | Returns us st3 \<Rightarrow> Returns () (send c (SyncResponse msgs us) st3))))
      | _ \<Rightarrow> Returns () st)"

definition handleMessageAck :: "Sqlite \<Rightarrow> nat \<Rightarrow> string \<Rightarrow> AckStatus \<Rightarrow> Server \<Rightarrow> unit Outcome" where
  "handleMessageAck E c messageId status st = update_acknowledged E messageId st"

subsection \<open>Broadcast\<close>

definition broadcastToRoom :: "Sqlite \<Rightarrow> string \<Rightarrow> Frame \<Rightarrow> Server \<Rightarrow> unit Outcome" where
  "broadcastToRoom E roomId message st =
     (case select_members E roomId st of
        Throws s \<Rightarrow> Throws s
      | Returns roomMembers st1 \<Rightarrow>
          Returns ()
            (let memberIds = set roomMembers
             in fold (\<lambda>(c, a) s.
                        (case a of
                           None \<Rightarrow> s
                         | Some (UserAttachment uid _ _) \<Rightarrow>
                             if uid \<in> memberIds then send c message s else s
                         | Some (BotAttachment _ _ _) \<Rightarrow>
                             (case message of
                                NewMessage m u \<Rightarrow>
                                  if source m = Some ''user''
                                  then send c (PluginEnvelope (Some
                                         \<lparr>p_room_id = roomId, p_user_id = m_user_id m,
                                          p_content = content m,
                                          p_timestamp = Some (m_created_at m)\<rparr>)) s
                                  else s
                              | _ \<Rightarrow> s)))
                     (sockets st1) st1))"

subsection \<open>Bot handlers\<close>

definition handleBotSubscribe :: "nat \<Rightarrow> string \<Rightarrow> Server \<Rightarrow> Server" where
  "handleBotSubscribe c roomId st =
     (case deserializeAttachment st c of
        Some (BotAttachment b subs lp) \<Rightarrow>
          if roomId \<in> set subs then st
          else serializeAttachment c (BotAttachment b (subs @ [roomId]) lp) st
      | _ \<Rightarrow> send c (Error ''Not authenticated as bot'') st)"

definition handleBotUnsubscribe :: "nat \<Rightarrow> string \<Rightarrow> Server \<Rightarrow> Server" where
  "handleBotUnsubscribe c roomId st =
     (case deserializeAttachment st c of
        Some (BotAttachment b subs lp) \<Rightarrow>
          serializeAttachment c (BotAttachment b (filter (\<lambda>r. r \<noteq> roomId) subs) lp) st
      | _ \<Rightarrow> st)"

text \<open>
  The \<open>INSERT\<close> of the two bot handlers: \<open>VALUES ('${messageId}', '${roomId}', 'bot',
  '${content.replace(/'/g, "''")}', 'text', ${now}, 'bot', '${externalId || ""}')\<close>, the
  last value only in \<open>handleBotSendMessage\<close> (\<open>Some\<close> of what is spliced there).
\<close>

definition insert_from_bot ::
  "Sqlite \<Rightarrow> string \<Rightarrow> string \<Rightarrow> string \<Rightarrow> int \<Rightarrow> string option \<Rightarrow> Server \<Rightarrow> unit Outcome" where
  "insert_from_bot E messageId roomId text now ext st =
     (if plain messageId \<and> plain roomId \<and> escaped_safely text
         \<and> (case ext of None \<Rightarrow> True | Some e \<Rightarrow> plain e)
      then insert_message
             \<lparr>m_id = messageId, m_room_id = roomId, m_user_id = ''bot'', content = text,
              content_type = ''text'', m_created_at = now, source = Some ''bot'',
              external_id = ext, acknowledged = Some 0\<rparr> st
      else exec (insert_bot_message E messageId roomId text now ext) st)"

text \<open>
  \<open>messageId\<close> is the value of \<open>generateId()\<close> (the clock and a random suffix), an input
  of the model. The inserted row takes \<open>externalId || ""\<close>; the event carries
  \<open>externalId\<close> as it came.
\<close>

definition handleBotSendMessage ::
  "Sqlite \<Rightarrow> int \<Rightarrow> string \<Rightarrow> nat \<Rightarrow> string \<Rightarrow> string \<Rightarrow> string option \<Rightarrow> Server \<Rightarrow> unit Outcome" where
  "handleBotSendMessage E now messageId c roomId text externalId st =
     (case deserializeAttachment st c of
        Some (BotAttachment b subs lp) \<Rightarrow>
          (case insert_from_bot E messageId roomId text now
                  (Some (case externalId of None \<Rightarrow> [] | Some e \<Rightarrow> e)) st of
             Throws s \<Rightarrow> Throws s
           | Returns _ st1 \<Rightarrow>
               (case broadcastToRoom E roomId
                       (NewMessage
                          \<lparr>m_id = messageId, m_room_id = roomId, m_user_id = ''bot'', content = text,
                           content_type = ''text'', m_created_at = now, source = Some ''bot'',
                           external_id = externalId, acknowledged = None\<rparr>
                          (Some (bot_user now))) st1 of
                  Throws s \<Rightarrow> Throws s
                | Returns _ st2 \<Rightarrow> Returns () (send c (MessageSent messageId externalId) st2)))
      | _ \<Rightarrow> Returns () (send c (Error ''Not authenticated as bot'') st))"

definition handlePluginMessage ::
  "Sqlite \<Rightarrow> int \<Rightarrow> string \<Rightarrow> nat \<Rightarrow> PluginMessage \<Rightarrow> Server \<Rightarrow> unit Outcome" where
  "handlePluginMessage E now messageId c messageData st =
     (case deserializeAttachment st c of
        Some (BotAttachment b subs lp) \<Rightarrow>
          let room_id = p_room_id messageData;
              st0 = (if room_id \<in> set subs then st
                     else serializeAttachment c (BotAttachment b (subs @ [room_id]) lp) st)
          in (case insert_from_bot E messageId room_id (p_content messageData) now None st0 of
                Throws s \<Rightarrow> Throws s
              | Returns _ st1 \<Rightarrow>
                  (case broadcastToRoom E room_id
                          (NewMessage
                             \<lparr>m_id = messageId, m_room_id = room_id, m_user_id = ''bot'',
                              content = p_content messageData, content_type = ''text'',
                              m_created_at = now, source = Some ''bot'', external_id = None,
                              acknowledged = None\<rparr>
                             (Some (bot_user now))) st1 of
                     Throws s \<Rightarrow> Throws s
                   | Returns _ st2 \<Rightarrow> Returns () (send c (MessageSent messageId None) st2)))
      | _ \<Rightarrow> Returns () (send c (Error ''Not authenticated as bot'') st))"

subsection \<open>The dispatcher\<close>

text \<open>The \<open>switch\<close> of \<open>onMessage\<close>; a type that no \<open>case\<close> names falls through it.\<close>

definition dispatch :: "Sqlite \<Rightarrow> int \<Rightarrow> string \<Rightarrow> nat \<Rightarrow> Frame \<Rightarrow> Server \<Rightarrow> unit Outcome" where
  "dispatch E now newId c parsed st =
     (case parsed of
        AuthApiKey k \<Rightarrow> Returns () (handleBotAuth now c k st)
      | AuthSession sid \<Rightarrow> handleUserAuth E now c sid st
      | Ping ts \<Rightarrow> Returns () (handlePing now c ts st)
      | Heartbeat \<Rightarrow> Returns () (handleHeartbeat now c st)
      | JoinRoom r \<Rightarrow> handleJoinRoom E now c r st
      | LeaveRoom r \<Rightarrow> Returns () (handleLeaveRoom c r st)
      | SyncRequest l \<Rightarrow> handleSyncRequest E now c l st
      | MessageAck mid status \<Rightarrow> handleMessageAck E c mid status st
      | Subscribe r \<Rightarrow> Returns () (handleBotSubscribe c r st)
      | Unsubscribe r \<Rightarrow> Returns () (handleBotUnsubscribe c r st)
      | SendMessage r t e \<Rightarrow> handleBotSendMessage E now newId c r t e st
      | PluginEnvelope (Some pm) \<Rightarrow> handlePluginMessage E now newId c pm st
      | _ \<Rightarrow> Returns () st)"

text \<open>
  \<open>onMessage\<close>: \<open>now\<close> is the clock and \<open>newId\<close> the identifier \<open>generateId()\<close> would
  return during this call. Whatever is thrown inside the \<open>try\<close>, by \<open>JSON.parse\<close> or by
  a statement of a handler, is answered by the \<open>catch\<close> with one \<open>error\<close> frame; what the
  handler did before it threw stays done.
\<close>

definition onMessage :: "Sqlite \<Rightarrow> int \<Rightarrow> string \<Rightarrow> nat \<Rightarrow> Inbound \<Rightarrow> Server \<Rightarrow> Server" where
  "onMessage E now newId c message st =
     (case message of
        Unparsable \<Rightarrow> send c (Error ''Invalid message format'') st
      | Parsed parsed \<Rightarrow>
          (case dispatch E now newId c parsed st of
             Returns _ s \<Rightarrow> s
           | Throws s \<Rightarrow> send c (Error ''Invalid message format'') s))"

definition onClose :: "nat \<Rightarrow> Server \<Rightarrow> Server" where
  "onClose c st =
     (case deserializeAttachment st c of
        Some (UserAttachment uid _ _) \<Rightarrow> broadcastUserStatus uid False st
      | _ \<Rightarrow> st)"

subsection \<open>Sending a message over HTTP\<close>

text \<open>
  \<open>validateSession\<close>: \<open>bearer\<close> is what follows \<open>Bearer \<close> in the \<open>Authorization\<close> header,
  \<open>None\<close> without such a header. The statement is that of \<open>handleUserAuth\<close>; an empty
  \<open>user_id\<close> is falsy for the caller.
\<close>

definition validateSession :: "Sqlite \<Rightarrow> int \<Rightarrow> string option \<Rightarrow> Server \<Rightarrow> string option Outcome" where
  "validateSession E now bearer st =
     (case bearer of
        None \<Rightarrow> Returns None st
      | Some sessionId \<Rightarrow>
          (case select_sessions E sessionId now st of
             Throws s \<Rightarrow> Throws s
           | Returns found s \<Rightarrow>
               Returns (case found of [] \<Rightarrow> None | session # _ \<Rightarrow> Some (s_user_id session)) s))"

datatype Response = Unauthorized | MessageAccepted string

text \<open>
  \<open>handleSendMessage\<close> of \<open>src/server/index.ts\<close>, where the \<open>INSERT\<close> binds its values
  to \<open>?\<close> parameters, so that no value is read as SQL.
\<close>

definition handleSendMessage ::
  "Sqlite \<Rightarrow> int \<Rightarrow> string \<Rightarrow> string option \<Rightarrow> string \<Rightarrow> string \<Rightarrow> string option \<Rightarrow> Server
     \<Rightarrow> Response Outcome" where
  "handleSendMessage E now messageId bearer room_id text content_type_opt st =
     (case validateSession E now bearer st of
        Throws s \<Rightarrow> Throws s
      | Returns validated st0 \<Rightarrow>
          (case validated of
             None \<Rightarrow> Returns Unauthorized st0
           | Some uid \<Rightarrow>
               if uid = [] then Returns Unauthorized st0
               else
                 let ctype = (case content_type_opt of None \<Rightarrow> ''text'' | Some t \<Rightarrow> t)
                 in (case insert_message
                            \<lparr>m_id = messageId, m_room_id = room_id, m_user_id = uid, content = text,
                             content_type = ctype, m_created_at = now, source = Some ''user'',
                             external_id = None, acknowledged = Some 0\<rparr> st0 of
                       Throws s \<Rightarrow> Throws s
                     | Returns _ st1 \<Rightarrow>
                         (case select_user E uid st1 of
                            Throws s \<Rightarrow> Throws s
                          | Returns found st2 \<Rightarrow>
                              (case broadcastToRoom E room_id
                                      (NewMessage
                                         \<lparr>m_id = messageId, m_room_id = room_id, m_user_id = uid,
                                          content = text, content_type = ctype, m_created_at = now,
                                          source = Some ''user'', external_id = None,
                                          acknowledged = None\<rparr>
                                         (case found of [] \<Rightarrow> None | u # _ \<Rightarrow> Some u)) st2 of
                                 Throws s \<Rightarrow> Throws s
                               | Returns _ st3 \<Rightarrow> Returns (MessageAccepted messageId) st3)))))"

text \<open>
  \<open>handleSendMessage\<close> of the compiled server \<open>src/unnamed/part_000\<close>, which differs in
  the \<open>INSERT\<close> alone: \<open>VALUES ('${messageId}', '${room_id}', '${userId}',
  '${content.replace(/'/g, "''")}', '${content_type}', ${now}, 'user')\<close>.
\<close>

definition insert_from_user ::
  "Sqlite \<Rightarrow> string \<Rightarrow> string \<Rightarrow> string \<Rightarrow> string \<Rightarrow> string \<Rightarrow> int \<Rightarrow> Server \<Rightarrow> unit Outcome" where
  "insert_from_user E messageId room_id uid text ctype now st =
     (if plain messageId \<and> plain room_id \<and> plain uid \<and> escaped_safely text \<and> plain ctype
      then insert_message
             \<lparr>m_id = messageId, m_room_id = room_id, m_user_id = uid, content = text,
              content_type = ctype, m_created_at = now, source = Some ''user'',
              external_id = None, acknowledged = Some 0\<rparr> st
      else exec (insert_user_message E messageId room_id uid text ctype now) st)"

definition handleSendMessage_compiled ::
  "Sqlite \<Rightarrow> int \<Rightarrow> string \<Rightarrow> string option \<Rightarrow> string \<Rightarrow> string \<Rightarrow> string option \<Rightarrow> Server
     \<Rightarrow> Response Outcome" where
  "handleSendMessage_compiled E now messageId bearer room_id text content_type_opt st =
     (case validateSession E now bearer st of
        Throws s \<Rightarrow> Throws s
      | Returns validated st0 \<Rightarrow>
          (case validated of
             None \<Rightarrow> Returns Unauthorized st0
           | Some uid \<Rightarrow>
               if uid = [] then Returns Unauthorized st0
               else
                 let ctype = (case content_type_opt of None \<Rightarrow> ''text'' | Some t \<Rightarrow> t)
                 in (case insert_from_user E messageId room_id uid text ctype now st0 of
                       Throws s \<Rightarrow> Throws s
                     | Returns _ st1 \<Rightarrow>
                         (case select_user E uid st1 of
                            Throws s \<Rightarrow> Throws s
                          | Returns found st2 \<Rightarrow>
                              (case broadcastToRoom E room_id
                                      (NewMessage
                                         \<lparr>m_id = messageId, m_room_id = room_id, m_user_id = uid,
                                          content = text, content_type = ctype, m_created_at = now,
                                          source = Some ''user'', external_id = None,
                                          acknowledged = None\<rparr>
                                         (case found of [] \<Rightarrow> None | u # _ \<Rightarrow> Some u)) st2 of
                                 Throws s \<Rightarrow> Throws s
                               | Returns _ st3 \<Rightarrow> Returns (MessageAccepted messageId) st3)))))"

section \<open>The client reconnection controller (hooks/useWebSocket.ts)\<close>

text \<open>
  The hook \<open>useWebSocket\<close> exists in the repository in two versions: the current one,
  which keeps the attempt counter and two flags in refs and has the acknowledgment
  queue, and an earlier one (kept as TypeScript and as its compiled JavaScript), which
  keeps the attempt counter in React state only. Both are modelled, each as a step
  function over the events that reach the hook.

  React is modelled as far as the hook uses it. A ref is a field. A state variable is a
  field that the setter overwrites while the component is mounted (an update after
  unmount is dropped), together with the value it had at the last commit. All updates
  of one event handler are batched; after the handler the component renders and the
  effects whose dependencies changed run: cleanup first, then the body. A callback made
  by \<open>useCallback\<close> sees the props and state of the render that made it, so a socket's
  listeners carry the values their \<open>connect\<close> captured. The commit is taken atomic with
  the event that caused it.

  The browser is the rest of the state: each socket made so far with its \<open>readyState\<close>,
  the frames handed to \<open>send\<close>, the pending timeouts and running intervals, every
  delay ever passed to \<open>setTimeout\<close>, and the caller's callbacks invoked.
\<close>

datatype ConnectionState = connecting | connected | disconnected | reconnecting

datatype ReadyState = CONNECTING | OPEN | CLOSING | CLOSED

datatype Callback = OnConnect | OnDisconnect | OnMessage Frame

subsection \<open>The current version\<close>

definition RECONNECT_BASE_DELAY :: int where
  "RECONNECT_BASE_DELAY = 3000"

definition MAX_RECONNECT_DELAY :: int where
  "MAX_RECONNECT_DELAY = 30000"

record Hook =
  sessionId :: "string option"
  mounted :: bool
  connectionState :: ConnectionState
  rendered_connectionState :: ConnectionState
  reconnectAttempt :: nat
  socketRef :: "nat option"
  heartbeatIntervalRef :: "nat option"
  reconnectTimeoutRef :: "nat option"
  joinedRoomsRef :: "string list"
  reconnectAttemptRef :: nat
  isConnectingRef :: bool
  isClosedRef :: bool
  pendingAcksRef :: "(string \<times> AckStatus) list"
  websockets :: "ReadyState list"
  wire :: "(nat \<times> Frame) list"
  timeouts :: "(nat \<times> int) list"
  intervals :: "(nat \<times> nat) list"
  next_handle :: nat
  scheduled :: "int list"
  calls :: "Callback list"

text \<open>Events: the effect of mounting and its cleanup, the socket's events, the timers,
  the page becoming visible, and the calls of the functions the hook returns.\<close>

datatype Event =
    Mount
  | Unmount
  | SocketOpen nat
  | SocketMessage nat Inbound
  | SocketClose nat
  | TimeoutFires nat
  | IntervalFires nat
  | Visible
  | CallJoinRoom string
  | CallLeaveRoom string
  | CallSendMessage Frame
  | CallSyncMessages "string option"
  | CallAckMessage string AckStatus

definition useWebSocket :: "string option \<Rightarrow> Hook" where
  "useWebSocket sid = \<lparr>sessionId = sid, mounted = False,
     connectionState = disconnected, rendered_connectionState = disconnected,
     reconnectAttempt = 0, socketRef = None, heartbeatIntervalRef = None,
     reconnectTimeoutRef = None, joinedRoomsRef = [], reconnectAttemptRef = 0,
     isConnectingRef = False, isClosedRef = False, pendingAcksRef = [],
     websockets = [], wire = [], timeouts = [], intervals = [], next_handle = 0,
     scheduled = [], calls = []\<rparr>"

definition setConnectionState :: "ConnectionState \<Rightarrow> Hook \<Rightarrow> Hook" where
  "setConnectionState v h = (if mounted h then h\<lparr>connectionState := v\<rparr> else h)"

definition setReconnectAttempt :: "nat \<Rightarrow> Hook \<Rightarrow> Hook" where
  "setReconnectAttempt n h = (if mounted h then h\<lparr>reconnectAttempt := n\<rparr> else h)"

definition socket_send :: "nat \<Rightarrow> Frame \<Rightarrow> Hook \<Rightarrow> Hook" where
  "socket_send s f h = h\<lparr>wire := wire h @ [(s, f)]\<rparr>"

text \<open>\<open>socket.close()\<close>: a socket that is connecting or open starts closing; its close
  event comes later.\<close>

definition socket_close :: "nat \<Rightarrow> Hook \<Rightarrow> Hook" where
  "socket_close s h =
     (if websockets h ! s = CONNECTING \<or> websockets h ! s = OPEN
      then h\<lparr>websockets := (websockets h)[s := CLOSING]\<rparr> else h)"

text \<open>\<open>socketRef.current?.readyState === WebSocket.OPEN\<close>.\<close>

definition is_open :: "Hook \<Rightarrow> bool" where
  "is_open h = (case socketRef h of None \<Rightarrow> False | Some s \<Rightarrow> websockets h ! s = OPEN)"

definition invoke :: "Callback \<Rightarrow> Hook \<Rightarrow> Hook" where
  "invoke cb h = h\<lparr>calls := calls h @ [cb]\<rparr>"

definition clearTimeout :: "nat \<Rightarrow> Hook \<Rightarrow> Hook" where
  "clearTimeout t h = h\<lparr>timeouts := filter (\<lambda>(t', d). t' \<noteq> t) (timeouts h)\<rparr>"

definition clearHeartbeat :: "Hook \<Rightarrow> Hook" where
  "clearHeartbeat h =
     (case heartbeatIntervalRef h of
        None \<Rightarrow> h
      | Some i \<Rightarrow> h\<lparr>intervals := filter (\<lambda>(i', s). i' \<noteq> i) (intervals h),
                     heartbeatIntervalRef := None\<rparr>)"

definition startHeartbeat :: "nat \<Rightarrow> Hook \<Rightarrow> Hook" where
  "startHeartbeat s h =
     (let h1 = clearHeartbeat h
      in h1\<lparr>intervals := intervals h1 @ [(next_handle h1, s)],
             heartbeatIntervalRef := Some (next_handle h1),
             next_handle := Suc (next_handle h1)\<rparr>)"

text \<open>\<open>!sessionId\<close> holds for \<open>null\<close> and for the empty string.\<close>

definition no_session :: "Hook \<Rightarrow> bool" where
  "no_session h = (case sessionId h of None \<Rightarrow> True | Some sid \<Rightarrow> sid = [])"

definition connect :: "Hook \<Rightarrow> Hook" where
  "connect h =
     (if no_session h then h
      else if isConnectingRef h then h
      else if isClosedRef h then h
      else
        let h1 = (case socketRef h of
                    None \<Rightarrow> h
                  | Some s \<Rightarrow> if websockets h ! s \<noteq> CLOSED
                              then (socket_close s h)\<lparr>socketRef := None\<rparr> else h);
            h2 = (case reconnectTimeoutRef h1 of
                    None \<Rightarrow> h1
                  | Some t \<Rightarrow> (clearTimeout t h1)\<lparr>reconnectTimeoutRef := None\<rparr>);
            h3 = setConnectionState (if reconnectAttemptRef h2 > 0 then reconnecting else connecting)
                   (h2\<lparr>isConnectingRef := True\<rparr>)
        in h3\<lparr>websockets := websockets h3 @ [CONNECTING],
               socketRef := Some (length (websockets h3))\<rparr>)"

text \<open>The three listeners that \<open>connect\<close> attaches to the socket it makes.\<close>

definition on_open :: "nat \<Rightarrow> Hook \<Rightarrow> Hook" where
  "on_open s h =
     (let h1 = setReconnectAttempt 0
                 ((setConnectionState connected (h\<lparr>isConnectingRef := False\<rparr>))
                    \<lparr>reconnectAttemptRef := 0\<rparr>);
          h2 = socket_send s (AuthSession (case sessionId h1 of None \<Rightarrow> [] | Some sid \<Rightarrow> sid)) h1;
          h3 = startHeartbeat s h2;
          h4 = fold (\<lambda>roomId. socket_send s (JoinRoom roomId)) (joinedRoomsRef h3) h3
      in invoke OnConnect h4)"

definition on_message :: "nat \<Rightarrow> Inbound \<Rightarrow> Hook \<Rightarrow> Hook" where
  "on_message s data h =
     (case data of
        Unparsable \<Rightarrow> h
      | Parsed message \<Rightarrow>
          (case message of
             Pong _ \<Rightarrow> h
           | AuthSuccess _ \<Rightarrow> h
           | AuthError _ \<Rightarrow> h
           | RoomJoined r \<Rightarrow>
               if r \<in> set (joinedRoomsRef h) then h
               else h\<lparr>joinedRoomsRef := joinedRoomsRef h @ [r]\<rparr>
           | RoomLeft r \<Rightarrow> h\<lparr>joinedRoomsRef := filter (\<lambda>x. x \<noteq> r) (joinedRoomsRef h)\<rparr>
           | _ \<Rightarrow> invoke (OnMessage message) h))"

definition on_close :: "nat \<Rightarrow> Hook \<Rightarrow> Hook" where
  "on_close s h =
     (let h1 = invoke OnDisconnect
                 (clearHeartbeat (setConnectionState disconnected (h\<lparr>isConnectingRef := False\<rparr>)))
      in if isClosedRef h1 then h1
         else
           let h2 = h1\<lparr>reconnectAttemptRef := reconnectAttemptRef h1 + 1\<rparr>;
               h3 = setReconnectAttempt (reconnectAttemptRef h2) h2;
               delay = min (RECONNECT_BASE_DELAY * 2 ^ (reconnectAttemptRef h3 - 1))
                           MAX_RECONNECT_DELAY
           in h3\<lparr>timeouts := timeouts h3 @ [(next_handle h3, delay)],
                  scheduled := scheduled h3 @ [delay],
                  reconnectTimeoutRef := Some (next_handle h3),
                  next_handle := Suc (next_handle h3)\<rparr>)"

text \<open>The callback of the reconnect timeout and of the heartbeat interval.\<close>

definition reconnect_timeout :: "Hook \<Rightarrow> Hook" where
  "reconnect_timeout h = connect (h\<lparr>reconnectTimeoutRef := None\<rparr>)"

definition heartbeat_tick :: "int \<Rightarrow> nat \<Rightarrow> Hook \<Rightarrow> Hook" where
  "heartbeat_tick now s h = (if websockets h ! s = OPEN then socket_send s (Ping now) h else h)"

text \<open>The connection effect and its cleanup.\<close>

definition connection_effect :: "Hook \<Rightarrow> Hook" where
  "connection_effect h =
     (let h1 = h\<lparr>isClosedRef := False\<rparr> in if no_session h1 then h1 else connect h1)"

definition connection_cleanup :: "Hook \<Rightarrow> Hook" where
  "connection_cleanup h =
     (let h1 = clearHeartbeat (h\<lparr>isClosedRef := True\<rparr>);
          h2 = (case reconnectTimeoutRef h1 of
                  None \<Rightarrow> h1
                | Some t \<Rightarrow> (clearTimeout t h1)\<lparr>reconnectTimeoutRef := None\<rparr>);
          h3 = (case socketRef h2 of
                  None \<Rightarrow> h2
                | Some s \<Rightarrow> (socket_close s h2)\<lparr>socketRef := None\<rparr>)
      in h3\<lparr>isConnectingRef := False\<rparr>)"

definition handleVisibilityChange :: "Hook \<Rightarrow> Hook" where
  "handleVisibilityChange h =
     (if (case socketRef h of
            None \<Rightarrow> True
          | Some s \<Rightarrow> websockets h ! s \<noteq> OPEN \<and> websockets h ! s \<noteq> CONNECTING)
         \<and> \<not> isConnectingRef h \<and> \<not> no_session h
      then connect h else h)"

text \<open>The functions the hook returns.\<close>

definition send_if_open :: "Frame \<Rightarrow> Hook \<Rightarrow> Hook" where
  "send_if_open f h =
     (case socketRef h of
        None \<Rightarrow> h
      | Some s \<Rightarrow> if websockets h ! s = OPEN then socket_send s f h else h)"

definition joinRoom :: "string \<Rightarrow> Hook \<Rightarrow> Hook" where
  "joinRoom roomId h = send_if_open (JoinRoom roomId) h"

definition leaveRoom :: "string \<Rightarrow> Hook \<Rightarrow> Hook" where
  "leaveRoom roomId h =
     send_if_open (LeaveRoom roomId)
       (h\<lparr>joinedRoomsRef := filter (\<lambda>x. x \<noteq> roomId) (joinedRoomsRef h)\<rparr>)"

definition sendMessage :: "Frame \<Rightarrow> Hook \<Rightarrow> Hook" where
  "sendMessage message h = send_if_open message h"

definition syncMessages :: "string option \<Rightarrow> Hook \<Rightarrow> Hook" where
  "syncMessages lastMessageId h = send_if_open (SyncRequest lastMessageId) h"

definition ackMessage :: "string \<Rightarrow> AckStatus \<Rightarrow> Hook \<Rightarrow> Hook" where
  "ackMessage messageId status h =
     (if is_open h then send_if_open (MessageAck messageId status) h
      else h\<lparr>pendingAcksRef := pendingAcksRef h @ [(messageId, status)]\<rparr>)"

text \<open>The effect on \<open>[connectionState, ackMessage]\<close> that sends the pending
  acknowledgments.\<close>

definition pending_acks_effect :: "Hook \<Rightarrow> Hook" where
  "pending_acks_effect h =
     (if connectionState h = connected \<and> pendingAcksRef h \<noteq> []
      then fold (\<lambda>(messageId, status). ackMessage messageId status) (pendingAcksRef h)
             (h\<lparr>pendingAcksRef := []\<rparr>)
      else h)"

text \<open>
  The render and commit after a handler: \<open>connect\<close> depends on \<open>sessionId\<close> only, which
  is fixed here, so the one effect that can run again is the one on
  \<open>connectionState\<close>.
\<close>

definition commit :: "Hook \<Rightarrow> Hook" where
  "commit h =
     (if mounted h \<and> connectionState h \<noteq> rendered_connectionState h
      then pending_acks_effect (h\<lparr>rendered_connectionState := connectionState h\<rparr>)
      else h)"

text \<open>
  What an event does before the commit. The browser delivers \<open>open\<close> to a connecting
  socket, \<open>message\<close> to an open one and \<open>close\<close> to one that is not closed yet; a
  timeout fires while it is pending and an interval while it runs; the visibility
  listener and the returned functions exist while the component is mounted.
\<close>

definition handle :: "int \<Rightarrow> Event \<Rightarrow> Hook \<Rightarrow> Hook" where
  "handle now e h =
     (case e of
        Mount \<Rightarrow> if mounted h then h
                 else pending_acks_effect (connection_effect (h\<lparr>mounted := True\<rparr>))
      | Unmount \<Rightarrow> if mounted h then (connection_cleanup h)\<lparr>mounted := False\<rparr> else h
      | SocketOpen s \<Rightarrow>
          if s < length (websockets h) \<and> websockets h ! s = CONNECTING
          then on_open s (h\<lparr>websockets := (websockets h)[s := OPEN]\<rparr>) else h
      | SocketMessage s data \<Rightarrow>
          if s < length (websockets h) \<and> websockets h ! s = OPEN then on_message s data h else h
      | SocketClose s \<Rightarrow>
          if s < length (websockets h) \<and> websockets h ! s \<noteq> CLOSED
          then on_close s (h\<lparr>websockets := (websockets h)[s := CLOSED]\<rparr>) else h
      | TimeoutFires t \<Rightarrow>
          if t \<in> fst ` set (timeouts h) then reconnect_timeout (clearTimeout t h) else h
      | IntervalFires i \<Rightarrow>
          (case map_of (intervals h) i of None \<Rightarrow> h | Some s \<Rightarrow> heartbeat_tick now s h)
      | Visible \<Rightarrow> if mounted h then handleVisibilityChange h else h
      | CallJoinRoom r \<Rightarrow> if mounted h then joinRoom r h else h
      | CallLeaveRoom r \<Rightarrow> if mounted h then leaveRoom r h else h
      | CallSendMessage f \<Rightarrow> if mounted h then sendMessage f h else h
      | CallSyncMessages l \<Rightarrow> if mounted h then syncMessages l h else h
      | CallAckMessage i status \<Rightarrow> if mounted h then ackMessage i status h else h)"

definition step :: "int \<Rightarrow> Event \<Rightarrow> Hook \<Rightarrow> Hook" where
  "step now e h = commit (handle now e h)"

fun run :: "int \<Rightarrow> Event list \<Rightarrow> Hook \<Rightarrow> Hook" where
  "run now [] h = h"
| "run now (e # es) h = run now es (step now e h)"

subsection \<open>The earlier version\<close>

text \<open>
  Here the attempt counter is React state, \<open>connect\<close> depends on it, and the connection
  effect depends on \<open>connect\<close>: a render in which the counter changed makes a new
  \<open>connect\<close> and runs the effect again, cleanup first. The listeners of a socket and
  the callback of a timeout read the counter that their \<open>connect\<close> captured, which is
  kept with the socket and with the timeout. There are no flags and no acknowledgment
  queue; the cleanup does not reset the refs.
\<close>

definition RECONNECT_BASE_DELAY1 :: int where
  "RECONNECT_BASE_DELAY1 = 1000"

record Hook1 =
  sessionId1 :: "string option"
  mounted1 :: bool
  connectionState1 :: ConnectionState
  reconnectAttempt1 :: nat
  rendered_reconnectAttempt1 :: nat
  socketRef1 :: "nat option"
  heartbeatIntervalRef1 :: "nat option"
  reconnectTimeoutRef1 :: "nat option"
  joinedRoomsRef1 :: "string list"
  websockets1 :: "(ReadyState \<times> nat) list"
  wire1 :: "(nat \<times> Frame) list"
  timeouts1 :: "(nat \<times> int \<times> nat) list"
  intervals1 :: "(nat \<times> nat) list"
  next_handle1 :: nat
  scheduled1 :: "int list"
  calls1 :: "Callback list"

definition useWebSocket1 :: "string option \<Rightarrow> Hook1" where
  "useWebSocket1 sid = \<lparr>sessionId1 = sid, mounted1 = False,
     connectionState1 = disconnected, reconnectAttempt1 = 0, rendered_reconnectAttempt1 = 0,
     socketRef1 = None, heartbeatIntervalRef1 = None, reconnectTimeoutRef1 = None,
     joinedRoomsRef1 = [], websockets1 = [], wire1 = [], timeouts1 = [], intervals1 = [],
     next_handle1 = 0, scheduled1 = [], calls1 = []\<rparr>"

definition setConnectionState1 :: "ConnectionState \<Rightarrow> Hook1 \<Rightarrow> Hook1" where
  "setConnectionState1 v h = (if mounted1 h then h\<lparr>connectionState1 := v\<rparr> else h)"

definition setReconnectAttempt1 :: "(nat \<Rightarrow> nat) \<Rightarrow> Hook1 \<Rightarrow> Hook1" where
  "setReconnectAttempt1 f h =
     (if mounted1 h then h\<lparr>reconnectAttempt1 := f (reconnectAttempt1 h)\<rparr> else h)"

definition socket_send1 :: "nat \<Rightarrow> Frame \<Rightarrow> Hook1 \<Rightarrow> Hook1" where
  "socket_send1 s f h = h\<lparr>wire1 := wire1 h @ [(s, f)]\<rparr>"

definition socket_close1 :: "nat \<Rightarrow> Hook1 \<Rightarrow> Hook1" where
  "socket_close1 s h =
     (if fst (websockets1 h ! s) = CONNECTING \<or> fst (websockets1 h ! s) = OPEN
      then h\<lparr>websockets1 := (websockets1 h)[s := (CLOSING, snd (websockets1 h ! s))]\<rparr> else h)"

definition invoke1 :: "Callback \<Rightarrow> Hook1 \<Rightarrow> Hook1" where
  "invoke1 cb h = h\<lparr>calls1 := calls1 h @ [cb]\<rparr>"

definition clearTimeout1 :: "nat \<Rightarrow> Hook1 \<Rightarrow> Hook1" where
  "clearTimeout1 t h = h\<lparr>timeouts1 := filter (\<lambda>(t', d). t' \<noteq> t) (timeouts1 h)\<rparr>"

definition clearHeartbeat1 :: "Hook1 \<Rightarrow> Hook1" where
  "clearHeartbeat1 h =
     (case heartbeatIntervalRef1 h of
        None \<Rightarrow> h
      | Some i \<Rightarrow> h\<lparr>intervals1 := filter (\<lambda>(i', s). i' \<noteq> i) (intervals1 h),
                     heartbeatIntervalRef1 := None\<rparr>)"

definition startHeartbeat1 :: "nat \<Rightarrow> Hook1 \<Rightarrow> Hook1" where
  "startHeartbeat1 s h =
     (let h1 = clearHeartbeat1 h
      in h1\<lparr>intervals1 := intervals1 h1 @ [(next_handle1 h1, s)],
             heartbeatIntervalRef1 := Some (next_handle1 h1),
             next_handle1 := Suc (next_handle1 h1)\<rparr>)"

definition no_session1 :: "Hook1 \<Rightarrow> bool" where
  "no_session1 h = (case sessionId1 h of None \<Rightarrow> True | Some sid \<Rightarrow> sid = [])"

text \<open>\<open>connect\<close> as made by the render in which the counter was \<open>attempt\<close>.\<close>

definition connect1 :: "nat \<Rightarrow> Hook1 \<Rightarrow> Hook1" where
  "connect1 attempt h =
     (if no_session1 h then h
      else
        let h1 = (case reconnectTimeoutRef1 h of
                    None \<Rightarrow> h
                  | Some t \<Rightarrow> (clearTimeout1 t h)\<lparr>reconnectTimeoutRef1 := None\<rparr>);
            h2 = setConnectionState1 (if attempt > 0 then reconnecting else connecting) h1
        in h2\<lparr>websockets1 := websockets1 h2 @ [(CONNECTING, attempt)],
               socketRef1 := Some (length (websockets1 h2))\<rparr>)"

definition on_open1 :: "nat \<Rightarrow> Hook1 \<Rightarrow> Hook1" where
  "on_open1 s h =
     (let h1 = setReconnectAttempt1 (\<lambda>prev. 0) (setConnectionState1 connected h);
          h2 = socket_send1 s (AuthSession (case sessionId1 h1 of None \<Rightarrow> [] | Some sid \<Rightarrow> sid)) h1;
          h3 = startHeartbeat1 s h2;
          h4 = fold (\<lambda>roomId. socket_send1 s (JoinRoom roomId)) (joinedRoomsRef1 h3) h3
      in invoke1 OnConnect h4)"

definition on_message1 :: "nat \<Rightarrow> Inbound \<Rightarrow> Hook1 \<Rightarrow> Hook1" where
  "on_message1 s data h =
     (case data of
        Unparsable \<Rightarrow> h
      | Parsed message \<Rightarrow>
          (case message of
             Pong _ \<Rightarrow> h
           | AuthSuccess _ \<Rightarrow> h
           | AuthError _ \<Rightarrow> h
           | RoomJoined r \<Rightarrow>
               if r \<in> set (joinedRoomsRef1 h) then h
               else h\<lparr>joinedRoomsRef1 := joinedRoomsRef1 h @ [r]\<rparr>
           | RoomLeft r \<Rightarrow> h\<lparr>joinedRoomsRef1 := filter (\<lambda>x. x \<noteq> r) (joinedRoomsRef1 h)\<rparr>
           | _ \<Rightarrow> invoke1 (OnMessage message) h))"

text \<open>The close listener of a socket whose \<open>connect\<close> captured the counter \<open>attempt\<close>.\<close>

definition on_close1 :: "nat \<Rightarrow> Hook1 \<Rightarrow> Hook1" where
  "on_close1 attempt h =
     (let h1 = invoke1 OnDisconnect (clearHeartbeat1 (setConnectionState1 disconnected h));
          delay = min (RECONNECT_BASE_DELAY1 * 2 ^ attempt) MAX_RECONNECT_DELAY;
          h2 = setReconnectAttempt1 (\<lambda>prev. prev + 1) h1
      in h2\<lparr>timeouts1 := timeouts1 h2 @ [(next_handle1 h2, delay, attempt)],
             scheduled1 := scheduled1 h2 @ [delay],
             reconnectTimeoutRef1 := Some (next_handle1 h2),
             next_handle1 := Suc (next_handle1 h2)\<rparr>)"

definition heartbeat_tick1 :: "int \<Rightarrow> nat \<Rightarrow> Hook1 \<Rightarrow> Hook1" where
  "heartbeat_tick1 now s h =
     (if fst (websockets1 h ! s) = OPEN then socket_send1 s (Ping now) h else h)"

definition connection_effect1 :: "Hook1 \<Rightarrow> Hook1" where
  "connection_effect1 h = (if no_session1 h then h else connect1 (rendered_reconnectAttempt1 h) h)"

definition connection_cleanup1 :: "Hook1 \<Rightarrow> Hook1" where
  "connection_cleanup1 h =
     (let h1 = clearHeartbeat1 h;
          h2 = (case reconnectTimeoutRef1 h1 of None \<Rightarrow> h1 | Some t \<Rightarrow> clearTimeout1 t h1)
      in (case socketRef1 h2 of None \<Rightarrow> h2 | Some s \<Rightarrow> socket_close1 s h2))"

definition handleVisibilityChange1 :: "Hook1 \<Rightarrow> Hook1" where
  "handleVisibilityChange1 h =
     (if (case socketRef1 h of None \<Rightarrow> True | Some s \<Rightarrow> fst (websockets1 h ! s) \<noteq> OPEN)
         \<and> \<not> no_session1 h
      then connect1 (rendered_reconnectAttempt1 h) h else h)"

definition send_if_open1 :: "Frame \<Rightarrow> Hook1 \<Rightarrow> Hook1" where
  "send_if_open1 f h =
     (case socketRef1 h of
        None \<Rightarrow> h
      | Some s \<Rightarrow> if fst (websockets1 h ! s) = OPEN then socket_send1 s f h else h)"

definition leaveRoom1 :: "string \<Rightarrow> Hook1 \<Rightarrow> Hook1" where
  "leaveRoom1 roomId h =
     send_if_open1 (LeaveRoom roomId)
       (h\<lparr>joinedRoomsRef1 := filter (\<lambda>x. x \<noteq> roomId) (joinedRoomsRef1 h)\<rparr>)"

text \<open>
  The render and commit after a handler: when the counter differs from the one last
  rendered, \<open>connect\<close> is new, and the connection effect is cleaned up and run again.
\<close>

definition commit1 :: "Hook1 \<Rightarrow> Hook1" where
  "commit1 h =
     (if mounted1 h \<and> reconnectAttempt1 h \<noteq> rendered_reconnectAttempt1 h
      then connection_effect1
             ((connection_cleanup1 h)\<lparr>rendered_reconnectAttempt1 := reconnectAttempt1 h\<rparr>)
      else h)"

definition handle1 :: "int \<Rightarrow> Event \<Rightarrow> Hook1 \<Rightarrow> Hook1" where
  "handle1 now e h =
     (case e of
        Mount \<Rightarrow> if mounted1 h then h else connection_effect1 (h\<lparr>mounted1 := True\<rparr>)
      | Unmount \<Rightarrow> if mounted1 h then (connection_cleanup1 h)\<lparr>mounted1 := False\<rparr> else h
      | SocketOpen s \<Rightarrow>
          if s < length (websockets1 h) \<and> fst (websockets1 h ! s) = CONNECTING
          then on_open1 s (h\<lparr>websockets1 := (websockets1 h)[s := (OPEN, snd (websockets1 h ! s))]\<rparr>)
          else h
      | SocketMessage s data \<Rightarrow>
          if s < length (websockets1 h) \<and> fst (websockets1 h ! s) = OPEN
          then on_message1 s data h else h
      | SocketClose s \<Rightarrow>
          if s < length (websockets1 h) \<and> fst (websockets1 h ! s) \<noteq> CLOSED
          then on_close1 (snd (websockets1 h ! s))
                 (h\<lparr>websockets1 := (websockets1 h)[s := (CLOSED, snd (websockets1 h ! s))]\<rparr>)
          else h
      | TimeoutFires t \<Rightarrow>
          (case map_of (timeouts1 h) t of
             None \<Rightarrow> h
           | Some (d, attempt) \<Rightarrow> connect1 attempt (clearTimeout1 t h))
      | IntervalFires i \<Rightarrow>
          (case map_of (intervals1 h) i of None \<Rightarrow> h | Some s \<Rightarrow> heartbeat_tick1 now s h)
      | Visible \<Rightarrow> if mounted1 h then handleVisibilityChange1 h else h
      | CallJoinRoom r \<Rightarrow> if mounted1 h then send_if_open1 (JoinRoom r) h else h
      | CallLeaveRoom r \<Rightarrow> if mounted1 h then leaveRoom1 r h else h
      | CallSendMessage f \<Rightarrow> if mounted1 h then send_if_open1 f h else h
      | CallSyncMessages l \<Rightarrow> if mounted1 h then send_if_open1 (SyncRequest l) h else h
      | CallAckMessage i status \<Rightarrow> h)"

definition step1 :: "int \<Rightarrow> Event \<Rightarrow> Hook1 \<Rightarrow> Hook1" where
  "step1 now e h = commit1 (handle1 now e h)"

fun run1 :: "int \<Rightarrow> Event list \<Rightarrow> Hook1 \<Rightarrow> Hook1" where
  "run1 now [] h = h"
| "run1 now (e # es) h = run1 now es (step1 now e h)"

section \<open>Auxiliary definitions and example states\<close>

definition state_of :: "'a Outcome \<Rightarrow> Server" where
  "state_of r = (case r of Returns _ s \<Rightarrow> s | Throws s \<Rightarrow> s)"

definition routed :: "string set \<Rightarrow> string \<Rightarrow> Frame \<Rightarrow> nat \<times> ConnectionAttachment option \<Rightarrow> (nat \<times> Frame) list" where
  "routed memberIds roomId message ca =
     (case ca of (c, a) \<Rightarrow>
       (case a of
          None \<Rightarrow> []
        | Some (UserAttachment uid _ _) \<Rightarrow> if uid \<in> memberIds then [(c, message)] else []
        | Some (BotAttachment _ _ _) \<Rightarrow>
            (case message of
               NewMessage m u \<Rightarrow>
                 if source m = Some ''user''
                 then [(c, PluginEnvelope (Some \<lparr>p_room_id = roomId, p_user_id = m_user_id m,
                        p_content = content m, p_timestamp = Some (m_created_at m)\<rparr>))]
                 else []
             | _ \<Rightarrow> [])))"

text \<open>The frames that socket \<open>c\<close> is sent between state \<open>st\<close> and the later state \<open>st'\<close>.\<close>

definition received :: "nat \<Rightarrow> Server \<Rightarrow> Server \<Rightarrow> Frame list" where
  "received c st st' = map snd (filter (\<lambda>(c', f). c' = c) (drop (length (sent st)) (sent st')))"

definition transcoded :: "string \<Rightarrow> Message \<Rightarrow> Frame" where
  "transcoded roomId m = PluginEnvelope (Some \<lparr>p_room_id = roomId, p_user_id = m_user_id m,
                        p_content = content m, p_timestamp = Some (m_created_at m)\<rparr>)"

text \<open>
  The users that the loop over \<open>userIds\<close> resolves when every id is plain, read off the
  \<open>users\<close> table.
\<close>

definition found_user :: "Server \<Rightarrow> string \<Rightarrow> User option" where
  "found_user st uid =
     (case filter (\<lambda>u. u_id u = uid) (users st) of [] \<Rightarrow> None | u # _ \<Rightarrow> Some (User.truncate u))"

fun resolved :: "int \<Rightarrow> Server \<Rightarrow> string list \<Rightarrow> User list" where
  "resolved now st [] = []"
| "resolved now st (uid # uids) =
     (if uid = ''bot'' then [bot_user now]
      else (case found_user st uid of None \<Rightarrow> [] | Some u \<Rightarrow> [u]))
     @ resolved now st uids"


definition ack :: "string \<Rightarrow> Message list \<Rightarrow> Message list" where
  "ack messageId ms = map (\<lambda>m. if m_id m = messageId then m\<lparr>acknowledged := Some 1\<rparr> else m) ms"

text \<open>
  The messages that a resync selects, in the words of the specification: those of a room
  the identity persistently belongs to, created strictly after the message that
  \<open>last_message_id\<close> names, if it names one.
\<close>

definition spec_resync_selects :: "Server \<Rightarrow> string \<Rightarrow> string option \<Rightarrow> Message \<Rightarrow> bool" where
  "spec_resync_selects st uid lastMessageId m \<longleftrightarrow>
     (\<exists>r \<in> set (room_members st). rm_user_id r = uid \<and> rm_room_id r = m_room_id m)
     \<and> (\<forall>l \<in> set_option lastMessageId. \<forall>m0 \<in> set (messages st).
            m_id m0 = l \<longrightarrow> m_created_at m0 < m_created_at m)"



subsection \<open>An example server\<close>

definition alice :: UserWithPassword where
  "alice = \<lparr>u_id = ''A'', username = ''alice'', nickname = None, role = user_role,
     avatar = None, u_created_at = 5, password = ''1f''\<rparr>"

definition bob :: UserWithPassword where
  "bob = \<lparr>u_id = ''B'', username = ''bob'', nickname = None, role = user_role,
     avatar = None, u_created_at = 6, password = ''2f''\<rparr>"

definition bot_row :: UserWithPassword where
  "bot_row = \<lparr>u_id = ''bot'', username = bot_username, nickname = None, role = user_role,
     avatar = Some bot_avatar, u_created_at = 1, password = []\<rparr>"

definition hi :: Message where
  "hi = \<lparr>m_id = ''m1'', m_room_id = ''r1'', m_user_id = ''A'', content = ''hi'',
     content_type = ''text'', m_created_at = 100, source = Some ''user'', external_id = None,
     acknowledged = Some 0\<rparr>"

definition ok_reply :: Message where
  "ok_reply = \<lparr>m_id = ''m2'', m_room_id = ''r1'', m_user_id = ''bot'', content = ''ok'',
     content_type = ''text'', m_created_at = 200, source = Some ''bot'',
     external_id = Some ''ext-1'', acknowledged = Some 1\<rparr>"

definition elsewhere :: Message where
  "elsewhere = \<lparr>m_id = ''m3'', m_room_id = ''r2'', m_user_id = ''B'', content = ''yo'',
     content_type = ''text'', m_created_at = 150, source = Some ''user'', external_id = None,
     acknowledged = Some 0\<rparr>"

text \<open>
  Two rooms: \<open>r1\<close> with the bot and \<open>A\<close>, \<open>r2\<close> with \<open>B\<close>. \<open>A\<close> holds the session \<open>s1\<close>, valid
  until time 1000; the session \<open>s0\<close> of \<open>B\<close> expired at time 50. Socket 0 has not
  authenticated, socket 1 is \<open>A\<close>, socket 2 is a bot, socket 3 is \<open>B\<close>.
\<close>

definition ex_server :: Server where
  "ex_server = \<lparr>users = [alice, bob, bot_row], rooms = [''r1'', ''r2''], messages = [],
     room_members = [\<lparr>rm_room_id = ''r1'', rm_user_id = ''bot'', joined_at = 10\<rparr>,
                     \<lparr>rm_room_id = ''r1'', rm_user_id = ''A'', joined_at = 10\<rparr>,
                     \<lparr>rm_room_id = ''r2'', rm_user_id = ''B'', joined_at = 10\<rparr>],
     sessions = [\<lparr>s_id = ''s1'', s_user_id = ''A'', s_created_at = 20, expires_at = 1000\<rparr>,
                 \<lparr>s_id = ''s0'', s_user_id = ''B'', s_created_at = 10, expires_at = 50\<rparr>],
     foreign_keys = True,
     BOT_API_KEY = None,
     sockets = [(0, None), (1, Some (UserAttachment ''A'' [] 30)),
                (2, Some (BotAttachment ''bot'' [''r9''] 30)),
                (3, Some (UserAttachment ''B'' [] 30))],
     interval_due = None,
     sent = [], closed = []\<rparr>"

definition ex_store :: Server where
  "ex_store = ex_server\<lparr>messages := [hi, ok_reply, elsewhere]\<rparr>"


subsection \<open>Identifiers that are not plain\<close>

text \<open>\<open>it's\<close> and \<open>'\<close>: spliced between quotes, they leave a literal open.\<close>

definition its :: string where
  "its = ''it'' @ [CHR 0x27] @ ''s''"

definition lone_quote :: string where
  "lone_quote = [CHR 0x27]"

text \<open>\<open>x' OR '1'='1\<close> and \<open>nope' OR '1'='1\<close>: spliced between quotes, they add a condition
  that holds of every row.\<close>

definition or_true :: "string \<Rightarrow> string" where
  "or_true x = x @ [CHR 0x27] @ '' OR '' @ [CHR 0x27] @ ''1'' @ [CHR 0x27] @ ''=''
                 @ [CHR 0x27] @ ''1''"

text \<open>\<open>' OR created_at = 200 --\<close>: it closes the literal, adds a condition and comments
  out the rest of the line.\<close>

definition or_created_at_200 :: string where
  "or_created_at_200 = [CHR 0x27] @ '' OR created_at = 200 --''"

text \<open>
  \<open>r1', 'bot', 'hi', 'text', 1, 'bot', '') --\<close> as the \<open>room_id\<close> of a bot's
  \<open>send_message\<close>, and \<open>r1','A','c','text',1,'user') --\<close> as the \<open>room_id\<close> of a message
  posted to the compiled server: each completes the \<open>VALUES\<close> list of its \<open>INSERT\<close> and
  comments out the rest of the line.
\<close>

definition bot_values :: string where
  "bot_values = ''r1'' @ [CHR 0x27] @ '', '' @ [CHR 0x27] @ ''bot'' @ [CHR 0x27] @ '', ''
       @ [CHR 0x27] @ ''hi'' @ [CHR 0x27] @ '', '' @ [CHR 0x27] @ ''text'' @ [CHR 0x27]
       @ '', 1, '' @ [CHR 0x27] @ ''bot'' @ [CHR 0x27] @ '', '' @ [CHR 0x27, CHR 0x27]
       @ '') --''"

definition user_values :: string where
  "user_values = ''r1'' @ [CHR 0x27] @ '','' @ [CHR 0x27] @ ''A'' @ [CHR 0x27] @ '',''
       @ [CHR 0x27] @ ''c'' @ [CHR 0x27] @ '','' @ [CHR 0x27] @ ''text'' @ [CHR 0x27]
       @ '',1,'' @ [CHR 0x27] @ ''user'' @ [CHR 0x27] @ '') --''"

text \<open>
  An engine that answers the statements made with these identifiers as SQLite does,
  each answer written as the relational reading of the text that results, and that is
  the engine \<open>E\<close> on every other statement.

  \<^item> \<open>WHERE id = 'x' OR '1'='1' AND expires_at > now\<close>: \<open>AND\<close> binds tighter than \<open>OR\<close>.
  \<^item> \<open>WHERE room_id = 'x' OR '1'='1' AND user_id = 'B'\<close>, likewise.
  \<^item> \<open>WHERE room_id = 'x' OR '1'='1' ORDER BY created_at DESC LIMIT 50\<close>.
  \<^item> \<open>WHERE id = '' OR created_at = 200 --'\<close>.
  \<^item> \<open>UPDATE messages SET acknowledged = 1 WHERE id = 'nope' OR '1'='1'\<close>.
  \<^item> \<open>VALUES ('n1', 'r1', 'bot', 'hi', 'text', 1, 'bot', '') --', 'bot', ...\<close>: a row
    of the values up to the comment.
  \<^item> \<open>VALUES ('n1', 'r1','A','c','text',1,'user') --', ...\<close>, likewise; \<open>external_id\<close>
    is not among the columns and stays \<open>NULL\<close>.
  \<^item> \<open>WHERE room_id = 'r1', 'bot', ...\<close> and \<open>WHERE room_id = 'r1','A', ...\<close>: a syntax
    error at the comma.
  \<^item> Any statement made with \<open>it's\<close> or \<open>'\<close>: a syntax error, or an unrecognized
    token.
\<close>

definition sqlite_on_examples :: "Sqlite \<Rightarrow> Sqlite" where
  "sqlite_on_examples E =
     \<lparr>sessions_by_id = (\<lambda>sid now db.
         if sid = or_true ''x''
         then (db, Some (filter (\<lambda>s. s_id s = ''x'' \<or> (''1'' = ''1'' \<and> expires_at s > now))
                                (sessions db)))
         else if sid = its \<or> sid = lone_quote then (db, None)
         else sessions_by_id E sid now db),
      membership_of = (\<lambda>r uid db.
         if r = or_true ''x'' \<and> uid = ''B''
         then (db, Some (filter (\<lambda>m. rm_room_id m = ''x'' \<or> (''1'' = ''1'' \<and> rm_user_id m = ''B''))
                                (room_members db)))
         else if r = its \<or> r = lone_quote then (db, None)
         else membership_of E r uid db),
      messages_of_room = (\<lambda>r db.
         if r = or_true ''x''
         then (db, Some (take 50 (order_by_created_at_desc
                  (filter (\<lambda>m. m_room_id m = ''x'' \<or> ''1'' = ''1'') (messages db)))))
         else if r = its \<or> r = lone_quote then (db, None)
         else messages_of_room E r db),
      user_by_id = (\<lambda>uid db.
         if uid = its \<or> uid = lone_quote then (db, None) else user_by_id E uid db),
      created_at_of = (\<lambda>l db.
         if l = or_created_at_200
         then (db, Some (map m_created_at
                  (filter (\<lambda>m. m_id m = [] \<or> m_created_at m = 200) (messages db))))
         else if l = its \<or> l = lone_quote then (db, None)
         else created_at_of E l db),
      messages_since = (\<lambda>uid bound db.
         if uid = its \<or> uid = lone_quote then (db, None) else messages_since E uid bound db),
      acknowledge = (\<lambda>i db.
         if i = or_true ''nope''
         then (db\<lparr>messages := map (\<lambda>m. if m_id m = ''nope'' \<or> ''1'' = ''1''
                                         then m\<lparr>acknowledged := Some 1\<rparr> else m)
                                   (messages db)\<rparr>, Some ())
         else if i = its \<or> i = lone_quote then (db, None)
         else acknowledge E i db),
      insert_bot_message = (\<lambda>i r t now e db.
         if i = ''n1'' \<and> r = bot_values \<and> ''n1'' \<notin> set (map m_id (messages db))
              \<and> ''r1'' \<in> set (rooms db) \<and> ''bot'' \<in> set (map u_id (users db))
         then (db\<lparr>messages := messages db @
                    [\<lparr>m_id = ''n1'', m_room_id = ''r1'', m_user_id = ''bot'', content = ''hi'',
                      content_type = ''text'', m_created_at = 1, source = Some ''bot'',
                      external_id = Some [], acknowledged = Some 0\<rparr>]\<rparr>, Some ())
         else if r = its \<or> r = lone_quote then (db, None)
         else insert_bot_message E i r t now e db),
      insert_user_message = (\<lambda>i r uid t ct now db.
         if i = ''n1'' \<and> r = user_values \<and> ''n1'' \<notin> set (map m_id (messages db))
              \<and> ''r1'' \<in> set (rooms db) \<and> ''A'' \<in> set (map u_id (users db))
         then (db\<lparr>messages := messages db @
                    [\<lparr>m_id = ''n1'', m_room_id = ''r1'', m_user_id = ''A'', content = ''c'',
                      content_type = ''text'', m_created_at = 1, source = Some ''user'',
                      external_id = None, acknowledged = Some 0\<rparr>]\<rparr>, Some ())
         else if r = its \<or> r = lone_quote then (db, None)
         else insert_user_message E i r uid t ct now db),
      members_of_room = (\<lambda>r db.
         if r = bot_values \<or> r = user_values \<or> r = its \<or> r = lone_quote then (db, None)
         else members_of_room E r db)\<rparr>"

definition acks_of :: "(nat \<times> Frame) list \<Rightarrow> (string \<times> AckStatus) list" where
  "acks_of w = concat (map (\<lambda>(s, f). case f of MessageAck i status \<Rightarrow> [(i, status)] | _ \<Rightarrow> []) w)"

definition requested :: "Hook \<Rightarrow> Event \<Rightarrow> (string \<times> AckStatus) list" where
  "requested h e =
     (case e of
        CallAckMessage i status \<Rightarrow> if mounted h then [(i, status)] else []
      | CallSendMessage f \<Rightarrow> if mounted h \<and> is_open h then acks_of [(0, f)] else []
      | _ \<Rightarrow> [])"

definition ledger :: "Hook \<Rightarrow> (string \<times> AckStatus) multiset" where
  "ledger h = mset (acks_of (wire h)) + mset (pendingAcksRef h)"

definition ex_hook :: Hook where
  "ex_hook = run 0 [Mount, CallAckMessage ''m1'' delivered, CallAckMessage ''m2'' read]
               (useWebSocket (Some ''s1''))"

definition ex_first :: Hook1 where
  "ex_first = run1 0 [Mount, SocketOpen 0] (useWebSocket1 (Some ''s1''))"

definition failures :: "nat \<Rightarrow> Event list" where
  "failures n = concat (map (\<lambda>k. [SocketClose k, TimeoutFires k]) [0..<n])"

definition backoff_delays :: "nat \<Rightarrow> int list" where
  "backoff_delays n = map (\<lambda>k. min (RECONNECT_BASE_DELAY * 2 ^ k) MAX_RECONNECT_DELAY) [0..<n]"

definition after_failures :: "string option \<Rightarrow> nat \<Rightarrow> Hook" where
  "after_failures sid n = (useWebSocket sid)\<lparr>mounted := True,
     connectionState := (if n = 0 then connecting else reconnecting),
     rendered_connectionState := (if n = 0 then connecting else reconnecting),
     reconnectAttempt := n, socketRef := Some n, reconnectAttemptRef := n,
     isConnectingRef := True, websockets := replicate n CLOSED @ [CONNECTING],
     next_handle := n, scheduled := backoff_delays n, calls := replicate n OnDisconnect\<rparr>"

definition tidy :: "Hook \<Rightarrow> bool" where
  "tidy h \<longleftrightarrow>
     (\<forall>s. socketRef h = Some s \<longrightarrow> s < length (websockets h))
     \<and> (\<forall>k < length (websockets h). socketRef h \<noteq> Some k \<longrightarrow>
            websockets h ! k \<noteq> CONNECTING \<and> websockets h ! k \<noteq> OPEN)
     \<and> (\<forall>x \<in> set (intervals h). heartbeatIntervalRef h = Some (fst x))"

definition torn_down :: "Hook \<Rightarrow> bool" where
  "torn_down h \<longleftrightarrow>
     \<not> mounted h \<and> isClosedRef h \<and> \<not> isConnectingRef h \<and> socketRef h = None
     \<and> heartbeatIntervalRef h = None \<and> reconnectTimeoutRef h = None \<and> intervals h = []
     \<and> (\<forall>r \<in> set (websockets h). r = CLOSING \<or> r = CLOSED)"

definition frozen :: "Hook \<Rightarrow> Hook \<Rightarrow> bool" where
  "frozen h h' \<longleftrightarrow>
     sessionId h' = sessionId h \<and> mounted h' = mounted h
     \<and> connectionState h' = connectionState h
     \<and> rendered_connectionState h' = rendered_connectionState h
     \<and> reconnectAttempt h' = reconnectAttempt h \<and> socketRef h' = socketRef h
     \<and> heartbeatIntervalRef h' = heartbeatIntervalRef h
     \<and> reconnectTimeoutRef h' = reconnectTimeoutRef h
     \<and> joinedRoomsRef h' = joinedRoomsRef h \<and> reconnectAttemptRef h' = reconnectAttemptRef h
     \<and> isConnectingRef h' = isConnectingRef h \<and> isClosedRef h' = isClosedRef h
     \<and> pendingAcksRef h' = pendingAcksRef h \<and> wire h' = wire h
     \<and> intervals h' = intervals h \<and> next_handle h' = next_handle h
     \<and> scheduled h' = scheduled h
     \<and> length (websockets h') = length (websockets h)
     \<and> set (timeouts h') \<subseteq> set (timeouts h)"

fun requests :: "int \<Rightarrow> Event list \<Rightarrow> Hook \<Rightarrow> (string \<times> AckStatus) list" where
  "requests now [] h = []"
| "requests now (e # es) h = requested h e @ requests now es (step now e h)"

section \<open>Properties of the server\<close>

lemmas example_defs = ex_store_def ex_server_def hi_def ok_reply_def elsewhere_def alice_def bob_def
  bot_row_def sqlite_on_examples_def or_true_def its_def lone_quote_def or_created_at_200_def
  bot_values_def user_values_def plain_def escaped_safely_def exec_def with_store_def
  Store.truncate_def User.truncate_def send_def close_def deserializeAttachment_def serializeAttachment_def

subsection \<open>Broadcast\<close>

lemma fold_send_routed:
  "fold (\<lambda>(c, a) s.
                 (case a of
                    None \<Rightarrow> s
                  | Some (UserAttachment uid _ _) \<Rightarrow>
                      if uid \<in> M then send c message s else s
                  | Some (BotAttachment _ _ _) \<Rightarrow>
                      (case message of
                         NewMessage m u \<Rightarrow>
                           if source m = Some ''user''
                           then send c (PluginEnvelope (Some
                                  \<lparr>p_room_id = roomId, p_user_id = m_user_id m,
                                   p_content = content m,
                                   p_timestamp = Some (m_created_at m)\<rparr>)) s
                           else s
                       | _ \<Rightarrow> s))) xs st
   = st\<lparr>sent := sent st @ concat (map (routed M roomId message) xs)\<rparr>"
proof (induction xs arbitrary: st)
  case Nil
  then show ?case by simp
next
  case (Cons x xs)
  show ?case
    by (cases x) (simp add: Cons.IH routed_def send_def split: option.splits ConnectionAttachment.splits Frame.splits)
qed

lemma broadcastToRoom_plain:
  "plain roomId \<Longrightarrow> broadcastToRoom E roomId message st =
     Returns () (st\<lparr>sent := sent st @ concat (map (routed (set (map rm_user_id (filter (\<lambda>r. rm_room_id r = roomId) (room_members st)))) roomId message) (sockets st))\<rparr>)"
  unfolding broadcastToRoom_def select_members_def Let_def by (simp add: fold_send_routed)

lemma routed_fst_all: "\<forall>x \<in> set (routed M R f (c, a)). fst x = c"
proof (cases a)
  case None
  then show ?thesis by (simp add: routed_def)
next
  case (Some att)
  then show ?thesis by (cases att; cases f) (simp_all add: routed_def)
qed

lemma routed_fst: "x \<in> set (routed M R f ca) \<Longrightarrow> fst x = fst ca"
  using routed_fst_all[of M R f "fst ca" "snd ca"] by simp

lemma routed_other: "fst ca \<noteq> c \<Longrightarrow> filter (\<lambda>(c', f). c' = c) (routed M R f ca) = []"
  using routed_fst[of _ M R f ca] by (auto simp: filter_empty_conv)

lemma routed_own: "filter (\<lambda>(c', f). c' = c) (routed M R f (c, a)) = routed M R f (c, a)"
  using routed_fst[of _ M R f "(c, a)"] by (auto simp: filter_id_conv)

lemma routed_absent:
  "c \<notin> fst ` set xs \<Longrightarrow> filter (\<lambda>(c', f). c' = c) (concat (map (routed M R f) xs)) = []"
  by (induction xs) (auto simp: routed_other)

lemma received_routed:
  assumes "distinct (map fst xs)" and "(c, a) \<in> set xs"
  shows "filter (\<lambda>(c', f). c' = c) (concat (map (routed M R f) xs)) = routed M R f (c, a)"
  using assms
proof (induction xs)
  case Nil
  then show ?case by simp
next
  case (Cons x xs)
  show ?case
  proof (cases "x = (c, a)")
    case True
    with Cons.prems have "c \<notin> fst ` set xs" by auto
    with True show ?thesis by (simp add: routed_own routed_absent)
  next
    case False
    with Cons.prems have in_xs: "(c, a) \<in> set xs" by auto
    with Cons.prems have "fst x \<noteq> c" by (auto simp: image_iff)
    with Cons in_xs show ?thesis by (simp add: routed_other)
  qed
qed

text \<open>
  Routing to a room whose id is plain. \<open>broadcastToRoom\<close> returns, and of the
  \<open>new_message\<close> event a live connection authenticated as a user receives the event
  verbatim, once, exactly when its identity is a persistent member of \<open>R\<close>; a live
  connection authenticated as a bot receives, whatever its \<open>subscribedRooms\<close> and whatever
  \<open>R\<close>, the transcoded envelope \<open>{type: "message", message: {room_id, user_id, content,
  timestamp}}\<close> exactly when the message's source is \<open>user\<close>, and nothing otherwise; a
  connection that has not authenticated receives nothing.
\<close>

theorem broadcast_plain_room:
  assumes "plain R" and "distinct (map fst (sockets st))" and "(c, a) \<in> set (sockets st)"
  shows "(\<exists>st'. broadcastToRoom E R (NewMessage m u) st = Returns () st')
       \<and> (\<forall>uid rs lp. a = Some (UserAttachment uid rs lp) \<longrightarrow>
            received c st (state_of (broadcastToRoom E R (NewMessage m u) st)) =
              (if \<exists>r \<in> set (room_members st). rm_room_id r = R \<and> rm_user_id r = uid
               then [NewMessage m u] else []))
       \<and> (\<forall>b rs lp. a = Some (BotAttachment b rs lp) \<longrightarrow>
            received c st (state_of (broadcastToRoom E R (NewMessage m u) st)) =
              (if source m = Some ''user'' then [transcoded R m] else []))
       \<and> (a = None \<longrightarrow> received c st (state_of (broadcastToRoom E R (NewMessage m u) st)) = [])"
proof -
  let ?M = "set (map rm_user_id (filter (\<lambda>r. rm_room_id r = R) (room_members st)))"
  have "received c st (state_of (broadcastToRoom E R (NewMessage m u) st)) = map snd (routed ?M R (NewMessage m u) (c, a))"
    unfolding received_def broadcastToRoom_plain[OF assms(1)] state_of_def
    using received_routed[OF assms(2,3)] by simp
  moreover have "\<And>uid. uid \<in> ?M \<longleftrightarrow> (\<exists>r \<in> set (room_members st). rm_room_id r = R \<and> rm_user_id r = uid)"
    by auto
  ultimately show ?thesis
    by (auto simp: routed_def transcoded_def broadcastToRoom_plain[OF assms(1)])
qed

text \<open>
  Claim C1 (broadcast asymmetry) says that a new message in room \<open>R\<close> reaches every live
  user connection whose identity is a member of \<open>R\<close> and, when a user wrote it, every live
  bot connection, whatever \<open>R\<close> is. \<open>broadcastToRoom\<close> splices the room id into its
  membership query, and so do the \<open>INSERT\<close> statements of the compiled server and of
  the bot handlers. On the example server:

  \<^item> posted to the compiled server by \<open>A\<close> with the room id
    \<open>r1','A','c','text',1,'user') --\<close>, a message is stored in room \<open>r1\<close> with source
    \<open>user\<close>; the membership query made with the same string is a syntax error, the
    handler throws and nothing is sent: neither the bot on socket 2 nor the member \<open>A\<close> on
    socket 1 receives the message;
  \<^item> sent by the bot on socket 2 with the room id \<open>r1', 'bot', 'hi', 'text', 1, 'bot',
    '') --\<close>, a message is stored in room \<open>r1\<close> likewise and reaches no member; the bot
    is sent the \<open>error\<close> frame of the \<open>catch\<close>;
  \<^item> routed for the room id \<open>it's\<close>, an event reaches nobody;
  \<^item> posted with the room id \<open>r1\<close>, the message reaches \<open>A\<close> verbatim and the bot
    transcoded.
\<close>

theorem broadcast_spliced_room:
  "handleSendMessage_compiled (sqlite_on_examples E) 500 ''n1'' (Some ''s1'') user_values ''c'' None ex_store
     = Throws (ex_store\<lparr>messages := [hi, ok_reply, elsewhere,
                 \<lparr>m_id = ''n1'', m_room_id = ''r1'', m_user_id = ''A'', content = ''c'',
                  content_type = ''text'', m_created_at = 1, source = Some ''user'',
                  external_id = None, acknowledged = Some 0\<rparr>]\<rparr>)
   \<and> onMessage (sqlite_on_examples E) 500 ''n1'' 2 (Parsed (SendMessage bot_values ''x'' None)) ex_store
       = ex_store\<lparr>messages := [hi, ok_reply, elsewhere,
                 \<lparr>m_id = ''n1'', m_room_id = ''r1'', m_user_id = ''bot'', content = ''hi'',
                  content_type = ''text'', m_created_at = 1, source = Some ''bot'',
                  external_id = Some [], acknowledged = Some 0\<rparr>],
              sent := [(2, Error ''Invalid message format'')]\<rparr>
   \<and> broadcastToRoom (sqlite_on_examples E) its (NewMessage hi (Some (User.truncate alice))) ex_store
       = Throws ex_store
   \<and> handleSendMessage_compiled (sqlite_on_examples E) 500 ''n1'' (Some ''s1'') ''r1'' ''c'' None ex_store
       = Returns (MessageAccepted ''n1'')
           (ex_store\<lparr>messages := [hi, ok_reply, elsewhere,
                 \<lparr>m_id = ''n1'', m_room_id = ''r1'', m_user_id = ''A'', content = ''c'',
                  content_type = ''text'', m_created_at = 500, source = Some ''user'',
                  external_id = None, acknowledged = Some 0\<rparr>],
              sent := [(1, NewMessage \<lparr>m_id = ''n1'', m_room_id = ''r1'', m_user_id = ''A'',
                                      content = ''c'', content_type = ''text'', m_created_at = 500,
                                      source = Some ''user'', external_id = None,
                                      acknowledged = None\<rparr> (Some (User.truncate alice))),
                       (2, PluginEnvelope (Some \<lparr>p_room_id = ''r1'', p_user_id = ''A'',
                                                p_content = ''c'', p_timestamp = Some 500\<rparr>))]\<rparr>)"
proof -
  have 1: "handleSendMessage_compiled (sqlite_on_examples E) 500 ''n1'' (Some ''s1'') user_values ''c'' None ex_store
     = Throws (ex_store\<lparr>messages := [hi, ok_reply, elsewhere,
                 \<lparr>m_id = ''n1'', m_room_id = ''r1'', m_user_id = ''A'', content = ''c'',
                  content_type = ''text'', m_created_at = 1, source = Some ''user'',
                  external_id = None, acknowledged = Some 0\<rparr>]\<rparr>)"
    by (simp add: handleSendMessage_compiled_def validateSession_def select_sessions_def
        insert_from_user_def select_user_def broadcastToRoom_def select_members_def example_defs)
  have 2: "onMessage (sqlite_on_examples E) 500 ''n1'' 2 (Parsed (SendMessage bot_values ''x'' None)) ex_store
       = ex_store\<lparr>messages := [hi, ok_reply, elsewhere,
                 \<lparr>m_id = ''n1'', m_room_id = ''r1'', m_user_id = ''bot'', content = ''hi'',
                  content_type = ''text'', m_created_at = 1, source = Some ''bot'',
                  external_id = Some [], acknowledged = Some 0\<rparr>],
              sent := [(2, Error ''Invalid message format'')]\<rparr>"
    by (simp add: onMessage_def dispatch_def handleBotSendMessage_def insert_from_bot_def
        broadcastToRoom_def select_members_def example_defs)
  have 3: "broadcastToRoom (sqlite_on_examples E) its (NewMessage hi (Some (User.truncate alice))) ex_store
       = Throws ex_store"
    by (simp add: broadcastToRoom_def select_members_def example_defs)
  have 4: "handleSendMessage_compiled (sqlite_on_examples E) 500 ''n1'' (Some ''s1'') ''r1'' ''c'' None ex_store
       = Returns (MessageAccepted ''n1'')
           (ex_store\<lparr>messages := [hi, ok_reply, elsewhere,
                 \<lparr>m_id = ''n1'', m_room_id = ''r1'', m_user_id = ''A'', content = ''c'',
                  content_type = ''text'', m_created_at = 500, source = Some ''user'',
                  external_id = None, acknowledged = Some 0\<rparr>],
              sent := [(1, NewMessage \<lparr>m_id = ''n1'', m_room_id = ''r1'', m_user_id = ''A'',
                                      content = ''c'', content_type = ''text'', m_created_at = 500,
                                      source = Some ''user'', external_id = None,
                                      acknowledged = None\<rparr> (Some (User.truncate alice))),
                       (2, PluginEnvelope (Some \<lparr>p_room_id = ''r1'', p_user_id = ''A'',
                                                p_content = ''c'', p_timestamp = Some 500\<rparr>))]\<rparr>)"
    by (simp add: handleSendMessage_compiled_def validateSession_def select_sessions_def
        insert_from_user_def insert_message_def select_user_def broadcastToRoom_def
        select_members_def Let_def example_defs del: set_filter)
  from 1 2 3 4 show ?thesis by (intro conjI)
qed

subsection \<open>Liveness\<close>


lemma deserialize_serialize:
  "map_of (sockets st) c = Some a \<Longrightarrow> deserializeAttachment (serializeAttachment c b st) c = Some b"
proof -
  have "\<And>xs. map_of xs c = Some a \<Longrightarrow>
          map_of (map (\<lambda>(c', a'). if c' = c then (c', Some b) else (c', a')) xs) c = Some (Some b)"
  proof -
    fix xs :: "(nat \<times> ConnectionAttachment option) list"
    show "map_of xs c = Some a \<Longrightarrow>
          map_of (map (\<lambda>(c', a'). if c' = c then (c', Some b) else (c', a')) xs) c = Some (Some b)"
      by (induction xs) (auto split: if_splits)
  qed
  then show "map_of (sockets st) c = Some a \<Longrightarrow> ?thesis"
    by (simp add: deserializeAttachment_def serializeAttachment_def)
qed

lemma map_of_sockets:
  "distinct (map fst (sockets st)) \<Longrightarrow> (c, a) \<in> set (sockets st) \<Longrightarrow> map_of (sockets st) c = Some a"
  by simp


















lemma handleUserAuth_plain:
  "plain token \<Longrightarrow>
   handleUserAuth E now c token st =
     Returns ()
       (case filter (\<lambda>s. s_id s = token \<and> expires_at s > now) (sessions st) of
          [] \<Rightarrow> send c (AuthError ''Invalid session'') st
        | session # _ \<Rightarrow>
            broadcastUserStatus (s_user_id session) True
              (send c (AuthSuccess (Some (s_user_id session)))
                 (serializeAttachment c (UserAttachment (s_user_id session) [] now) st)))"
  by (simp add: handleUserAuth_def select_sessions_def split: list.splits)








subsection \<open>Authentication\<close>

text \<open>
  An \<open>auth\<close> frame whose session token is plain and names no session, or only expired
  ones, is answered with \<open>auth_error\<close> and changes nothing else: no attachment is set and
  the connection is not closed. An \<open>auth\<close> frame whose API key differs from the
  configured one is answered with \<open>auth_error\<close> and the connection is closed.
\<close>

theorem auth_plain_token:
  "(plain token \<and> \<not> (\<exists>s \<in> set (sessions st). s_id s = token \<and> now < expires_at s) \<longrightarrow>
      onMessage E now newId c (Parsed (AuthSession token)) st
        = st\<lparr>sent := sent st @ [(c, AuthError ''Invalid session'')]\<rparr>)
   \<and> (apiKey \<noteq> validApiKey st \<longrightarrow>
      onMessage E now newId c (Parsed (AuthApiKey apiKey)) st
        = st\<lparr>sent := sent st @ [(c, AuthError ''Invalid API key'')], closed := closed st @ [c]\<rparr>)"
proof -
  have "\<not> (\<exists>s \<in> set (sessions st). s_id s = token \<and> now < expires_at s) \<Longrightarrow>
          filter (\<lambda>s. s_id s = token \<and> expires_at s > now) (sessions st) = []"
    by (auto simp: filter_empty_conv)
  then show ?thesis
    by (auto simp: onMessage_def dispatch_def handleUserAuth_plain handleBotAuth_def send_def close_def)
qed

text \<open>
  Claim C5 (authentication error paths) says that every \<open>auth\<close> frame with an invalid or
  expired session token is answered with \<open>auth_error\<close> and leaves the connection
  unauthenticated. \<open>handleUserAuth\<close> splices the token into its query. On the example
  server no session has the id \<open>x' OR '1'='1\<close>, and the \<open>auth\<close> frame that carries it
  from the unauthenticated socket 0 authenticates the socket as \<open>A\<close>, the owner of the
  first unexpired session: \<open>auth_success\<close> is sent and \<open>A\<close> is announced online. The
  token \<open>it's\<close> makes the query a syntax error: the reply is the \<open>error\<close> frame of the
  \<open>catch\<close>, not \<open>auth_error\<close>.
\<close>

theorem auth_spliced_token:
  "or_true ''x'' \<notin> set (map s_id (sessions ex_store))
   \<and> onMessage (sqlite_on_examples E) 500 ''n'' 0 (Parsed (AuthSession (or_true ''x''))) ex_store
       = ex_store\<lparr>sockets := [(0, Some (UserAttachment ''A'' [] 500)),
                              (1, Some (UserAttachment ''A'' [] 30)),
                              (2, Some (BotAttachment ''bot'' [''r9''] 30)),
                              (3, Some (UserAttachment ''B'' [] 30))],
                  sent := [(0, AuthSuccess (Some ''A'')), (3, UserOnline ''A'')]\<rparr>
   \<and> its \<notin> set (map s_id (sessions ex_store))
   \<and> onMessage (sqlite_on_examples E) 500 ''n'' 0 (Parsed (AuthSession its)) ex_store
       = ex_store\<lparr>sent := [(0, Error ''Invalid message format'')]\<rparr>"
  by (simp add: onMessage_def dispatch_def handleUserAuth_def select_sessions_def
      broadcastUserStatus_def example_defs)

subsection \<open>Acknowledgment\<close>

lemma ack_twice: "ack i (ack i ms) = ack i ms"
  by (induction ms) (simp_all add: ack_def)

lemma ack_absent: "i \<notin> m_id ` set ms \<Longrightarrow> ack i ms = ms"
  by (induction ms) (auto simp: ack_def)

lemma ack_done: "\<forall>m \<in> set ms. m_id m = i \<longrightarrow> acknowledged m = Some 1 \<Longrightarrow> ack i ms = ms"
  by (induction ms) (auto simp: ack_def)

lemma onMessage_ack:
  "plain i \<Longrightarrow>
   onMessage E now newId c (Parsed (MessageAck i status)) st = st\<lparr>messages := ack i (messages st)\<rparr>"
  by (simp add: onMessage_def dispatch_def handleMessageAck_def update_acknowledged_def ack_def)


text \<open>
  A \<open>message_ack\<close> frame whose message id is plain sends no frame to anyone, closes
  nothing and changes no attachment; for an id that no stored message has, or whose
  messages are all acknowledged already, the whole state is unchanged; and acknowledging
  the same id again, by any connection and with any status, changes nothing more.
\<close>

theorem message_ack_plain:
  assumes "plain i"
  shows "sent (onMessage E now newId c (Parsed (MessageAck i status)) st) = sent st
   \<and> closed (onMessage E now newId c (Parsed (MessageAck i status)) st) = closed st
   \<and> sockets (onMessage E now newId c (Parsed (MessageAck i status)) st) = sockets st
   \<and> (i \<notin> m_id ` set (messages st) \<longrightarrow>
        onMessage E now newId c (Parsed (MessageAck i status)) st = st)
   \<and> ((\<forall>m \<in> set (messages st). m_id m = i \<longrightarrow> acknowledged m = Some 1) \<longrightarrow>
        onMessage E now newId c (Parsed (MessageAck i status)) st = st)
   \<and> onMessage E now' newId' c' (Parsed (MessageAck i status'))
        (onMessage E now newId c (Parsed (MessageAck i status)) st)
      = onMessage E now newId c (Parsed (MessageAck i status)) st"
  by (simp add: onMessage_ack[OF assms] ack_twice ack_absent ack_done)

text \<open>
  Claim C8 (\<open>message_ack\<close> is one-way and idempotent) says that no \<open>message_ack\<close> frame
  is answered, and that acknowledging an id that is not in the store changes nothing.
  \<open>handleMessageAck\<close> splices the id into its \<open>UPDATE\<close>. On the example store no message
  has the id \<open>nope' OR '1'='1\<close>, and the \<open>message_ack\<close> that carries it acknowledges
  every message. The id \<open>'\<close> makes the statement a syntax error, and the sender is
  answered with the \<open>error\<close> frame of the \<open>catch\<close>.
\<close>

theorem message_ack_spliced_id:
  "or_true ''nope'' \<notin> set (map m_id (messages ex_store))
   \<and> onMessage (sqlite_on_examples E) 500 ''n'' 0 (Parsed (MessageAck (or_true ''nope'') delivered)) ex_store
       = ex_store\<lparr>messages := [hi\<lparr>acknowledged := Some 1\<rparr>, ok_reply, elsewhere\<lparr>acknowledged := Some 1\<rparr>]\<rparr>
   \<and> onMessage (sqlite_on_examples E) 500 ''n'' 0 (Parsed (MessageAck lone_quote read)) ex_store
       = ex_store\<lparr>sent := [(0, Error ''Invalid message format'')]\<rparr>"
  by (simp add: onMessage_def dispatch_def handleMessageAck_def update_acknowledged_def example_defs)





subsection \<open>Resynchronisation\<close>

lemma new_Set_set: "set (new_Set xs) = set xs"
  by (induction xs rule: new_Set.induct) auto

lemma new_Set_distinct: "distinct (new_Set xs)"
  by (induction xs rule: new_Set.induct) (auto simp: new_Set_set)

lemma found_user_id: "found_user st uid = Some u \<Longrightarrow> u_id u = uid"
proof -
  assume a: "found_user st uid = Some u"
  then obtain r rs where f: "filter (\<lambda>u. u_id u = uid) (users st) = r # rs" and u: "u = User.truncate r"
    by (auto simp: found_user_def split: list.splits)
  from f have "r \<in> set (filter (\<lambda>u. u_id u = uid) (users st))" by simp
  then have "u_id r = uid" by simp
  with u show ?thesis by (simp add: User.truncate_def)
qed

lemma found_user_iff: "found_user st uid \<noteq> None \<longleftrightarrow> uid \<in> u_id ` set (users st)"
proof -
  have "filter (\<lambda>u. u_id u = uid) (users st) \<noteq> [] \<longleftrightarrow> uid \<in> u_id ` set (users st)"
    by (auto simp: filter_empty_conv)
  then show ?thesis by (cases "filter (\<lambda>u. u_id u = uid) (users st)") (simp_all add: found_user_def)
qed

lemma resolved_ids:
  "map u_id (resolved now st uids) = filter (\<lambda>a. a = ''bot'' \<or> a \<in> u_id ` set (users st)) uids"
proof (induction uids)
  case Nil
  then show ?case by simp
next
  case (Cons a uids)
  show ?case
  proof (cases "a = ''bot''")
    case True
    with Cons show ?thesis by (simp add: bot_user_def)
  next
    case False
    show ?thesis
    proof (cases "found_user st a")
      case None
      with found_user_iff[of st a] have "a \<notin> u_id ` set (users st)" by simp
      with False None Cons show ?thesis by simp
    next
      case (Some u)
      with found_user_iff[of st a] have "a \<in> u_id ` set (users st)" by simp
      with False Some Cons found_user_id[OF Some] show ?thesis by simp
    qed
  qed
qed

lemma resolved_each:
  "u \<in> set (resolved now st uids) \<Longrightarrow>
     (if u_id u = ''bot'' then u = bot_user now else found_user st (u_id u) = Some u)"
proof (induction uids)
  case Nil
  then show ?case by simp
next
  case (Cons a uids)
  show ?case
  proof (cases "u \<in> set (resolved now st uids)")
    case True
    with Cons.IH show ?thesis by simp
  next
    case False
    with Cons.prems have h: "u \<in> set (if a = ''bot'' then [bot_user now]
      else (case found_user st a of None \<Rightarrow> [] | Some u \<Rightarrow> [u]))" by simp
    show ?thesis
    proof (cases "a = ''bot''")
      case True
      with h show ?thesis by (simp add: bot_user_def)
    next
      case nb: False
      with h obtain "found_user st a = Some u" by (cases "found_user st a") simp_all
      with nb found_user_id[of st a u] show ?thesis by simp
    qed
  qed
qed

lemma resolved_authors:
  "distinct (map u_id (resolved now st (new_Set (map m_user_id msgs))))
   \<and> u_id ` set (resolved now st (new_Set (map m_user_id msgs)))
       = {a \<in> m_user_id ` set msgs. a = ''bot'' \<or> a \<in> u_id ` set (users st)}
   \<and> (\<forall>u \<in> set (resolved now st (new_Set (map m_user_id msgs))).
         if u_id u = ''bot'' then u = bot_user now else found_user st (u_id u) = Some u)"
proof (intro conjI ballI)
  show "distinct (map u_id (resolved now st (new_Set (map m_user_id msgs))))"
    by (simp add: resolved_ids new_Set_distinct)
next
  have "set (map u_id (resolved now st (new_Set (map m_user_id msgs))))
       = {a \<in> m_user_id ` set msgs. a = ''bot'' \<or> a \<in> u_id ` set (users st)}"
    unfolding resolved_ids by (auto simp: new_Set_set)
  then show "u_id ` set (resolved now st (new_Set (map m_user_id msgs)))
       = {a \<in> m_user_id ` set msgs. a = ''bot'' \<or> a \<in> u_id ` set (users st)}"
    by simp
next
  fix u assume "u \<in> set (resolved now st (new_Set (map m_user_id msgs)))"
  then show "if u_id u = ''bot'' then u = bot_user now else found_user st (u_id u) = Some u"
    by (rule resolved_each)
qed

lemma take_1_found:
  "take (Suc 0) (map User.truncate (filter (\<lambda>u. u_id u = uid) (users st)))
     = (case found_user st uid of None \<Rightarrow> [] | Some u \<Rightarrow> [u])"
  by (cases "filter (\<lambda>u. u_id u = uid) (users st)") (simp_all add: found_user_def)

lemma resolve_users_plain:
  "\<forall>uid \<in> set uids. plain uid \<Longrightarrow> resolve_users E now uids st = Returns (resolved now st uids) st"
proof (induction uids)
  case Nil
  then show ?case by simp
next
  case (Cons a uids)
  then have ih: "resolve_users E now uids st = Returns (resolved now st uids) st" by simp
  from Cons.prems have pa: "plain a" by simp
  show ?case
    by (simp add: ih select_user_def pa take_1_found)
qed

lemma take_sorted_wrt:
  assumes "sorted_wrt P ys" and "a \<in> set (take n ys)" and "b \<in> set ys" and "b \<notin> set (take n ys)"
  shows "P a b"
proof -
  have "set ys = set (take n ys) \<union> set (drop n ys)"
    by (metis append_take_drop_id set_append)
  with assms(3,4) have b: "b \<in> set (drop n ys)" by simp
  from assms(1) have "sorted_wrt P (take n ys @ drop n ys)" by simp
  then have "\<forall>x \<in> set (take n ys). \<forall>y \<in> set (drop n ys). P x y"
    unfolding sorted_wrt_append by simp
  with assms(2) b show ?thesis by simp
qed

lemma first_page:
  fixes key :: "'a \<Rightarrow> int"
  shows "sorted (map key (take n (sort_key key xs)))
       \<and> mset (take n (sort_key key xs)) \<subseteq># mset xs
       \<and> length (take n (sort_key key xs)) = min n (length xs)
       \<and> (\<forall>b \<in> set xs. b \<notin> set (take n (sort_key key xs)) \<longrightarrow>
            (\<forall>a \<in> set (take n (sort_key key xs)). key a \<le> key b))"
proof (intro conjI ballI impI)
  have "sorted (map key (sort_key key xs))" by (rule sorted_sort_key)
  then have "sorted (take n (map key (sort_key key xs)))" by (rule sorted_wrt_take)
  then show "sorted (map key (take n (sort_key key xs)))" by (simp add: take_map)
next
  have "mset (take n (sort_key key xs)) \<subseteq># mset (take n (sort_key key xs)) + mset (drop n (sort_key key xs))"
    by simp
  also have "\<dots> = mset (sort_key key xs)"
    by (simp only: mset_append[symmetric] append_take_drop_id)
  finally show "mset (take n (sort_key key xs)) \<subseteq># mset xs" by simp
next
  show "length (take n (sort_key key xs)) = min n (length xs)" by (simp add: min.commute)
next
  fix a b assume b: "b \<in> set xs" "b \<notin> set (take n (sort_key key xs))"
    and a: "a \<in> set (take n (sort_key key xs))"
  have "sorted_wrt (\<lambda>x y. key x \<le> key y) (sort_key key xs)"
    using sorted_sort_key[of key xs] by (simp add: sorted_map)
  from take_sorted_wrt[OF this a _ b(2)] b(1) show "key a \<le> key b" by simp
qed

lemma sync_bound_plain:
  "\<forall>l \<in> set_option lastMessageId. plain l \<Longrightarrow>
   sync_bound E lastMessageId st =
     Returns (case lastMessageId of
                None \<Rightarrow> None
              | Some lid \<Rightarrow>
                  if lid = [] then None
                  else (case filter (\<lambda>m. m_id m = lid) (messages st) of
                          [] \<Rightarrow> None
                        | lastMessage # _ \<Rightarrow> Some (m_created_at lastMessage))) st"
  by (cases lastMessageId)
     (simp_all add: sync_bound_def select_created_at_def split: list.splits)

lemma bound_spec:
  assumes pk: "distinct (map m_id (messages st))" and ne: "[] \<notin> m_id ` set (messages st)"
  shows "(case (case lastMessageId of
                None \<Rightarrow> None
              | Some lid \<Rightarrow>
                  if lid = [] then None
                  else (case filter (\<lambda>m. m_id m = lid) (messages st) of
                          [] \<Rightarrow> None
                        | lastMessage # _ \<Rightarrow> Some (m_created_at lastMessage))) of
            None \<Rightarrow> True | Some t \<Rightarrow> t < x)
     \<longleftrightarrow> (\<forall>l \<in> set_option lastMessageId. \<forall>m0 \<in> set (messages st). m_id m0 = l \<longrightarrow> m_created_at m0 < x)"
proof (cases lastMessageId)
  case None
  then show ?thesis by simp
next
  case (Some l)
  show ?thesis
  proof (cases "l = []")
    case True
    with ne have "\<forall>m0 \<in> set (messages st). m_id m0 \<noteq> l" by (metis imageI)
    with True Some show ?thesis by simp
  next
    case nonempty: False
    show ?thesis
    proof (cases "filter (\<lambda>m. m_id m = l) (messages st)")
      case Nil
      then have "\<forall>m0 \<in> set (messages st). m_id m0 \<noteq> l" by (simp add: filter_empty_conv)
      with Nil nonempty Some show ?thesis by simp
    next
      case (Cons m1 rest)
      then have "m1 \<in> set (filter (\<lambda>m. m_id m = l) (messages st))" by simp
      then have m1: "m1 \<in> set (messages st)" "m_id m1 = l" by simp_all
      from pk have "inj_on m_id (set (messages st))" by (simp add: distinct_map)
      with m1 have uniq: "\<And>m0. m0 \<in> set (messages st) \<Longrightarrow> m_id m0 = l \<Longrightarrow> m0 = m1"
        by (auto dest: inj_onD)
      have "(\<forall>m0 \<in> set (messages st). m_id m0 = l \<longrightarrow> m_created_at m0 < x) \<longleftrightarrow> m_created_at m1 < x"
        using m1 uniq by blast
      with Cons nonempty Some show ?thesis by simp
    qed
  qed
qed

lemma member_rooms:
  "x \<in> set (map rm_room_id (filter (\<lambda>r. rm_user_id r = uid) rs))
     \<longleftrightarrow> (\<exists>r \<in> set rs. rm_user_id r = uid \<and> rm_room_id r = x)"
  by (induction rs) auto

lemma select_since_spec:
  assumes pk: "distinct (map m_id (messages st))" and ne: "[] \<notin> m_id ` set (messages st)"
      and pu: "plain uid"
  shows "select_since E uid
           (case lastMessageId of
                None \<Rightarrow> None
              | Some lid \<Rightarrow>
                  if lid = [] then None
                  else (case filter (\<lambda>m. m_id m = lid) (messages st) of
                          [] \<Rightarrow> None
                        | lastMessage # _ \<Rightarrow> Some (m_created_at lastMessage))) st
     = Returns (take 100 (sort_key m_created_at
                  (filter (spec_resync_selects st uid lastMessageId) (messages st)))) st"
proof -
  have "\<And>m. (m_room_id m \<in> set (map rm_room_id (filter (\<lambda>r. rm_user_id r = uid) (room_members st)))
                 \<and> (case (case lastMessageId of
                None \<Rightarrow> None
              | Some lid \<Rightarrow>
                  if lid = [] then None
                  else (case filter (\<lambda>m. m_id m = lid) (messages st) of
                          [] \<Rightarrow> None
                        | lastMessage # _ \<Rightarrow> Some (m_created_at lastMessage))) of None \<Rightarrow> True | Some t \<Rightarrow> m_created_at m > t))
            \<longleftrightarrow> spec_resync_selects st uid lastMessageId m"
    unfolding spec_resync_selects_def bound_spec[OF pk ne] member_rooms by (rule refl)
  then show ?thesis by (simp add: select_since_def order_by_created_at_asc_def pu)
qed

text \<open>
  A \<open>sync_request\<close> with a plain \<open>last_message_id\<close>, or none, from a connection
  authenticated as a user, on a store whose identifiers are plain and whose message ids
  are unique (the primary key) and not empty. It is answered by exactly one
  \<open>sync_response\<close>. Its messages are the messages of rooms the identity persistently
  belongs to, created strictly after the message that \<open>last_message_id\<close> names (all of
  them when the id is absent or names none), in ascending order of \<open>created_at\<close>, the
  first 100 of them in that order; its users are the distinct authors of these messages
  that resolve, the reserved id \<open>bot\<close> to the static record.
\<close>

theorem resync_plain:
  assumes att: "deserializeAttachment st c = Some (UserAttachment uid joined lp)"
      and pu: "plain uid"
      and pl: "\<forall>l \<in> set_option lastMessageId. plain l"
      and pa: "\<forall>m \<in> set (messages st). plain (m_user_id m)"
      and pk: "distinct (map m_id (messages st))"
      and ne: "[] \<notin> m_id ` set (messages st)"
  shows "\<exists>msgs us.
      handleSyncRequest E now c lastMessageId st
        = Returns () (st\<lparr>sent := sent st @ [(c, SyncResponse msgs us)]\<rparr>)
    \<and> msgs = take 100 (sort_key m_created_at
                 (filter (spec_resync_selects st uid lastMessageId) (messages st)))
    \<and> mset msgs \<subseteq># mset (filter (spec_resync_selects st uid lastMessageId) (messages st))
    \<and> sorted (map m_created_at msgs)
    \<and> length msgs = min 100 (length (filter (spec_resync_selects st uid lastMessageId) (messages st)))
    \<and> (\<forall>m \<in> set (messages st). spec_resync_selects st uid lastMessageId m \<and> m \<notin> set msgs \<longrightarrow>
          (\<forall>m' \<in> set msgs. m_created_at m' \<le> m_created_at m))
    \<and> us = resolved now st (new_Set (map m_user_id msgs))
    \<and> distinct (map u_id us)
    \<and> u_id ` set us = {a \<in> m_user_id ` set msgs. a = ''bot'' \<or> a \<in> u_id ` set (users st)}
    \<and> (\<forall>u \<in> set us. if u_id u = ''bot'' then u = bot_user now else found_user st (u_id u) = Some u)"
proof -
  let ?F = "filter (spec_resync_selects st uid lastMessageId) (messages st)"
  let ?msgs = "take 100 (sort_key m_created_at ?F)"
  let ?us = "resolved now st (new_Set (map m_user_id ?msgs))"
  note page = first_page[of m_created_at 100 ?F]
  have sub: "set ?msgs \<subseteq> set (messages st)"
    using set_take_subset[of 100 "sort_key m_created_at ?F"] by auto
  have "\<forall>uid \<in> set (new_Set (map m_user_id ?msgs)). plain uid"
    using sub pa by (auto simp: new_Set_set)
  then have ru: "resolve_users E now (new_Set (map m_user_id ?msgs)) st = Returns ?us st"
    by (rule resolve_users_plain)
  have 1: "handleSyncRequest E now c lastMessageId st
             = Returns () (st\<lparr>sent := sent st @ [(c, SyncResponse ?msgs ?us)]\<rparr>)"
    by (simp add: handleSyncRequest_def att sync_bound_plain[OF pl] select_since_spec[OF pk ne pu]
        ru send_def)
  have 2: "mset ?msgs \<subseteq># mset ?F" using page by (rule conjunct2[THEN conjunct1])
  have 3: "sorted (map m_created_at ?msgs)" using page by (rule conjunct1)
  have 4: "length ?msgs = min 100 (length ?F)"
    using page by (rule conjunct2[THEN conjunct2, THEN conjunct1])
  have rest: "\<forall>b \<in> set ?F. b \<notin> set ?msgs \<longrightarrow> (\<forall>a \<in> set ?msgs. m_created_at a \<le> m_created_at b)"
    using page by (rule conjunct2[THEN conjunct2, THEN conjunct2])
  have 5: "\<forall>m \<in> set (messages st). spec_resync_selects st uid lastMessageId m \<and> m \<notin> set ?msgs \<longrightarrow>
          (\<forall>m' \<in> set ?msgs. m_created_at m' \<le> m_created_at m)"
  proof (intro ballI impI)
    fix m m' assume "m \<in> set (messages st)" and h: "spec_resync_selects st uid lastMessageId m \<and> m \<notin> set ?msgs"
      and m': "m' \<in> set ?msgs"
    then have "m \<in> set ?F" by simp
    with rest h m' show "m_created_at m' \<le> m_created_at m" by blast
  qed
  note authors = resolved_authors[of now st ?msgs]
  have 6: "distinct (map u_id ?us)" using authors by (rule conjunct1)
  have 7: "u_id ` set ?us = {a \<in> m_user_id ` set ?msgs. a = ''bot'' \<or> a \<in> u_id ` set (users st)}"
    using authors by (rule conjunct2[THEN conjunct1])
  have 8: "\<forall>u \<in> set ?us. if u_id u = ''bot'' then u = bot_user now else found_user st (u_id u) = Some u"
    using authors by (rule conjunct2[THEN conjunct2])
  show ?thesis
    by (rule exI[of _ ?msgs], rule exI[of _ ?us]) (intro conjI 1 refl 2 3 4 5 6 7 8)
qed

lemma ex_rooms_of_A:
  "map rm_room_id (filter (\<lambda>r. rm_user_id r = ''A'') (room_members ex_store)) = [''r1'']"
  by (simp add: ex_store_def ex_server_def)

lemma ex_since:
  "select_since E ''A'' bound ex_store
     = Returns (take 100 (order_by_created_at_asc
                (filter (\<lambda>m. m_room_id m \<in> set [''r1'']
                             \<and> (case bound of None \<Rightarrow> True | Some t \<Rightarrow> m_created_at m > t))
                        (messages ex_store)))) ex_store"
  unfolding select_since_def ex_rooms_of_A by (simp add: plain_def)

text \<open>
  Claim C3 (resync) says that every \<open>sync_request\<close> from an authenticated user is
  answered by one \<open>sync_response\<close>, and that a \<open>last_message_id\<close> which does not resolve
  to a stored message means no filter and is not an error. \<open>handleSyncRequest\<close> splices
  the id into its lookup. On the example store, where \<open>A\<close> on socket 1 belongs to room
  \<open>r1\<close> with its two messages, none of the ids below names a stored message:

  \<^item> \<open>it's\<close> makes the lookup a syntax error, and the reply is the \<open>error\<close> frame of the
    \<open>catch\<close>, with no \<open>sync_response\<close>;
  \<^item> \<open>' OR created_at = 200 --\<close> resolves to the message created at 200 and filters by
    it: the \<open>sync_response\<close> is empty;
  \<^item> the plain id \<open>gone\<close> is answered with both messages.
\<close>

theorem resync_spliced_id:
  "deserializeAttachment ex_store 1 = Some (UserAttachment ''A'' [] 30)
   \<and> its \<notin> set (map m_id (messages ex_store))
   \<and> onMessage (sqlite_on_examples E) 500 ''n'' 1 (Parsed (SyncRequest (Some its))) ex_store
       = ex_store\<lparr>sent := [(1, Error ''Invalid message format'')]\<rparr>
   \<and> or_created_at_200 \<notin> set (map m_id (messages ex_store))
   \<and> onMessage (sqlite_on_examples E) 500 ''n'' 1 (Parsed (SyncRequest (Some or_created_at_200))) ex_store
       = ex_store\<lparr>sent := [(1, SyncResponse [] [])]\<rparr>
   \<and> onMessage (sqlite_on_examples E) 500 ''n'' 1 (Parsed (SyncRequest (Some ''gone''))) ex_store
       = ex_store\<lparr>sent := [(1, SyncResponse [hi, ok_reply] [User.truncate alice, bot_user 500])]\<rparr>"
proof -
  have att: "deserializeAttachment ex_store 1 = Some (UserAttachment ''A'' [] 30)"
    by (simp add: example_defs)
  have ids: "its \<notin> set (map m_id (messages ex_store))"
            "or_created_at_200 \<notin> set (map m_id (messages ex_store))"
    by (simp_all add: example_defs)
  have b1: "sync_bound (sqlite_on_examples E) (Some its) ex_store = Throws ex_store"
    by (simp add: sync_bound_def select_created_at_def example_defs)
  have b2: "sync_bound (sqlite_on_examples E) (Some or_created_at_200) ex_store
              = Returns (Some 200) ex_store"
    by (simp add: sync_bound_def select_created_at_def example_defs)
  have b3: "sync_bound (sqlite_on_examples E) (Some ''gone'') ex_store = Returns None ex_store"
    by (simp add: sync_bound_def select_created_at_def example_defs)
  have s2: "select_since (sqlite_on_examples E) ''A'' (Some 200) ex_store = Returns [] ex_store"
    unfolding ex_since by (simp add: order_by_created_at_asc_def example_defs)
  have s3: "select_since (sqlite_on_examples E) ''A'' None ex_store = Returns [hi, ok_reply] ex_store"
    unfolding ex_since by (simp add: order_by_created_at_asc_def example_defs)
  have r3: "resolve_users (sqlite_on_examples E) 500 [''A'', ''bot''] ex_store
              = Returns [User.truncate alice, bot_user 500] ex_store"
    by (simp add: select_user_def example_defs)
  have authors: "new_Set (map m_user_id [hi, ok_reply]) = [''A'', ''bot'']"
    by (simp add: hi_def ok_reply_def)
  have 1: "onMessage (sqlite_on_examples E) 500 ''n'' 1 (Parsed (SyncRequest (Some its))) ex_store
       = ex_store\<lparr>sent := [(1, Error ''Invalid message format'')]\<rparr>"
    by (simp add: onMessage_def dispatch_def handleSyncRequest_def att b1 del: One_nat_def) (simp add: example_defs)
  have 2: "onMessage (sqlite_on_examples E) 500 ''n'' 1 (Parsed (SyncRequest (Some or_created_at_200))) ex_store
       = ex_store\<lparr>sent := [(1, SyncResponse [] [])]\<rparr>"
    by (simp add: onMessage_def dispatch_def handleSyncRequest_def att b2 s2 del: One_nat_def) (simp add: example_defs)
  have 3: "onMessage (sqlite_on_examples E) 500 ''n'' 1 (Parsed (SyncRequest (Some ''gone''))) ex_store
       = ex_store\<lparr>sent := [(1, SyncResponse [hi, ok_reply] [User.truncate alice, bot_user 500])]\<rparr>"
    by (simp only: onMessage_def dispatch_def handleSyncRequest_def att b3 s3 authors r3
           Inbound.case Frame.case option.case ConnectionAttachment.case Outcome.case)
       (simp add: example_defs)
  from att ids 1 2 3 show ?thesis by (intro conjI)
qed

subsection \<open>Joining a room\<close>

lemma sorted_rev_neg:
  fixes key :: "'a \<Rightarrow> int"
  shows "sorted (map (\<lambda>x. - key x) ys) \<Longrightarrow> sorted (map key (rev ys))"
  by (simp add: sorted_map sorted_wrt_rev)

text \<open>
  A \<open>join_room\<close> frame with a plain room id from a connection authenticated as a user, on
  a store whose identifiers are plain. When the identity is not a persistent member of
  the room the reply is one \<open>error\<close> frame and nothing else changes, \<open>joinedRooms\<close>
  included; when it is, the room is added to \<open>joinedRooms\<close> (once), and \<open>room_joined\<close> is
  followed by \<open>room_messages\<close> with the 50 most recent messages of the room, oldest
  first, and the distinct authors of these messages that resolve, the reserved id \<open>bot\<close>
  to the static record whatever the \<open>users\<close> table holds.
\<close>

theorem join_room_plain:
  assumes att: "deserializeAttachment st c = Some (UserAttachment uid joined lp)"
      and pr: "plain R" and pu: "plain uid"
      and pa: "\<forall>m \<in> set (messages st). plain (m_user_id m)"
  shows "(\<not> (\<exists>r \<in> set (room_members st). rm_room_id r = R \<and> rm_user_id r = uid) \<longrightarrow>
            handleJoinRoom E now c R st
              = Returns () (st\<lparr>sent := sent st @ [(c, Error ''Not a member of this room'')]\<rparr>))
       \<and> ((\<exists>r \<in> set (room_members st). rm_room_id r = R \<and> rm_user_id r = uid) \<longrightarrow>
           (\<exists>st' msgs us.
              handleJoinRoom E now c R st = Returns () st'
            \<and> sent st' = sent st @ [(c, RoomJoined R), (c, RoomMessages R msgs us)]
            \<and> deserializeAttachment st' c
                = Some (UserAttachment uid (if R \<in> set joined then joined else joined @ [R]) lp)
            \<and> msgs = rev (take 50 (sort_key (\<lambda>m. - m_created_at m)
                                      (filter (\<lambda>m. m_room_id m = R) (messages st))))
            \<and> mset msgs \<subseteq># mset (filter (\<lambda>m. m_room_id m = R) (messages st))
            \<and> sorted (map m_created_at msgs)
            \<and> length msgs = min 50 (length (filter (\<lambda>m. m_room_id m = R) (messages st)))
            \<and> (\<forall>m \<in> set (messages st). m_room_id m = R \<and> m \<notin> set msgs \<longrightarrow>
                  (\<forall>m' \<in> set msgs. m_created_at m \<le> m_created_at m'))
            \<and> distinct (map u_id us)
            \<and> u_id ` set us = {a \<in> m_user_id ` set msgs. a = ''bot'' \<or> a \<in> u_id ` set (users st)}
            \<and> (\<forall>u \<in> set us. if u_id u = ''bot'' then u = bot_user now
                                else found_user st (u_id u) = Some u)))"
proof (intro conjI impI)
  assume "\<not> (\<exists>r \<in> set (room_members st). rm_room_id r = R \<and> rm_user_id r = uid)"
  then have "filter (\<lambda>m. rm_room_id m = R \<and> rm_user_id m = uid) (room_members st) = []"
    by (simp add: filter_empty_conv)
  with att show "handleJoinRoom E now c R st
      = Returns () (st\<lparr>sent := sent st @ [(c, Error ''Not a member of this room'')]\<rparr>)"
    by (simp add: handleJoinRoom_def select_membership_def pr pu send_def)
next
  assume "\<exists>r \<in> set (room_members st). rm_room_id r = R \<and> rm_user_id r = uid"
  then have member: "filter (\<lambda>m. rm_room_id m = R \<and> rm_user_id m = uid) (room_members st) \<noteq> []"
    by (simp add: filter_empty_conv)
  let ?F = "filter (\<lambda>m. m_room_id m = R) (messages st)"
  let ?page = "take 50 (sort_key (\<lambda>m. - m_created_at m) ?F)"
  let ?msgs = "rev ?page"
  let ?us = "resolved now st (new_Set (map m_user_id ?page))"
  let ?joined = "if R \<in> set joined then joined else joined @ [R]"
  let ?st1 = "if R \<in> set joined then st else serializeAttachment c (UserAttachment uid (joined @ [R]) lp) st"
  let ?st' = "send c (RoomMessages R ?msgs ?us) (send c (RoomJoined R) ?st1)"
  note page = first_page[of "\<lambda>m. - m_created_at m" 50 ?F]
  have sub: "set ?page \<subseteq> set (messages st)"
    using set_take_subset[of 50 "sort_key (\<lambda>m. - m_created_at m) ?F"] by auto
  have pl: "\<forall>uid \<in> set (new_Set (map m_user_id ?page)). plain uid"
    using sub pa by (auto simp: new_Set_set)
  have ru: "\<And>s. resolve_users E now (new_Set (map m_user_id ?page)) s
                 = Returns (resolved now s (new_Set (map m_user_id ?page))) s"
    using pl by (rule resolve_users_plain)
  have same_users: "\<And>s. users s = users st \<Longrightarrow> resolved now s = resolved now st"
  proof
    fix s :: Server and uids
    assume "users s = users st"
    then show "resolved now s uids = resolved now st uids"
      by (induction uids) (simp_all add: found_user_def)
  qed
  have 0: "handleJoinRoom E now c R st = Returns () ?st'"
  proof -
    let ?s2 = "send c (RoomJoined R) ?st1"
    have msgs2: "messages ?s2 = messages st" by (simp add: send_def serializeAttachment_def)
    have users2: "users ?s2 = users st" by (simp add: send_def serializeAttachment_def)
    have mem: "select_membership E R uid st
                 = Returns (filter (\<lambda>m. rm_room_id m = R \<and> rm_user_id m = uid) (room_members st)) st"
      by (simp add: select_membership_def pr pu)
    have h: "select_room_messages E R ?s2 = Returns ?page ?s2"
      unfolding select_room_messages_def msgs2 order_by_created_at_desc_def using pr by simp
    have r: "resolve_users E now (new_Set (map m_user_id ?page)) ?s2 = Returns ?us ?s2"
      unfolding ru same_users[OF users2] by (rule refl)
    show ?thesis
      by (simp only: handleJoinRoom_def att option.case ConnectionAttachment.case mem Outcome.case
          member if_False Let_def h r)
  qed
  have 1: "sent ?st' = sent st @ [(c, RoomJoined R), (c, RoomMessages R ?msgs ?us)]"
    by (simp add: send_def serializeAttachment_def)
  from att have mo: "map_of (sockets st) c = Some (Some (UserAttachment uid joined lp))"
    by (simp add: deserializeAttachment_def split: option.splits)
  have "deserializeAttachment ?st1 c = Some (UserAttachment uid ?joined lp)"
    using att deserialize_serialize[OF mo] by simp
  moreover have "deserializeAttachment ?st' c = deserializeAttachment ?st1 c"
    by (simp add: send_def deserializeAttachment_def)
  ultimately have 2: "deserializeAttachment ?st' c = Some (UserAttachment uid ?joined lp)"
    by simp
  have "mset ?page \<subseteq># mset ?F" using page by (rule conjunct2[THEN conjunct1])
  then have 3: "mset ?msgs \<subseteq># mset ?F" by simp
  have "sorted (map (\<lambda>m. - m_created_at m) ?page)" using page by (rule conjunct1)
  then have 4: "sorted (map m_created_at ?msgs)" by (rule sorted_rev_neg)
  have "length ?page = min 50 (length ?F)"
    using page by (rule conjunct2[THEN conjunct2, THEN conjunct1])
  then have 5: "length ?msgs = min 50 (length ?F)" by simp
  have rest: "\<forall>b \<in> set ?F. b \<notin> set ?page \<longrightarrow> (\<forall>a \<in> set ?page. - m_created_at a \<le> - m_created_at b)"
    using page by (rule conjunct2[THEN conjunct2, THEN conjunct2])
  have 6: "\<forall>m \<in> set (messages st). m_room_id m = R \<and> m \<notin> set ?msgs \<longrightarrow>
                  (\<forall>m' \<in> set ?msgs. m_created_at m \<le> m_created_at m')"
  proof (intro ballI impI)
    fix m m' assume "m \<in> set (messages st)" and h: "m_room_id m = R \<and> m \<notin> set ?msgs"
      and "m' \<in> set ?msgs"
    then have "m \<in> set ?F" and "m \<notin> set ?page" and "m' \<in> set ?page" by simp_all
    with rest have "- m_created_at m' \<le> - m_created_at m" by blast
    then show "m_created_at m \<le> m_created_at m'" by simp
  qed
  note authors = resolved_authors[of now st ?page]
  have 7: "distinct (map u_id ?us)" using authors by (rule conjunct1)
  have "u_id ` set ?us = {a \<in> m_user_id ` set ?page. a = ''bot'' \<or> a \<in> u_id ` set (users st)}"
    using authors by (rule conjunct2[THEN conjunct1])
  then have 8: "u_id ` set ?us = {a \<in> m_user_id ` set ?msgs. a = ''bot'' \<or> a \<in> u_id ` set (users st)}"
    by simp
  have 9: "\<forall>u \<in> set ?us. if u_id u = ''bot'' then u = bot_user now else found_user st (u_id u) = Some u"
    using authors by (rule conjunct2[THEN conjunct2])
  show "\<exists>st' msgs us.
              handleJoinRoom E now c R st = Returns () st'
            \<and> sent st' = sent st @ [(c, RoomJoined R), (c, RoomMessages R msgs us)]
            \<and> deserializeAttachment st' c
                = Some (UserAttachment uid (if R \<in> set joined then joined else joined @ [R]) lp)
            \<and> msgs = rev (take 50 (sort_key (\<lambda>m. - m_created_at m)
                                      (filter (\<lambda>m. m_room_id m = R) (messages st))))
            \<and> mset msgs \<subseteq># mset (filter (\<lambda>m. m_room_id m = R) (messages st))
            \<and> sorted (map m_created_at msgs)
            \<and> length msgs = min 50 (length (filter (\<lambda>m. m_room_id m = R) (messages st)))
            \<and> (\<forall>m \<in> set (messages st). m_room_id m = R \<and> m \<notin> set msgs \<longrightarrow>
                  (\<forall>m' \<in> set msgs. m_created_at m \<le> m_created_at m'))
            \<and> distinct (map u_id us)
            \<and> u_id ` set us = {a \<in> m_user_id ` set msgs. a = ''bot'' \<or> a \<in> u_id ` set (users st)}
            \<and> (\<forall>u \<in> set us. if u_id u = ''bot'' then u = bot_user now
                                else found_user st (u_id u) = Some u)"
    by (rule exI[of _ ?st'], rule exI[of _ ?msgs], rule exI[of _ ?us])
       (intro conjI 0 1 2 refl 3 4 5 6 7 8 9)
qed

text \<open>
  Claim C4 (\<open>join_room\<close>) says that a \<open>join_room\<close> frame naming a room of which the
  identity is not a persistent member is rejected with an \<open>error\<close> frame and leaves
  \<open>joinedRooms\<close> unchanged. \<open>handleJoinRoom\<close> splices the room id into its membership
  check and into its history query. On the example store \<open>B\<close>, on socket 3, belongs to
  room \<open>r2\<close> alone and no room has the id \<open>x' OR '1'='1\<close>; the \<open>join_room\<close> frame that
  carries it passes the check on the membership of \<open>B\<close> in \<open>r2\<close>, the string is added
  to \<open>joinedRooms\<close>, and \<open>room_messages\<close> returns the messages of every room, those of
  \<open>r1\<close> included. The same connection asking for \<open>r1\<close> by its plain id is rejected.
\<close>

theorem join_room_spliced:
  "deserializeAttachment ex_store 3 = Some (UserAttachment ''B'' [] 30)
   \<and> or_true ''x'' \<notin> set (map rm_room_id (room_members ex_store))
   \<and> onMessage (sqlite_on_examples E) 500 ''n'' 3 (Parsed (JoinRoom (or_true ''x''))) ex_store
       = ex_store\<lparr>sockets := [(0, None), (1, Some (UserAttachment ''A'' [] 30)),
                              (2, Some (BotAttachment ''bot'' [''r9''] 30)),
                              (3, Some (UserAttachment ''B'' [or_true ''x''] 30))],
                  sent := [(3, RoomJoined (or_true ''x'')),
                           (3, RoomMessages (or_true ''x'') [hi, elsewhere, ok_reply]
                                 [bot_user 500, User.truncate bob, User.truncate alice])]\<rparr>
   \<and> onMessage (sqlite_on_examples E) 500 ''n'' 3 (Parsed (JoinRoom ''r1'')) ex_store
       = ex_store\<lparr>sent := [(3, Error ''Not a member of this room'')]\<rparr>"
  by (simp add: onMessage_def dispatch_def handleJoinRoom_def select_membership_def
      select_room_messages_def select_user_def order_by_created_at_desc_def Let_def example_defs)

section \<open>Properties of the client controller\<close>

lemma fold_join:
  "fold (\<lambda>roomId. socket_send s (JoinRoom roomId)) rs h
     = h\<lparr>wire := wire h @ map (\<lambda>r. (s, JoinRoom r)) rs\<rparr>"
  by (induction rs arbitrary: h) (simp_all add: socket_send_def)

lemma ackMessage_open:
  "socketRef h = Some s \<Longrightarrow> websockets h ! s = OPEN \<Longrightarrow>
     ackMessage i status h = h\<lparr>wire := wire h @ [(s, MessageAck i status)]\<rparr>"
  by (simp add: ackMessage_def is_open_def send_if_open_def socket_send_def)

lemma fold_ack_open:
  "socketRef h = Some s \<Longrightarrow> websockets h ! s = OPEN \<Longrightarrow>
     fold (\<lambda>(messageId, status). ackMessage messageId status) xs h
       = h\<lparr>wire := wire h @ map (\<lambda>(i, status). (s, MessageAck i status)) xs\<rparr>"
proof (induction xs arbitrary: h)
  case Nil
  then show ?case by simp
next
  case (Cons x xs)
  obtain i status where x: "x = (i, status)" by (cases x)
  let ?h = "h\<lparr>wire := wire h @ [(s, MessageAck i status)]\<rparr>"
  have "fold (\<lambda>(messageId, status). ackMessage messageId status) xs ?h
       = ?h\<lparr>wire := wire ?h @ map (\<lambda>(i, status). (s, MessageAck i status)) xs\<rparr>"
    using Cons.prems by (intro Cons.IH) simp_all
  with Cons.prems x show ?case by (simp add: ackMessage_open)
qed

lemma pending_acks_effect_open:
  assumes "socketRef h = Some s" and "websockets h ! s = OPEN" and "connectionState h = connected"
  shows "pending_acks_effect h
     = h\<lparr>pendingAcksRef := [],
          wire := wire h @ map (\<lambda>(i, status). (s, MessageAck i status)) (pendingAcksRef h)\<rparr>"
proof (cases "pendingAcksRef h = []")
  case True
  then show ?thesis by (simp add: pending_acks_effect_def)
next
  case False
  have "fold (\<lambda>(messageId, status). ackMessage messageId status) (pendingAcksRef h)
          (h\<lparr>pendingAcksRef := []\<rparr>)
        = (h\<lparr>pendingAcksRef := []\<rparr>)\<lparr>wire := wire (h\<lparr>pendingAcksRef := []\<rparr>)
             @ map (\<lambda>(i, status). (s, MessageAck i status)) (pendingAcksRef h)\<rparr>"
    using assms by (intro fold_ack_open) simp_all
  with False assms(3) show ?thesis by (simp add: pending_acks_effect_def)
qed

lemma on_open_fields:
  assumes "mounted h"
  shows "socketRef (on_open s h) = socketRef h"
    and "websockets (on_open s h) = websockets h"
    and "connectionState (on_open s h) = connected"
    and "rendered_connectionState (on_open s h) = rendered_connectionState h"
    and "mounted (on_open s h)"
    and "pendingAcksRef (on_open s h) = pendingAcksRef h"
    and "wire (on_open s h) = wire h @ [(s, AuthSession (case sessionId h of None \<Rightarrow> [] | Some sid \<Rightarrow> sid))]
            @ map (\<lambda>r. (s, JoinRoom r)) (joinedRoomsRef h)"
  using assms
  by (simp_all add: on_open_def Let_def setReconnectAttempt_def setConnectionState_def
      socket_send_def startHeartbeat_def clearHeartbeat_def invoke_def fold_join
      split: option.splits)

lemma acks_of_append: "acks_of (xs @ ys) = acks_of xs @ acks_of ys"
  by (simp add: acks_of_def)

lemma acks_of_acks: "acks_of (map (\<lambda>(i, status). (s, MessageAck i status)) xs) = xs"
  by (induction xs) (auto simp: acks_of_def)

lemma acks_of_joins: "acks_of (map (\<lambda>r. (s, JoinRoom r)) rs) = []"
  by (induction rs) (auto simp: acks_of_def)

lemma is_open_updates:
  "is_open (h\<lparr>pendingAcksRef := p\<rparr>) = is_open h"
  "is_open (h\<lparr>joinedRoomsRef := j\<rparr>) = is_open h"
  by (simp_all add: is_open_def split: option.splits)

lemma fold_ack_closed:
  "\<not> is_open h \<Longrightarrow>
     fold (\<lambda>(messageId, status). ackMessage messageId status) xs h
       = h\<lparr>pendingAcksRef := pendingAcksRef h @ xs\<rparr>"
proof (induction xs arbitrary: h)
  case Nil
  then show ?case by simp
next
  case (Cons x xs)
  obtain i status where x: "x = (i, status)" by (cases x)
  let ?h = "h\<lparr>pendingAcksRef := pendingAcksRef h @ [(i, status)]\<rparr>"
  have "\<not> is_open ?h" using Cons.prems by (simp add: is_open_updates)
  then have "fold (\<lambda>(messageId, status). ackMessage messageId status) xs ?h
       = ?h\<lparr>pendingAcksRef := pendingAcksRef ?h @ xs\<rparr>"
    by (rule Cons.IH)
  moreover have "ackMessage i status h = ?h" using Cons.prems by (simp add: ackMessage_def)
  ultimately show ?case using x by simp
qed

lemma ledger_effect: "ledger (pending_acks_effect h) = ledger h"
proof (cases "connectionState h = connected \<and> pendingAcksRef h \<noteq> []")
  case False
  then show ?thesis by (auto simp: pending_acks_effect_def)
next
  case True
  show ?thesis
  proof (cases "is_open h")
    case False
    then have "\<not> is_open (h\<lparr>pendingAcksRef := []\<rparr>)" by (simp add: is_open_updates)
    from fold_ack_closed[OF this, of "pendingAcksRef h"] True
    have "pending_acks_effect h = h" by (simp add: pending_acks_effect_def)
    then show ?thesis by simp
  next
    case op: True
    then obtain s where s: "socketRef h = Some s" "websockets h ! s = OPEN"
      by (auto simp: is_open_def split: option.splits)
    from True have "connectionState h = connected" by simp
    from pending_acks_effect_open[OF s this] show ?thesis
      by (simp add: ledger_def acks_of_append acks_of_acks)
  qed
qed

lemma ledger_commit: "ledger (commit h) = ledger h"
proof -
  have "ledger (h\<lparr>rendered_connectionState := connectionState h\<rparr>) = ledger h"
    by (simp add: ledger_def)
  then show ?thesis by (simp add: commit_def ledger_effect)
qed

lemma ledger_connect: "ledger (connect h) = ledger h"
  by (simp add: ledger_def connect_def Let_def setConnectionState_def socket_close_def
      clearTimeout_def split: option.splits)

lemma ledger_on_open: "ledger (on_open s h) = ledger h"
  by (simp add: ledger_def on_open_def Let_def setReconnectAttempt_def setConnectionState_def
      socket_send_def startHeartbeat_def clearHeartbeat_def invoke_def fold_join
      acks_of_append acks_of_joins acks_of_def split: option.splits)

lemma ledger_on_message: "ledger (on_message s d h) = ledger h"
  by (simp add: ledger_def on_message_def invoke_def split: Inbound.splits Frame.splits)

lemma ledger_on_close: "ledger (on_close s h) = ledger h"
  by (simp add: ledger_def on_close_def Let_def setReconnectAttempt_def setConnectionState_def
      clearHeartbeat_def invoke_def split: option.splits)

lemma ledger_cleanup: "ledger (connection_cleanup h) = ledger h"
  by (simp add: ledger_def connection_cleanup_def Let_def clearHeartbeat_def clearTimeout_def
      socket_close_def split: option.splits)

lemma ledger_send_if_open:
  "ledger (send_if_open f h) = ledger h + (if is_open h then mset (acks_of [(0, f)]) else {#})"
  by (auto simp: ledger_def send_if_open_def socket_send_def is_open_def acks_of_append acks_of_def
      split: option.splits)

lemma ledger_field_updates:
  "ledger (h\<lparr>mounted := m\<rparr>) = ledger h"
  "ledger (h\<lparr>websockets := w\<rparr>) = ledger h"
  "ledger (h\<lparr>reconnectTimeoutRef := t\<rparr>) = ledger h"
  "ledger (h\<lparr>isClosedRef := b\<rparr>) = ledger h"
  "ledger (h\<lparr>joinedRoomsRef := j\<rparr>) = ledger h"
  by (simp_all add: ledger_def)

lemma ledger_handle: "ledger (handle now e h) = ledger h + mset (requested h e)"
proof (cases e)
  case Mount
  then show ?thesis
    by (simp add: handle_def requested_def ledger_effect connection_effect_def Let_def
        ledger_connect ledger_field_updates)
next
  case Unmount
  then show ?thesis by (simp add: handle_def requested_def ledger_cleanup ledger_field_updates)
next
  case (SocketOpen s)
  then show ?thesis by (simp add: handle_def requested_def ledger_on_open ledger_field_updates)
next
  case (SocketMessage s d)
  then show ?thesis by (simp add: handle_def requested_def ledger_on_message)
next
  case (SocketClose s)
  then show ?thesis by (simp add: handle_def requested_def ledger_on_close ledger_field_updates)
next
  case (TimeoutFires t)
  have "ledger (clearTimeout t h) = ledger h" by (simp add: ledger_def clearTimeout_def)
  with TimeoutFires show ?thesis
    by (simp add: handle_def requested_def reconnect_timeout_def ledger_connect ledger_field_updates)
next
  case (IntervalFires i)
  have "\<And>s. ledger (heartbeat_tick now s h) = ledger h"
    by (simp add: heartbeat_tick_def socket_send_def ledger_def acks_of_append acks_of_def)
  with IntervalFires show ?thesis by (simp add: handle_def requested_def split: option.splits)
next
  case Visible
  then show ?thesis by (simp add: handle_def requested_def handleVisibilityChange_def ledger_connect)
next
  case (CallJoinRoom r)
  then show ?thesis
    by (simp add: handle_def requested_def joinRoom_def ledger_send_if_open acks_of_def)
next
  case (CallLeaveRoom r)
  have "is_open (h\<lparr>joinedRoomsRef := filter (\<lambda>x. x \<noteq> r) (joinedRoomsRef h)\<rparr>) = is_open h"
    by (simp add: is_open_updates)
  with CallLeaveRoom show ?thesis
    by (simp add: handle_def requested_def leaveRoom_def ledger_send_if_open acks_of_def
        ledger_field_updates)
next
  case (CallSendMessage f)
  then show ?thesis
    by (simp add: handle_def requested_def sendMessage_def ledger_send_if_open)
next
  case (CallSyncMessages l)
  then show ?thesis
    by (simp add: handle_def requested_def syncMessages_def ledger_send_if_open acks_of_def)
next
  case (CallAckMessage i status)
  have "ledger (ackMessage i status h) = ledger h + {#(i, status)#}"
    by (simp add: ackMessage_def ledger_send_if_open acks_of_def) (simp add: ledger_def)
  with CallAckMessage show ?thesis by (simp add: handle_def requested_def)
qed

lemma ledger_step: "ledger (step now e h) = ledger h + mset (requested h e)"
  by (simp add: step_def ledger_commit ledger_handle)

text \<open>
  Over every trace, the acknowledgments on the wire together with those queued are
  exactly those requested along the trace.
\<close>

lemma ledger_run: "ledger (run now es h) = ledger h + mset (requests now es h)"
  by (induction es arbitrary: h) (simp_all add: ledger_step)

text \<open>
  Claim C9 (pending acknowledgments). Between two events of a mounted hook: an
  acknowledgment requested while the socket of \<open>socketRef\<close> is not open is appended to
  the queue and nothing is sent; when that socket opens and the state becomes
  \<open>connected\<close>, the frames sent are the \<open>auth\<close> frame, the \<open>join_room\<close> replays and then
  one \<open>message_ack\<close> per queued entry in the order of the queue, and the queue is
  empty afterwards. Over every event the acknowledgments on the wire together with
  those queued are those there before plus the one requested by the event, as
  multisets: none is lost and none is sent twice.
\<close>

theorem pending_acknowledgments:
  assumes "mounted h" and "rendered_connectionState h = connectionState h"
  shows "(\<not> is_open h \<longrightarrow>
            step now (CallAckMessage i status) h
              = h\<lparr>pendingAcksRef := pendingAcksRef h @ [(i, status)]\<rparr>)
       \<and> (connectionState h \<noteq> connected \<and> socketRef h = Some s
            \<and> s < length (websockets h) \<and> websockets h ! s = CONNECTING \<longrightarrow>
            connectionState (step now (SocketOpen s) h) = connected
            \<and> pendingAcksRef (step now (SocketOpen s) h) = []
            \<and> wire (step now (SocketOpen s) h)
                = wire h @ [(s, AuthSession (case sessionId h of None \<Rightarrow> [] | Some sid \<Rightarrow> sid))]
                    @ map (\<lambda>r. (s, JoinRoom r)) (joinedRoomsRef h)
                    @ map (\<lambda>(i, status). (s, MessageAck i status)) (pendingAcksRef h))
       \<and> ledger (step now e h) = ledger h + mset (requested h e)"
proof (intro conjI impI)
  show "ledger (step now e h) = ledger h + mset (requested h e)" by (rule ledger_step)
next
  assume "\<not> is_open h"
  with assms show "step now (CallAckMessage i status) h
              = h\<lparr>pendingAcksRef := pendingAcksRef h @ [(i, status)]\<rparr>"
    by (simp add: step_def handle_def ackMessage_def commit_def)
next
  assume a: "connectionState h \<noteq> connected \<and> socketRef h = Some s
            \<and> s < length (websockets h) \<and> websockets h ! s = CONNECTING"
  let ?h0 = "h\<lparr>websockets := (websockets h)[s := OPEN]\<rparr>"
  let ?h1 = "on_open s ?h0"
  let ?h2 = "?h1\<lparr>rendered_connectionState := connectionState ?h1\<rparr>"
  have m0: "mounted ?h0" using assms(1) by simp
  note f = on_open_fields[OF m0, of s]
  have hd: "handle now (SocketOpen s) h = ?h1" using a by (simp add: handle_def)
  have "connectionState ?h1 \<noteq> rendered_connectionState ?h1"
    using f(3,4) a assms(2) by auto
  with f(5) have st: "step now (SocketOpen s) h = pending_acks_effect ?h2"
    by (simp add: step_def hd commit_def)
  have sr: "socketRef ?h2 = Some s" using f(1) a by simp
  have op: "websockets ?h2 ! s = OPEN" using f(2) a by simp
  have cs: "connectionState ?h2 = connected" using f(3) by simp
  note eff = pending_acks_effect_open[OF sr op cs]
  show "connectionState (step now (SocketOpen s) h) = connected"
    unfolding st eff using cs by simp
  show "pendingAcksRef (step now (SocketOpen s) h) = []"
    unfolding st eff by simp
  show "wire (step now (SocketOpen s) h)
                = wire h @ [(s, AuthSession (case sessionId h of None \<Rightarrow> [] | Some sid \<Rightarrow> sid))]
                    @ map (\<lambda>r. (s, JoinRoom r)) (joinedRoomsRef h)
                    @ map (\<lambda>(i, status). (s, MessageAck i status)) (pendingAcksRef h)"
    unfolding st eff using f(6,7) by simp
qed

lemma ex_hook_eq:
  "ex_hook = (useWebSocket (Some ''s1''))\<lparr>mounted := True, connectionState := connecting,
      rendered_connectionState := connecting, socketRef := Some 0, isConnectingRef := True,
      pendingAcksRef := [(''m1'', delivered), (''m2'', read)], websockets := [CONNECTING]\<rparr>"
  by (simp add: ex_hook_def useWebSocket_def step_def handle_def commit_def connection_effect_def
      connect_def no_session_def setConnectionState_def pending_acks_effect_def ackMessage_def
      is_open_def Let_def)

theorem pending_acknowledgments_witness:
  "mounted ex_hook \<and> rendered_connectionState ex_hook = connectionState ex_hook
   \<and> \<not> is_open ex_hook
   \<and> step 0 (CallAckMessage ''m3'' read) ex_hook
       = ex_hook\<lparr>pendingAcksRef := [(''m1'', delivered), (''m2'', read), (''m3'', read)]\<rparr>
   \<and> wire (step 0 (SocketOpen 0) ex_hook)
       = [(0, AuthSession ''s1''), (0, MessageAck ''m1'' delivered), (0, MessageAck ''m2'' read)]
   \<and> pendingAcksRef (step 0 (SocketOpen 0) ex_hook) = []"
proof -
  have m: "mounted ex_hook" by (simp add: ex_hook_eq)
  have r: "rendered_connectionState ex_hook = connectionState ex_hook" by (simp add: ex_hook_eq)
  have o: "\<not> is_open ex_hook" by (simp add: ex_hook_eq is_open_def)
  have c: "connectionState ex_hook \<noteq> connected \<and> socketRef ex_hook = Some 0
            \<and> 0 < length (websockets ex_hook) \<and> websockets ex_hook ! 0 = CONNECTING"
    by (simp add: ex_hook_eq)
  note th = pending_acknowledgments[OF m r, of 0 "''m3''" read 0 Mount]
  from th o have 1: "step 0 (CallAckMessage ''m3'' read) ex_hook
       = ex_hook\<lparr>pendingAcksRef := pendingAcksRef ex_hook @ [(''m3'', read)]\<rparr>"
    by (rule conjunct1[THEN mp])
  from th c have 2: "connectionState (step 0 (SocketOpen 0) ex_hook) = connected
            \<and> pendingAcksRef (step 0 (SocketOpen 0) ex_hook) = []
            \<and> wire (step 0 (SocketOpen 0) ex_hook)
                = wire ex_hook @ [(0, AuthSession (case sessionId ex_hook of None \<Rightarrow> [] | Some sid \<Rightarrow> sid))]
                    @ map (\<lambda>r. (0, JoinRoom r)) (joinedRoomsRef ex_hook)
                    @ map (\<lambda>(i, status). (0, MessageAck i status)) (pendingAcksRef ex_hook)"
    by (rule conjunct2[THEN conjunct1, THEN mp])
  have ack3: "step 0 (CallAckMessage ''m3'' read) ex_hook
       = ex_hook\<lparr>pendingAcksRef := [(''m1'', delivered), (''m2'', read), (''m3'', read)]\<rparr>"
    unfolding 1 by (simp add: ex_hook_eq)
  from 2 have flushed: "pendingAcksRef (step 0 (SocketOpen 0) ex_hook) = []" by simp
  from 2 have "wire (step 0 (SocketOpen 0) ex_hook)
                = wire ex_hook @ [(0, AuthSession (case sessionId ex_hook of None \<Rightarrow> [] | Some sid \<Rightarrow> sid))]
                    @ map (\<lambda>r. (0, JoinRoom r)) (joinedRoomsRef ex_hook)
                    @ map (\<lambda>(i, status). (0, MessageAck i status)) (pendingAcksRef ex_hook)"
    by simp
  then have frames: "wire (step 0 (SocketOpen 0) ex_hook)
       = [(0, AuthSession ''s1''), (0, MessageAck ''m1'' delivered), (0, MessageAck ''m2'' read)]"
    by (simp add: ex_hook_eq useWebSocket_def)
  from m r o ack3 frames flushed show ?thesis by (intro conjI)
qed

lemmas first_defs = useWebSocket1_def step1_def handle1_def commit1_def connection_effect1_def
  connection_cleanup1_def connect1_def on_open1_def on_close1_def no_session1_def
  setConnectionState1_def setReconnectAttempt1_def socket_send1_def socket_close1_def
  invoke1_def clearTimeout1_def clearHeartbeat1_def startHeartbeat1_def
  RECONNECT_BASE_DELAY1_def MAX_RECONNECT_DELAY_def Let_def

lemma ex_first_eq:
  "ex_first = (useWebSocket1 (Some ''s1''))\<lparr>mounted1 := True, connectionState1 := connected,
     socketRef1 := Some 0, heartbeatIntervalRef1 := Some 0, websockets1 := [(OPEN, 0)],
     wire1 := [(0, AuthSession ''s1'')], intervals1 := [(0, 0)], next_handle1 := 1,
     calls1 := [OnConnect]\<rparr>"
  by (simp add: ex_first_def first_defs)

text \<open>
  Claim C6 (reconnect backoff) says that the delay before the next attempt is
  \<open>min(base * 2^attempt, max)\<close>. The earlier version of the hook computes these delays
  but does not wait for them. After \<open>Mount\<close> and \<open>open\<close>, the close listener of socket 0
  schedules a timeout of 1000 ms and increments the counter; the render that follows
  has a new \<open>connect\<close>, so the connection effect is cleaned up, which cancels the
  timeout, and run again, which connects at once: after the step no timeout is pending
  and socket 1 is already connecting. The same happens at each further failure: the
  delays 1000, 2000, 4000 are computed, none is pending, and a new socket is connecting
  each time.
\<close>

theorem first_version_no_backoff:
  "timeouts1 (handle1 0 (SocketClose 0) ex_first) = [(1, 1000, 0)]
   \<and> timeouts1 (step1 0 (SocketClose 0) ex_first) = []
   \<and> websockets1 (step1 0 (SocketClose 0) ex_first) = [(CLOSED, 0), (CONNECTING, 1)]
   \<and> scheduled1 (run1 0 [SocketClose 0, SocketClose 1, SocketClose 2] ex_first) = [1000, 2000, 4000]
   \<and> timeouts1 (run1 0 [SocketClose 0, SocketClose 1, SocketClose 2] ex_first) = []
   \<and> websockets1 (run1 0 [SocketClose 0, SocketClose 1, SocketClose 2] ex_first)
       = [(CLOSED, 0), (CLOSED, 1), (CLOSED, 2), (CONNECTING, 3)]"
  by (simp add: ex_first_eq first_defs)

text \<open>
  Claim C7 (controller teardown) says that after the teardown no further transition is
  possible, and that the close event of the torn-down socket schedules no reconnect.
  In the earlier version the cleanup cancels the timers and closes the socket, but the
  close listener has no guard: when the close event of the torn-down socket arrives it
  schedules a reconnect timeout of 1000 ms, and when that fires \<open>connect\<close> makes a new
  socket, which on opening authenticates and starts a heartbeat.
\<close>

theorem first_version_reconnects_after_teardown:
  "timeouts1 (step1 0 Unmount ex_first) = []
   \<and> intervals1 (step1 0 Unmount ex_first) = []
   \<and> websockets1 (step1 0 Unmount ex_first) = [(CLOSING, 0)]
   \<and> timeouts1 (run1 0 [Unmount, SocketClose 0] ex_first) = [(1, 1000, 0)]
   \<and> reconnectTimeoutRef1 (run1 0 [Unmount, SocketClose 0] ex_first) = Some 1
   \<and> websockets1 (run1 0 [Unmount, SocketClose 0, TimeoutFires 1] ex_first)
       = [(CLOSED, 0), (CONNECTING, 0)]
   \<and> socketRef1 (run1 0 [Unmount, SocketClose 0, TimeoutFires 1] ex_first) = Some 1
   \<and> wire1 (run1 0 [Unmount, SocketClose 0, TimeoutFires 1, SocketOpen 1] ex_first)
       = [(0, AuthSession ''s1''), (1, AuthSession ''s1'')]
   \<and> intervals1 (run1 0 [Unmount, SocketClose 0, TimeoutFires 1, SocketOpen 1] ex_first) = [(2, 1)]"
  by (simp add: ex_first_eq first_defs)

lemma fold_ack_keeps:
  "reconnectAttemptRef (fold (\<lambda>(messageId, status). ackMessage messageId status) xs h) = reconnectAttemptRef h
   \<and> scheduled (fold (\<lambda>(messageId, status). ackMessage messageId status) xs h) = scheduled h"
proof (induction xs arbitrary: h)
  case Nil
  then show ?case by simp
next
  case (Cons x xs)
  obtain i status where x: "x = (i, status)" by (cases x)
  have "reconnectAttemptRef (ackMessage i status h) = reconnectAttemptRef h
      \<and> scheduled (ackMessage i status h) = scheduled h"
    by (simp add: ackMessage_def send_if_open_def socket_send_def split: option.splits)
  with Cons.IH[of "ackMessage i status h"] x show ?case by simp
qed

lemma commit_keeps:
  "reconnectAttemptRef (commit h) = reconnectAttemptRef h \<and> scheduled (commit h) = scheduled h"
  by (simp add: commit_def pending_acks_effect_def fold_ack_keeps)

lemma effect_keeps:
  "reconnectAttemptRef (pending_acks_effect h) = reconnectAttemptRef h
   \<and> scheduled (pending_acks_effect h) = scheduled h"
  by (simp add: pending_acks_effect_def fold_ack_keeps)

lemma connect_keeps:
  "reconnectAttemptRef (connect h) = reconnectAttemptRef h \<and> scheduled (connect h) = scheduled h"
  by (simp add: connect_def Let_def setConnectionState_def socket_close_def clearTimeout_def
      split: option.splits)

lemma fold_join_keeps:
  "reconnectAttemptRef (fold (\<lambda>roomId. socket_send s (JoinRoom roomId)) rs h) = reconnectAttemptRef h
   \<and> scheduled (fold (\<lambda>roomId. socket_send s (JoinRoom roomId)) rs h) = scheduled h"
  by (induction rs arbitrary: h) (simp_all add: socket_send_def)

lemma on_open_resets:
  "reconnectAttemptRef (on_open s h) = 0 \<and> scheduled (on_open s h) = scheduled h"
  by (simp add: on_open_def Let_def setReconnectAttempt_def setConnectionState_def
      socket_send_def startHeartbeat_def clearHeartbeat_def invoke_def fold_join_keeps
      split: option.splits)

lemma on_close_backs_off:
  "reconnectAttemptRef (on_close s h)
     = (if isClosedRef h then reconnectAttemptRef h else Suc (reconnectAttemptRef h))
   \<and> scheduled (on_close s h)
     = scheduled h @ (if isClosedRef h then []
                      else [min (RECONNECT_BASE_DELAY * 2 ^ reconnectAttemptRef h) MAX_RECONNECT_DELAY])"
  by (simp add: on_close_def Let_def setReconnectAttempt_def setConnectionState_def
      clearHeartbeat_def invoke_def split: option.splits)

lemma handle_backoff:
  "reconnectAttemptRef (handle now e h)
     = (case e of
          SocketOpen s \<Rightarrow>
            if s < length (websockets h) \<and> websockets h ! s = CONNECTING then 0
            else reconnectAttemptRef h
        | SocketClose s \<Rightarrow>
            if s < length (websockets h) \<and> websockets h ! s \<noteq> CLOSED \<and> \<not> isClosedRef h
            then Suc (reconnectAttemptRef h) else reconnectAttemptRef h
        | _ \<Rightarrow> reconnectAttemptRef h)
   \<and> scheduled (handle now e h)
     = scheduled h @
       (case e of
          SocketClose s \<Rightarrow>
            if s < length (websockets h) \<and> websockets h ! s \<noteq> CLOSED \<and> \<not> isClosedRef h
            then [min (RECONNECT_BASE_DELAY * 2 ^ reconnectAttemptRef h) MAX_RECONNECT_DELAY]
            else []
        | _ \<Rightarrow> [])"
proof (cases e)
  case Mount
  then show ?thesis
    by (simp add: handle_def effect_keeps connection_effect_def Let_def connect_keeps)
next
  case Unmount
  then show ?thesis
    by (simp add: handle_def connection_cleanup_def Let_def clearHeartbeat_def clearTimeout_def
        socket_close_def split: option.splits)
next
  case (SocketOpen s)
  then show ?thesis by (simp add: handle_def on_open_resets)
next
  case (SocketMessage s d)
  then show ?thesis
    by (simp add: handle_def on_message_def invoke_def split: Inbound.splits Frame.splits)
next
  case (SocketClose s)
  then show ?thesis by (simp add: handle_def on_close_backs_off)
next
  case (TimeoutFires t)
  then show ?thesis
    by (simp add: handle_def reconnect_timeout_def connect_keeps clearTimeout_def)
next
  case (IntervalFires i)
  then show ?thesis
    by (simp add: handle_def heartbeat_tick_def socket_send_def split: option.splits)
next
  case Visible
  then show ?thesis by (simp add: handle_def handleVisibilityChange_def connect_keeps)
next
  case (CallJoinRoom r)
  then show ?thesis
    by (simp add: handle_def joinRoom_def send_if_open_def socket_send_def split: option.splits)
next
  case (CallLeaveRoom r)
  then show ?thesis
    by (simp add: handle_def leaveRoom_def send_if_open_def socket_send_def split: option.splits)
next
  case (CallSendMessage f)
  then show ?thesis
    by (simp add: handle_def sendMessage_def send_if_open_def socket_send_def split: option.splits)
next
  case (CallSyncMessages l)
  then show ?thesis
    by (simp add: handle_def syncMessages_def send_if_open_def socket_send_def split: option.splits)
next
  case (CallAckMessage i status)
  then show ?thesis
    by (simp add: handle_def ackMessage_def send_if_open_def socket_send_def split: option.splits)
qed

text \<open>
  The current version, for every state and event: the counter \<open>reconnectAttemptRef\<close>
  changes only when a socket opens (to zero) and when a socket closes while the hook is
  not torn down (by one); a retry leaves it alone. A timeout is scheduled only by such a
  close, with the delay \<open>min(RECONNECT_BASE_DELAY * 2^attempt, MAX_RECONNECT_DELAY)\<close> of
  the counter before the close.
\<close>

theorem backoff_current_version:
  "reconnectAttemptRef (step now e h)
     = (case e of
          SocketOpen s \<Rightarrow>
            if s < length (websockets h) \<and> websockets h ! s = CONNECTING then 0
            else reconnectAttemptRef h
        | SocketClose s \<Rightarrow>
            if s < length (websockets h) \<and> websockets h ! s \<noteq> CLOSED \<and> \<not> isClosedRef h
            then Suc (reconnectAttemptRef h) else reconnectAttemptRef h
        | _ \<Rightarrow> reconnectAttemptRef h)
   \<and> scheduled (step now e h)
     = scheduled h @
       (case e of
          SocketClose s \<Rightarrow>
            if s < length (websockets h) \<and> websockets h ! s \<noteq> CLOSED \<and> \<not> isClosedRef h
            then [min (RECONNECT_BASE_DELAY * 2 ^ reconnectAttemptRef h) MAX_RECONNECT_DELAY]
            else []
        | _ \<Rightarrow> [])"
  unfolding step_def using commit_keeps[of "handle now e h"] handle_backoff[of now e h] by simp

lemma run_append: "run now (xs @ ys) h = run now ys (run now xs h)"
  by (induction xs arbitrary: h) simp_all

lemma mount_connects:
  "sid \<noteq> [] \<Longrightarrow> step now Mount (useWebSocket (Some sid)) = after_failures (Some sid) 0"
  by (simp add: after_failures_def backoff_delays_def useWebSocket_def step_def handle_def
      commit_def connection_effect_def connect_def no_session_def setConnectionState_def
      pending_acks_effect_def Let_def)

lemma failure_round:
  assumes "sid \<noteq> []"
  shows "step now (TimeoutFires n) (step now (SocketClose n) (after_failures (Some sid) n))
           = after_failures (Some sid) (Suc n)"
proof -
  let ?d = "min (RECONNECT_BASE_DELAY * 2 ^ n) MAX_RECONNECT_DELAY"
  let ?closed = "(useWebSocket (Some sid))\<lparr>mounted := True,
     connectionState := disconnected, rendered_connectionState := disconnected,
     reconnectAttempt := Suc n, socketRef := Some n, reconnectAttemptRef := Suc n,
     isConnectingRef := False, websockets := replicate (Suc n) CLOSED,
     next_handle := Suc n, scheduled := backoff_delays n @ [?d],
     calls := replicate n OnDisconnect @ [OnDisconnect],
     timeouts := [(n, ?d)], reconnectTimeoutRef := Some n\<rparr>"
  have upd: "(replicate n CLOSED @ [CONNECTING])[n := CLOSED] = CLOSED # replicate n CLOSED"
    by (simp add: list_update_append replicate_append_same)
  have nth: "(replicate n CLOSED @ [CONNECTING]) ! n = CONNECTING"
    by (simp add: nth_append)
  have 1: "step now (SocketClose n) (after_failures (Some sid) n) = ?closed"
    by (simp add: after_failures_def useWebSocket_def step_def handle_def commit_def on_close_def
        setConnectionState_def setReconnectAttempt_def clearHeartbeat_def invoke_def
        pending_acks_effect_def Let_def upd nth replicate_append_same)
  have nthc: "(CLOSED # replicate n CLOSED) ! n = CLOSED"
    using nth_replicate[of n "Suc n" CLOSED] by simp
  have 2: "step now (TimeoutFires n) ?closed = after_failures (Some sid) (Suc n)"
    using assms
    by (simp add: after_failures_def backoff_delays_def useWebSocket_def step_def handle_def
        commit_def reconnect_timeout_def connect_def clearTimeout_def no_session_def
        setConnectionState_def pending_acks_effect_def Let_def nthc replicate_append_same)
  from 1 2 show ?thesis by simp
qed

lemma failures_Suc: "failures (Suc n) = failures n @ [SocketClose n, TimeoutFires n]"
  by (simp add: failures_def)

lemma run_failures:
  "sid \<noteq> [] \<Longrightarrow> run now (failures n) (after_failures (Some sid) 0) = after_failures (Some sid) n"
proof (induction n)
  case 0
  then show ?case by (simp add: failures_def)
next
  case (Suc n)
  then show ?case by (simp add: failures_Suc run_append failure_round)
qed

lemma fold_ack_sockets:
  "websockets (fold (\<lambda>(messageId, status). ackMessage messageId status) xs h) = websockets h
   \<and> isClosedRef (fold (\<lambda>(messageId, status). ackMessage messageId status) xs h) = isClosedRef h"
proof (induction xs arbitrary: h)
  case Nil
  then show ?case by simp
next
  case (Cons x xs)
  obtain i status where x: "x = (i, status)" by (cases x)
  have "websockets (ackMessage i status h) = websockets h
      \<and> isClosedRef (ackMessage i status h) = isClosedRef h"
    by (simp add: ackMessage_def send_if_open_def socket_send_def split: option.splits)
  with Cons.IH[of "ackMessage i status h"] x show ?case by simp
qed

lemma commit_sockets:
  "websockets (commit h) = websockets h \<and> isClosedRef (commit h) = isClosedRef h"
  by (simp add: commit_def pending_acks_effect_def fold_ack_sockets)

lemma fold_join_sockets:
  "websockets (fold (\<lambda>roomId. socket_send s (JoinRoom roomId)) rs h) = websockets h
   \<and> isClosedRef (fold (\<lambda>roomId. socket_send s (JoinRoom roomId)) rs h) = isClosedRef h"
  by (induction rs arbitrary: h) (simp_all add: socket_send_def)

lemma on_open_sockets:
  "websockets (on_open s h) = websockets h \<and> isClosedRef (on_open s h) = isClosedRef h"
  by (simp add: on_open_def Let_def setReconnectAttempt_def setConnectionState_def
      socket_send_def startHeartbeat_def clearHeartbeat_def invoke_def fold_join_sockets
      split: option.splits)

lemma step_open_sockets:
  assumes "s < length (websockets h)" and "websockets h ! s = CONNECTING"
  shows "websockets (step now (SocketOpen s) h) = (websockets h)[s := OPEN]"
    and "isClosedRef (step now (SocketOpen s) h) = isClosedRef h"
  using assms by (simp_all add: step_def commit_sockets handle_def on_open_sockets)

text \<open>
  The trace of \<open>n\<close> consecutive failed attempts of the current version: each socket
  closes before it opens, and the timeout then pending fires. The delays scheduled are
  3000, 6000, 12000, ... capped at 30000, the counter ends at \<open>n\<close>, an open resets it,
  and the close after that open is followed by the base delay again.
\<close>

theorem backoff_sequence_current_version:
  assumes "sid \<noteq> []"
  shows "scheduled (run now (Mount # failures n) (useWebSocket (Some sid)))
           = map (\<lambda>k. min (3000 * 2 ^ k) 30000) [0..<n]
       \<and> reconnectAttemptRef (run now (Mount # failures n) (useWebSocket (Some sid))) = n
       \<and> reconnectAttemptRef (run now (Mount # failures n @ [SocketOpen n]) (useWebSocket (Some sid))) = 0
       \<and> scheduled (run now (Mount # failures n @ [SocketOpen n, SocketClose n]) (useWebSocket (Some sid)))
           = map (\<lambda>k. min (3000 * 2 ^ k) 30000) [0..<n] @ [3000]"
proof -
  let ?h = "after_failures (Some sid) n"
  have r: "run now (Mount # failures n) (useWebSocket (Some sid)) = ?h"
    using assms by (simp add: mount_connects run_failures)
  have nth: "n < length (websockets ?h)" "websockets ?h ! n = CONNECTING"
    by (simp_all add: after_failures_def nth_append)
  have s: "scheduled ?h = map (\<lambda>k. min (3000 * 2 ^ k) 30000) [0..<n]"
    by (simp add: after_failures_def backoff_delays_def RECONNECT_BASE_DELAY_def MAX_RECONNECT_DELAY_def)
  have a: "reconnectAttemptRef ?h = n" by (simp add: after_failures_def)
  have c: "\<not> isClosedRef ?h" by (simp add: after_failures_def useWebSocket_def)
  let ?o = "step now (SocketOpen n) ?h"
  have o1: "reconnectAttemptRef ?o = 0" and o2: "scheduled ?o = scheduled ?h"
    using backoff_current_version[of now "SocketOpen n" ?h] nth by simp_all
  have ws: "websockets ?o = (websockets ?h)[n := OPEN]" and cl: "isClosedRef ?o = isClosedRef ?h"
    using step_open_sockets[OF nth] by simp_all
  have live: "n < length (websockets ?o)" "websockets ?o ! n \<noteq> CLOSED" "\<not> isClosedRef ?o"
    using nth c by (simp_all add: ws cl)
  have "scheduled (step now (SocketClose n) ?o)
          = scheduled ?o @ [min (RECONNECT_BASE_DELAY * 2 ^ reconnectAttemptRef ?o) MAX_RECONNECT_DELAY]"
    using backoff_current_version[of now "SocketClose n" ?o] live by simp
  then have o3: "scheduled (step now (SocketClose n) ?o)
          = map (\<lambda>k. min (3000 * 2 ^ k) 30000) [0..<n] @ [3000]"
    by (simp add: o1 o2 s RECONNECT_BASE_DELAY_def MAX_RECONNECT_DELAY_def)
  have r1: "run now (Mount # failures n @ [SocketOpen n]) (useWebSocket (Some sid)) = ?o"
    using r run_append[of now "Mount # failures n" "[SocketOpen n]" "useWebSocket (Some sid)"]
    by simp
  have r2: "run now (Mount # failures n @ [SocketOpen n, SocketClose n]) (useWebSocket (Some sid))
              = step now (SocketClose n) ?o"
    using r run_append[of now "Mount # failures n" "[SocketOpen n, SocketClose n]" "useWebSocket (Some sid)"]
    by simp
  show ?thesis unfolding r r1 r2 using s a o1 o3 by (intro conjI)
qed

theorem backoff_sequence_current_version_witness:
  "scheduled (run 0 (Mount # failures 5) (useWebSocket (Some ''s1'')))
      = [3000, 6000, 12000, 24000, 30000]
   \<and> scheduled (run 0 (Mount # failures 5 @ [SocketOpen 5, SocketClose 5]) (useWebSocket (Some ''s1'')))
      = [3000, 6000, 12000, 24000, 30000, 3000]"
proof -
  have "''s1'' \<noteq> []" by simp
  note th = backoff_sequence_current_version[OF this, of 0 5]
  have "map (\<lambda>k. min (3000 * 2 ^ k) (30000::int)) [0..<5] = [3000, 6000, 12000, 24000, 30000]"
    by (simp add: upt_rec)
  with th show ?thesis by simp
qed

lemma tidy_cong:
  "websockets h' = websockets h \<Longrightarrow> socketRef h' = socketRef h \<Longrightarrow> intervals h' = intervals h
     \<Longrightarrow> heartbeatIntervalRef h' = heartbeatIntervalRef h \<Longrightarrow> tidy h' = tidy h"
  by (simp add: tidy_def)

lemma fold_ack_tidy_fields:
  "websockets (fold (\<lambda>(messageId, status). ackMessage messageId status) xs h) = websockets h
   \<and> socketRef (fold (\<lambda>(messageId, status). ackMessage messageId status) xs h) = socketRef h
   \<and> intervals (fold (\<lambda>(messageId, status). ackMessage messageId status) xs h) = intervals h
   \<and> heartbeatIntervalRef (fold (\<lambda>(messageId, status). ackMessage messageId status) xs h)
       = heartbeatIntervalRef h"
proof (induction xs arbitrary: h)
  case Nil
  then show ?case by simp
next
  case (Cons x xs)
  obtain i status where x: "x = (i, status)" by (cases x)
  have "websockets (ackMessage i status h) = websockets h
      \<and> socketRef (ackMessage i status h) = socketRef h
      \<and> intervals (ackMessage i status h) = intervals h
      \<and> heartbeatIntervalRef (ackMessage i status h) = heartbeatIntervalRef h"
    by (simp add: ackMessage_def send_if_open_def socket_send_def split: option.splits)
  with Cons.IH[of "ackMessage i status h"] x show ?case by simp
qed

lemma tidy_effect: "tidy (pending_acks_effect h) = tidy h"
  by (rule tidy_cong) (simp_all add: pending_acks_effect_def fold_ack_tidy_fields)

lemma tidy_commit: "tidy (commit h) = tidy h"
proof -
  have "tidy (h\<lparr>rendered_connectionState := connectionState h\<rparr>) = tidy h"
    by (rule tidy_cong) simp_all
  then show ?thesis by (simp add: commit_def tidy_effect)
qed

lemma tidy_connect: "tidy h \<Longrightarrow> tidy (connect h)"
  unfolding tidy_def connect_def Let_def setConnectionState_def socket_close_def clearTimeout_def
  by (auto simp: nth_append nth_list_update less_Suc_eq split: option.splits if_splits)

lemma tidy_set_socket:
  "tidy h \<Longrightarrow> s < length (websockets h) \<Longrightarrow> r \<noteq> CONNECTING \<Longrightarrow> r \<noteq> OPEN
     \<Longrightarrow> tidy (h\<lparr>websockets := (websockets h)[s := r]\<rparr>)"
  unfolding tidy_def by (auto simp: nth_list_update)

lemma tidy_opened:
  "tidy h \<Longrightarrow> s < length (websockets h) \<Longrightarrow> websockets h ! s = CONNECTING
     \<Longrightarrow> tidy (h\<lparr>websockets := (websockets h)[s := OPEN]\<rparr>)"
  unfolding tidy_def by (auto simp: nth_list_update)

lemma tidy_clearHeartbeat: "tidy h \<Longrightarrow> tidy (clearHeartbeat h)"
  unfolding tidy_def clearHeartbeat_def by (auto split: option.splits)

lemma clearHeartbeat_intervals: "tidy h \<Longrightarrow> intervals (clearHeartbeat h) = []"
proof -
  assume t: "tidy h"
  then have iv: "\<forall>x \<in> set (intervals h). heartbeatIntervalRef h = Some (fst x)"
    by (simp add: tidy_def)
  show ?thesis
  proof (cases "heartbeatIntervalRef h")
    case None
    have "intervals h = []"
    proof (rule ccontr)
      assume "intervals h \<noteq> []"
      then obtain x where "x \<in> set (intervals h)" by (cases "intervals h") auto
      with iv have "heartbeatIntervalRef h = Some (fst x)" by (rule bspec)
      with None show False by simp
    qed
    with None show ?thesis by (simp add: clearHeartbeat_def)
  next
    case (Some i)
    with iv have "\<forall>x \<in> set (intervals h). fst x = i" by simp
    then have "filter (\<lambda>(i', s). i' \<noteq> i) (intervals h) = []"
      by (auto simp: filter_empty_conv)
    with Some show ?thesis by (simp add: clearHeartbeat_def)
  qed
qed

lemma tidy_startHeartbeat: "tidy h \<Longrightarrow> tidy (startHeartbeat s h)"
proof -
  assume t: "tidy h"
  let ?h1 = "clearHeartbeat h"
  have "websockets ?h1 = websockets h" "socketRef ?h1 = socketRef h"
    by (simp_all add: clearHeartbeat_def split: option.splits)
  with t clearHeartbeat_intervals[OF t] show ?thesis
    by (simp add: tidy_def startHeartbeat_def Let_def)
qed

lemma fold_join_tidy_fields:
  "websockets (fold (\<lambda>roomId. socket_send s (JoinRoom roomId)) rs h) = websockets h
   \<and> socketRef (fold (\<lambda>roomId. socket_send s (JoinRoom roomId)) rs h) = socketRef h
   \<and> intervals (fold (\<lambda>roomId. socket_send s (JoinRoom roomId)) rs h) = intervals h
   \<and> heartbeatIntervalRef (fold (\<lambda>roomId. socket_send s (JoinRoom roomId)) rs h)
       = heartbeatIntervalRef h"
  by (induction rs arbitrary: h) (simp_all add: socket_send_def)

lemma tidy_on_open: "tidy h \<Longrightarrow> tidy (on_open s h)"
proof -
  assume t: "tidy h"
  let ?h1 = "setReconnectAttempt 0
                 ((setConnectionState connected (h\<lparr>isConnectingRef := False\<rparr>))
                    \<lparr>reconnectAttemptRef := 0\<rparr>)"
  let ?h2 = "socket_send s (AuthSession (case sessionId ?h1 of None \<Rightarrow> [] | Some sid \<Rightarrow> sid)) ?h1"
  have "tidy ?h2 = tidy h"
    by (rule tidy_cong)
      (simp_all add: setReconnectAttempt_def setConnectionState_def socket_send_def)
  with t have t3: "tidy (startHeartbeat s ?h2)" by (simp add: tidy_startHeartbeat)
  let ?h4 = "fold (\<lambda>roomId. socket_send s (JoinRoom roomId))
               (joinedRoomsRef (startHeartbeat s ?h2)) (startHeartbeat s ?h2)"
  have "tidy (invoke OnConnect ?h4) = tidy (startHeartbeat s ?h2)"
    by (rule tidy_cong) (simp_all add: invoke_def fold_join_tidy_fields)
  with t3 show ?thesis by (simp add: on_open_def Let_def)
qed

lemma tidy_on_message: "tidy (on_message s d h) = tidy h"
  by (rule tidy_cong) (simp_all add: on_message_def invoke_def split: Inbound.splits Frame.splits)

lemma tidy_on_close: "tidy h \<Longrightarrow> tidy (on_close s h)"
proof -
  assume t: "tidy h"
  let ?h0 = "setConnectionState disconnected (h\<lparr>isConnectingRef := False\<rparr>)"
  have "tidy ?h0 = tidy h" by (rule tidy_cong) (simp_all add: setConnectionState_def)
  with t have t1: "tidy (clearHeartbeat ?h0)" by (simp add: tidy_clearHeartbeat)
  let ?h1 = "invoke OnDisconnect (clearHeartbeat ?h0)"
  have "tidy ?h1 = tidy (clearHeartbeat ?h0)" by (rule tidy_cong) (simp_all add: invoke_def)
  with t1 have t2: "tidy ?h1" by simp
  let ?h3 = "setReconnectAttempt (reconnectAttemptRef (?h1\<lparr>reconnectAttemptRef := reconnectAttemptRef ?h1 + 1\<rparr>))
              (?h1\<lparr>reconnectAttemptRef := reconnectAttemptRef ?h1 + 1\<rparr>)"
  have e: "tidy (?h3\<lparr>timeouts := tt, scheduled := sc, reconnectTimeoutRef := rr, next_handle := nn\<rparr>)
            = tidy ?h1" for tt sc rr nn
    by (rule tidy_cong) (simp_all add: setReconnectAttempt_def)
  show ?thesis
    unfolding on_close_def Let_def using t2 e by (simp del: One_nat_def)
qed

lemma tidy_cleanup: "tidy h \<Longrightarrow> tidy (connection_cleanup h)"
proof -
  assume t: "tidy h"
  have "tidy (h\<lparr>isClosedRef := True\<rparr>) = tidy h" by (rule tidy_cong) simp_all
  with t have t1: "tidy (clearHeartbeat (h\<lparr>isClosedRef := True\<rparr>))"
    by (simp add: tidy_clearHeartbeat)
  let ?h1 = "clearHeartbeat (h\<lparr>isClosedRef := True\<rparr>)"
  let ?h2 = "case reconnectTimeoutRef ?h1 of
                  None \<Rightarrow> ?h1
                | Some t \<Rightarrow> (clearTimeout t ?h1)\<lparr>reconnectTimeoutRef := None\<rparr>"
  have "tidy ?h2 = tidy ?h1"
    by (rule tidy_cong) (simp_all add: clearTimeout_def split: option.splits)
  with t1 have t2: "tidy ?h2" by simp
  let ?h3 = "case socketRef ?h2 of
                  None \<Rightarrow> ?h2
                | Some s \<Rightarrow> (socket_close s ?h2)\<lparr>socketRef := None\<rparr>"
  have t3: "tidy ?h3"
  proof (cases "socketRef ?h2")
    case None
    with t2 show ?thesis by simp
  next
    case (Some s)
    with t2 have "tidy ((socket_close s ?h2)\<lparr>socketRef := None\<rparr>)"
      unfolding tidy_def socket_close_def by (auto simp: nth_list_update)
    with Some show ?thesis by simp
  qed
  have "tidy (?h3\<lparr>isConnectingRef := False\<rparr>) = tidy ?h3" by (rule tidy_cong) simp_all
  with t3 show ?thesis by (simp add: connection_cleanup_def Let_def)
qed

lemma tidy_send_if_open: "tidy (send_if_open f h) = tidy h"
  by (rule tidy_cong) (simp_all add: send_if_open_def socket_send_def split: option.splits)

lemma tidy_handle: "tidy h \<Longrightarrow> tidy (handle now e h)"
proof (cases e)
  case Mount
  assume t: "tidy h"
  have "tidy (h\<lparr>mounted := True, isClosedRef := False\<rparr>) = tidy h" by (rule tidy_cong) simp_all
  with t Mount show ?thesis
    by (simp add: handle_def tidy_effect connection_effect_def Let_def tidy_connect)
next
  case Unmount
  assume t: "tidy h"
  have "tidy ((connection_cleanup h)\<lparr>mounted := False\<rparr>) = tidy (connection_cleanup h)"
    by (rule tidy_cong) simp_all
  with t Unmount show ?thesis by (simp add: handle_def tidy_cleanup)
next
  case (SocketOpen s)
  assume "tidy h"
  with SocketOpen show ?thesis by (simp add: handle_def tidy_on_open tidy_opened)
next
  case (SocketMessage s d)
  assume "tidy h"
  with SocketMessage show ?thesis by (simp add: handle_def tidy_on_message)
next
  case (SocketClose s)
  assume "tidy h"
  with SocketClose show ?thesis by (simp add: handle_def tidy_on_close tidy_set_socket)
next
  case (TimeoutFires t)
  assume t: "tidy h"
  have "tidy ((clearTimeout t h)\<lparr>reconnectTimeoutRef := None\<rparr>) = tidy h"
    by (rule tidy_cong) (simp_all add: clearTimeout_def)
  with t TimeoutFires show ?thesis by (simp add: handle_def reconnect_timeout_def tidy_connect)
next
  case (IntervalFires i)
  assume t: "tidy h"
  have "\<And>s. tidy (heartbeat_tick now s h) = tidy h"
    by (rule tidy_cong) (simp_all add: heartbeat_tick_def socket_send_def)
  with t IntervalFires show ?thesis by (simp add: handle_def split: option.splits)
next
  case Visible
  assume "tidy h"
  with Visible show ?thesis by (simp add: handle_def handleVisibilityChange_def tidy_connect)
next
  case (CallJoinRoom r)
  assume "tidy h"
  with CallJoinRoom show ?thesis by (simp add: handle_def joinRoom_def tidy_send_if_open)
next
  case (CallLeaveRoom r)
  assume t: "tidy h"
  have "tidy (h\<lparr>joinedRoomsRef := filter (\<lambda>x. x \<noteq> r) (joinedRoomsRef h)\<rparr>) = tidy h"
    by (rule tidy_cong) simp_all
  with t CallLeaveRoom show ?thesis by (simp add: handle_def leaveRoom_def tidy_send_if_open)
next
  case (CallSendMessage f)
  assume "tidy h"
  with CallSendMessage show ?thesis by (simp add: handle_def sendMessage_def tidy_send_if_open)
next
  case (CallSyncMessages l)
  assume "tidy h"
  with CallSyncMessages show ?thesis by (simp add: handle_def syncMessages_def tidy_send_if_open)
next
  case (CallAckMessage i status)
  assume t: "tidy h"
  have "tidy (ackMessage i status h) = tidy h"
    by (rule tidy_cong)
      (simp_all add: ackMessage_def send_if_open_def socket_send_def split: option.splits)
  with t CallAckMessage show ?thesis by (simp add: handle_def)
qed

lemma tidy_step: "tidy h \<Longrightarrow> tidy (step now e h)"
  by (simp add: step_def tidy_commit tidy_handle)

lemma tidy_run: "tidy h \<Longrightarrow> tidy (run now es h)"
  by (induction es arbitrary: h) (simp_all add: tidy_step)

lemma tidy_initial: "tidy (useWebSocket sid)"
  by (simp add: tidy_def useWebSocket_def)

lemma frozen_refl: "frozen h h"
  by (simp add: frozen_def)

lemma frozen_trans: "frozen h h' \<Longrightarrow> frozen h' h'' \<Longrightarrow> frozen h h''"
  by (auto simp: frozen_def)

lemma cleanup_fields:
  "isClosedRef (connection_cleanup h) \<and> \<not> isConnectingRef (connection_cleanup h)
   \<and> socketRef (connection_cleanup h) = None
   \<and> heartbeatIntervalRef (connection_cleanup h) = None
   \<and> reconnectTimeoutRef (connection_cleanup h) = None
   \<and> wire (connection_cleanup h) = wire h \<and> scheduled (connection_cleanup h) = scheduled h
   \<and> length (websockets (connection_cleanup h)) = length (websockets h)
   \<and> (\<forall>t. reconnectTimeoutRef h = Some t \<longrightarrow> t \<notin> fst ` set (timeouts (connection_cleanup h)))"
  by (auto simp: connection_cleanup_def Let_def clearHeartbeat_def clearTimeout_def
      socket_close_def split: option.splits)

lemma cleanup_intervals: "tidy h \<Longrightarrow> intervals (connection_cleanup h) = []"
proof -
  assume t: "tidy h"
  have "tidy (h\<lparr>isClosedRef := True\<rparr>) = tidy h" by (rule tidy_cong) simp_all
  with t have "intervals (clearHeartbeat (h\<lparr>isClosedRef := True\<rparr>)) = []"
    by (simp add: clearHeartbeat_intervals)
  then show ?thesis
    by (simp add: connection_cleanup_def Let_def clearTimeout_def socket_close_def
        split: option.splits)
qed

lemma tidy_unreferenced:
  assumes "tidy h" and "socketRef h = None"
  shows "\<forall>r \<in> set (websockets h). r = CLOSING \<or> r = CLOSED"
proof
  fix r assume "r \<in> set (websockets h)"
  then obtain k where k: "k < length (websockets h)" and r: "r = websockets h ! k"
    by (auto simp: in_set_conv_nth)
  with assms have "websockets h ! k \<noteq> CONNECTING \<and> websockets h ! k \<noteq> OPEN"
    by (simp add: tidy_def)
  with r show "r = CLOSING \<or> r = CLOSED" by (cases r) simp_all
qed

lemma unmount_tears_down:
  assumes "tidy h" and "mounted h"
  shows "torn_down (step now Unmount h)"
proof -
  let ?c = "connection_cleanup h"
  have st: "step now Unmount h = ?c\<lparr>mounted := False\<rparr>"
    using assms(2) by (simp add: step_def handle_def commit_def)
  note f = cleanup_fields[of h]
  have "tidy ?c" using assms(1) by (rule tidy_cleanup)
  moreover have "socketRef ?c = None" using f by simp
  ultimately have "\<forall>r \<in> set (websockets ?c). r = CLOSING \<or> r = CLOSED"
    by (rule tidy_unreferenced)
  with f cleanup_intervals[OF assms(1)] show ?thesis
    unfolding st torn_down_def by simp
qed

lemma torn_down_step:
  assumes t: "torn_down h" and e: "e \<noteq> Mount"
  shows "torn_down (step now e h) \<and> frozen h (step now e h)"
proof -
  from t have um: "\<not> mounted h" by (simp add: torn_down_def)
  have cm: "\<And>h'. \<not> mounted h' \<Longrightarrow> commit h' = h'" by (simp add: commit_def)
  have dead: "\<And>s. s < length (websockets h) \<Longrightarrow>
                websockets h ! s \<noteq> CONNECTING \<and> websockets h ! s \<noteq> OPEN"
  proof -
    fix s assume "s < length (websockets h)"
    then have "websockets h ! s \<in> set (websockets h)" by simp
    with t have "websockets h ! s = CLOSING \<or> websockets h ! s = CLOSED"
      by (simp add: torn_down_def)
    then show "websockets h ! s \<noteq> CONNECTING \<and> websockets h ! s \<noteq> OPEN" by auto
  qed
  have same: "step now e h = h \<Longrightarrow> ?thesis" using t by (simp add: frozen_refl)
  show ?thesis
  proof (cases e)
    case Mount
    with e show ?thesis by simp
  next
    case Unmount
    with um have "step now e h = h" by (simp add: step_def handle_def cm)
    then show ?thesis by (rule same)
  next
    case (SocketOpen s)
    with dead[of s] um have "step now e h = h" by (auto simp: step_def handle_def cm)
    then show ?thesis by (rule same)
  next
    case (SocketMessage s d)
    with dead[of s] um have "step now e h = h" by (auto simp: step_def handle_def cm)
    then show ?thesis by (rule same)
  next
    case (SocketClose s)
    show ?thesis
    proof (cases "s < length (websockets h) \<and> websockets h ! s \<noteq> CLOSED")
      case False
      with SocketClose um have "step now e h = h" by (auto simp: step_def handle_def cm)
      then show ?thesis by (rule same)
    next
      case True
      let ?h' = "h\<lparr>websockets := (websockets h)[s := CLOSED], calls := calls h @ [OnDisconnect]\<rparr>"
      have "handle now e h = ?h'"
        using SocketClose True t
        by (simp add: handle_def on_close_def Let_def setConnectionState_def clearHeartbeat_def
            invoke_def torn_down_def)
      with um have st: "step now e h = ?h'" by (simp add: step_def cm)
      have "set ((websockets h)[s := CLOSED]) \<subseteq> insert CLOSED (set (websockets h))"
        by (rule set_update_subset_insert)
      with t have "\<forall>r \<in> set ((websockets h)[s := CLOSED]). r = CLOSING \<or> r = CLOSED"
        by (auto simp: torn_down_def)
      with t show ?thesis unfolding st by (simp add: torn_down_def frozen_def)
    qed
  next
    case (TimeoutFires x)
    show ?thesis
    proof (cases "x \<in> fst ` set (timeouts h)")
      case False
      with TimeoutFires um have "step now e h = h" by (simp add: step_def handle_def cm)
      then show ?thesis by (rule same)
    next
      case True
      let ?h' = "h\<lparr>timeouts := filter (\<lambda>(t', d). t' \<noteq> x) (timeouts h)\<rparr>"
      have "handle now e h = ?h'"
        using TimeoutFires True t
        by (simp add: handle_def reconnect_timeout_def connect_def clearTimeout_def
            no_session_def torn_down_def split: option.splits)
      with um have st: "step now e h = ?h'" by (simp add: step_def cm)
      from t show ?thesis unfolding st by (auto simp: torn_down_def frozen_def)
    qed
  next
    case (IntervalFires i)
    with t um have "step now e h = h" by (simp add: step_def handle_def cm torn_down_def)
    then show ?thesis by (rule same)
  next
    case Visible
    with um have "step now e h = h" by (simp add: step_def handle_def cm)
    then show ?thesis by (rule same)
  next
    case (CallJoinRoom r)
    with um have "step now e h = h" by (simp add: step_def handle_def cm)
    then show ?thesis by (rule same)
  next
    case (CallLeaveRoom r)
    with um have "step now e h = h" by (simp add: step_def handle_def cm)
    then show ?thesis by (rule same)
  next
    case (CallSendMessage f)
    with um have "step now e h = h" by (simp add: step_def handle_def cm)
    then show ?thesis by (rule same)
  next
    case (CallSyncMessages l)
    with um have "step now e h = h" by (simp add: step_def handle_def cm)
    then show ?thesis by (rule same)
  next
    case (CallAckMessage i status)
    with um have "step now e h = h" by (simp add: step_def handle_def cm)
    then show ?thesis by (rule same)
  qed
qed

lemma torn_down_run:
  "torn_down h \<Longrightarrow> Mount \<notin> set es \<Longrightarrow> torn_down (run now es h) \<and> frozen h (run now es h)"
proof (induction es arbitrary: h)
  case Nil
  then show ?case by (simp add: frozen_refl)
next
  case (Cons e es)
  from Cons.prems have e: "e \<noteq> Mount" and es: "Mount \<notin> set es" by auto
  from torn_down_step[OF Cons.prems(1) e, of now]
  have 1: "torn_down (step now e h)" and 2: "frozen h (step now e h)" by simp_all
  from Cons.IH[OF 1 es] have 3: "torn_down (run now es (step now e h))"
    and 4: "frozen (step now e h) (run now es (step now e h))" by simp_all
  from 2 4 have "frozen h (run now es (step now e h))" by (rule frozen_trans)
  with 3 show ?case by simp
qed

text \<open>
  The current version, torn down by unmounting after any trace that leaves it mounted:
  the socket of \<open>socketRef\<close> is closing or closed, the timeout and the interval of the
  refs are cancelled, and whatever events follow (short of mounting again), no socket is
  made, no timeout scheduled, no frame sent and no state or ref changed.
\<close>

theorem teardown_current_version:
  assumes "mounted (run now es (useWebSocket sid))" and "Mount \<notin> set es'"
  shows "torn_down (run now (es @ [Unmount]) (useWebSocket sid))
       \<and> (\<forall>t. reconnectTimeoutRef (run now es (useWebSocket sid)) = Some t \<longrightarrow>
              t \<notin> fst ` set (timeouts (run now (es @ [Unmount]) (useWebSocket sid))))
       \<and> torn_down (run now (es @ Unmount # es') (useWebSocket sid))
       \<and> frozen (run now (es @ [Unmount]) (useWebSocket sid))
                (run now (es @ Unmount # es') (useWebSocket sid))"
proof -
  let ?h = "run now es (useWebSocket sid)"
  have ty: "tidy ?h" using tidy_initial by (rule tidy_run)
  have r1: "run now (es @ [Unmount]) (useWebSocket sid) = step now Unmount ?h"
    by (simp add: run_append)
  have r2: "run now (es @ Unmount # es') (useWebSocket sid) = run now es' (step now Unmount ?h)"
    by (simp add: run_append)
  have td: "torn_down (step now Unmount ?h)" using ty assms(1) by (rule unmount_tears_down)
  have "step now Unmount ?h = (connection_cleanup ?h)\<lparr>mounted := False\<rparr>"
    using assms(1) by (simp add: step_def handle_def commit_def)
  with cleanup_fields[of ?h]
  have ct: "\<forall>t. reconnectTimeoutRef ?h = Some t \<longrightarrow> t \<notin> fst ` set (timeouts (step now Unmount ?h))"
    by simp
  note after = torn_down_run[OF td assms(2), of now]
  show ?thesis unfolding r1 r2 using td ct after by (intro conjI) simp_all
qed

theorem teardown_current_version_witness:
  "mounted (run 0 [Mount, SocketOpen 0] (useWebSocket (Some ''s1'')))
   \<and> torn_down (run 0 ([Mount, SocketOpen 0] @ Unmount # [SocketClose 0, Visible, TimeoutFires 0])
                  (useWebSocket (Some ''s1'')))
   \<and> websockets (run 0 ([Mount, SocketOpen 0] @ Unmount # [SocketClose 0, Visible, TimeoutFires 0])
                  (useWebSocket (Some ''s1''))) = [CLOSED]
   \<and> scheduled (run 0 ([Mount, SocketOpen 0] @ Unmount # [SocketClose 0, Visible, TimeoutFires 0])
                  (useWebSocket (Some ''s1''))) = []"
proof -
  have m: "mounted (run 0 [Mount, SocketOpen 0] (useWebSocket (Some ''s1'')))"
    by (simp add: useWebSocket_def step_def handle_def commit_def connection_effect_def
        connect_def no_session_def setConnectionState_def setReconnectAttempt_def
        pending_acks_effect_def on_open_def socket_send_def startHeartbeat_def
        clearHeartbeat_def invoke_def Let_def)
  have n: "Mount \<notin> set [SocketClose 0, Visible, TimeoutFires 0]" by simp
  from teardown_current_version[OF m n]
  have t: "torn_down (run 0 ([Mount, SocketOpen 0] @ Unmount # [SocketClose 0, Visible, TimeoutFires 0])
                  (useWebSocket (Some ''s1'')))"
    by (rule conjunct2[THEN conjunct2, THEN conjunct1])
  have w: "websockets (run 0 ([Mount, SocketOpen 0] @ Unmount # [SocketClose 0, Visible, TimeoutFires 0])
                  (useWebSocket (Some ''s1''))) = [CLOSED]"
    by (simp add: useWebSocket_def step_def handle_def commit_def connection_effect_def
        connection_cleanup_def connect_def no_session_def setConnectionState_def
        setReconnectAttempt_def pending_acks_effect_def on_open_def on_close_def
        socket_send_def socket_close_def startHeartbeat_def clearHeartbeat_def invoke_def
        handleVisibilityChange_def Let_def)
  have s: "scheduled (run 0 ([Mount, SocketOpen 0] @ Unmount # [SocketClose 0, Visible, TimeoutFires 0])
                  (useWebSocket (Some ''s1''))) = []"
    by (simp add: useWebSocket_def step_def handle_def commit_def connection_effect_def
        connection_cleanup_def connect_def no_session_def setConnectionState_def
        setReconnectAttempt_def pending_acks_effect_def on_open_def on_close_def
        socket_send_def socket_close_def startHeartbeat_def clearHeartbeat_def invoke_def
        handleVisibilityChange_def Let_def)
  from m t w s show ?thesis by (intro conjI)
qed

end
